(* ===== verification/Prelude.thy ===== *)
theory Prelude
  imports Main "HOL-Library.Word" "HOL-Library.Multiset"
begin

text \<open>
  Shared vocabulary of the development.

  \<^item> The ways the C++ process can stop (\<open>abort\<close>): a failed \<open>RELEASE_ASSERT\<close>, a failed
    \<open>ASSERT\<close> of a debug build, \<open>PANIC\<close>, \<open>NOT_IMPLEMENTED_GCOVR_EXCL_LINE\<close>, an exception that
    nothing catches, and the undefined behaviours the memory model detects. A fallible operation
    returns \<open>abort + 'a\<close>.
  \<^item> \<open>bindE\<close>, the sequencing of fallible operations, with the simplification rules that let
    \<open>simp\<close> and \<open>auto\<close> walk through a sequence of statements.
  \<^item> Bytes (\<open>8 word\<close>, the source's \<open>uint8_t\<close>) and strings (\<open>char list\<close>, \<open>std::string\<close>), and the
    \<open>reinterpret_cast\<close> between the two.
  \<^item> The locale of transition systems with a fallible step function, shared by the dispatcher, the
    filters and the engine: reachable states, runs, and invariants by induction.
\<close>

named_theorems sem_defs \<open>definitions of the operations, unfolded to execute a step\<close>
named_theorems frame_simps \<open>what an operation leaves unchanged\<close>

section \<open>Aborts and fallible results\<close>

datatype abort =
    ReleaseAssertFailure string
  | AssertFailure string
  | Panic string
  | NotImplemented
  | UncaughtException string
  | NullDereference
  | UninitialisedRead
  | InvalidAccess
  | InvalidFree
  | UseAfterFree

definition bindE :: "'e + 'a \<Rightarrow> ('a \<Rightarrow> 'e + 'b) \<Rightarrow> 'e + 'b" where
  "bindE m f = (case m of Inl e \<Rightarrow> Inl e | Inr x \<Rightarrow> f x)"

lemma bindE_Inl [simp]: "bindE (Inl e) f = Inl e"
  by (simp add: bindE_def)

lemma bindE_Inr [simp]: "bindE (Inr x) f = f x"
  by (simp add: bindE_def)

lemma bindE_eq_Inr [simp]: "bindE m f = Inr y \<longleftrightarrow> (\<exists>x. m = Inr x \<and> f x = Inr y)"
  by (cases m) auto

lemma bindE_eq_Inl: "bindE m f = Inl e \<longleftrightarrow> m = Inl e \<or> (\<exists>x. m = Inr x \<and> f x = Inl e)"
  by (cases m) auto

lemma bindE_assoc: "bindE (bindE m f) g = bindE m (\<lambda>x. bindE (f x) g)"
  by (cases m) auto

lemma bindE_cong [fundef_cong]:
  "m = m' \<Longrightarrow> (\<And>x. m' = Inr x \<Longrightarrow> f x = f' x) \<Longrightarrow> bindE m f = bindE m' f'"
  by (cases m') auto

text \<open>\<open>RELEASE_ASSERT\<close> is always compiled in; \<open>ASSERT\<close> only in a build with assertions enabled,
  the first argument of \<open>ASSERT\<close>.\<close>

definition RELEASE_ASSERT :: "bool \<Rightarrow> string \<Rightarrow> abort + unit" where
  "RELEASE_ASSERT c msg = (if c then Inr () else Inl (ReleaseAssertFailure msg))"

definition ASSERT :: "bool \<Rightarrow> bool \<Rightarrow> string \<Rightarrow> abort + unit" where
  "ASSERT enabled c msg = (if enabled \<and> \<not> c then Inl (AssertFailure msg) else Inr ())"

lemma RELEASE_ASSERT_Inr [simp]: "RELEASE_ASSERT c msg = Inr u \<longleftrightarrow> c"
  by (simp add: RELEASE_ASSERT_def)

lemma RELEASE_ASSERT_True [simp]: "c \<Longrightarrow> RELEASE_ASSERT c msg = Inr ()"
  by (simp add: RELEASE_ASSERT_def)

lemma RELEASE_ASSERT_Inl [simp]:
  "RELEASE_ASSERT c msg = Inl a \<longleftrightarrow> \<not> c \<and> a = ReleaseAssertFailure msg"
  by (auto simp: RELEASE_ASSERT_def)

lemma ASSERT_Inr [simp]: "ASSERT en c msg = Inr u \<longleftrightarrow> (en \<longrightarrow> c)"
  by (simp add: ASSERT_def)

lemma ASSERT_True [simp]: "c \<Longrightarrow> ASSERT en c msg = Inr ()"
  by (simp add: ASSERT_def)

lemma ASSERT_disabled [simp]: "ASSERT False c msg = Inr ()"
  by (simp add: ASSERT_def)

lemma ASSERT_Inl [simp]: "ASSERT en c msg = Inl a \<longleftrightarrow> en \<and> \<not> c \<and> a = AssertFailure msg"
  by (auto simp: ASSERT_def)

section \<open>Bytes and strings\<close>

type_synonym byte = "8 word"
type_synonym size_t = nat
type_synonym ptr = nat

abbreviation (input) NULL :: ptr where
  "NULL \<equiv> 0"

definition char_of_byte :: "byte \<Rightarrow> char" where
  "char_of_byte b = char_of (unat b)"

definition byte_of_char :: "char \<Rightarrow> byte" where
  "byte_of_char c = word_of_nat (of_char c)"

lemma byte_of_char_of_byte [simp]: "byte_of_char (char_of_byte b) = b"
proof -
  have "unat b < 256"
    using unsigned_less [of b, where 'a = nat] by simp
  then show ?thesis
    by (simp add: char_of_byte_def byte_of_char_def of_char_of)
qed

lemma char_of_byte_of_char [simp]: "char_of_byte (byte_of_char c) = c"
proof -
  have "(of_char c :: nat) < 256"
    by (metis nat_of_char_less_256)
  then show ?thesis
    by (simp add: char_of_byte_def byte_of_char_def unat_of_nat)
qed

definition string_of_bytes :: "byte list \<Rightarrow> string" where
  "string_of_bytes bs = map char_of_byte bs"

definition bytes_of_string :: "string \<Rightarrow> byte list" where
  "bytes_of_string s = map byte_of_char s"

lemma bytes_of_string_inverse [simp]: "string_of_bytes (bytes_of_string s) = s"
  by (simp add: string_of_bytes_def bytes_of_string_def comp_def)

lemma string_of_bytes_inverse [simp]: "bytes_of_string (string_of_bytes bs) = bs"
  by (simp add: string_of_bytes_def bytes_of_string_def comp_def)

lemma length_bytes_of_string [simp]: "length (bytes_of_string s) = length s"
  by (simp add: bytes_of_string_def)

lemma length_string_of_bytes [simp]: "length (string_of_bytes bs) = length bs"
  by (simp add: string_of_bytes_def)

section \<open>Lists of options\<close>

lemma map_the_Some [simp]: "map (the \<circ> Some) xs = xs"
  by (induction xs) auto

lemma None_notin_map_Some [simp]: "None \<notin> Some ` S"
  by auto

lemma list_update_replicate_snoc:
  "i = length xs \<Longrightarrow> (map Some xs @ replicate (Suc n) None)[i := Some x] =
     map Some (xs @ [x]) @ replicate n None"
  by (simp add: list_update_append)

section \<open>Transition systems with a fallible step\<close>

text \<open>
  A component is a start state, a guard that says which inputs its environment may supply in a
  state, and a step function. \<open>run\<close> folds the step over a list of inputs and stops at the first
  abort, as the process does. \<open>reach\<close> is reachability by guarded steps; \<open>invariant_rule\<close> lifts a
  one-step invariant to every reachable state.
\<close>

locale transition_system =
  fixes start :: "'s \<Rightarrow> bool"
    and allowed :: "'s \<Rightarrow> 'i \<Rightarrow> bool"
    and step :: "'s \<Rightarrow> 'i \<Rightarrow> 'e + 's"
begin

inductive reach :: "'s \<Rightarrow> bool" where
  reach_start: "start s \<Longrightarrow> reach s"
| reach_step: "reach s \<Longrightarrow> allowed s i \<Longrightarrow> step s i = Inr t \<Longrightarrow> reach t"

fun run :: "'s \<Rightarrow> 'i list \<Rightarrow> 'e + 's" where
  "run s [] = Inr s"
| "run s (i # is) = bindE (step s i) (\<lambda>t. run t is)"

fun allowed_run :: "'s \<Rightarrow> 'i list \<Rightarrow> bool" where
  "allowed_run s [] = True"
| "allowed_run s (i # is) =
     (allowed s i \<and> (case step s i of Inl e \<Rightarrow> True | Inr t \<Rightarrow> allowed_run t is))"

lemma invariant_rule:
  assumes "reach s"
    and "\<And>s. start s \<Longrightarrow> P s"
    and "\<And>s i t. reach s \<Longrightarrow> P s \<Longrightarrow> allowed s i \<Longrightarrow> step s i = Inr t \<Longrightarrow> P t"
  shows "P s"
  using assms(1) by (induction rule: reach.induct) (use assms(2,3) in auto)

lemma reach_run: "reach s \<Longrightarrow> allowed_run s is \<Longrightarrow> run s is = Inr t \<Longrightarrow> reach t"
proof (induction "is" arbitrary: s)
  case Nil
  then show ?case by simp
next
  case (Cons i "is")
  from Cons.prems(3) obtain u where u: "step s i = Inr u" "run u is = Inr t"
    by auto
  with Cons.prems(1,2) have "reach u" "allowed_run u is"
    by (auto intro: reach_step)
  with u(2) show ?case by (rule Cons.IH [rotated 2])
qed

lemma run_append: "run s (is @ js) = bindE (run s is) (\<lambda>t. run t js)"
  by (induction "is" arbitrary: s) (simp_all add: bindE_assoc)

end

end
