(* ===== verification/CTypes.thy ===== *)
theory CTypes
  imports Prelude
begin

text \<open>
  The C types that cross the bridge between Envoy and the platform
  (\<open>src/library/common/types/c_types.h\<close>, \<open>c_types.cc\<close>) and the memory they live in.

  The C heap is an explicit store: a finite map from addresses to blocks, the next fresh address,
  the bytes that can still be allocated, and the platform's choice of what \<open>malloc(0)\<close> returns. A
  block is an array of bytes or, once a header was stored in it, an array of headers; cells that
  were never written are \<open>None\<close>. Freeing an address that is not allocated, reading a cell that was
  never written and accessing a block out of bounds are aborts of the model, so a theorem that an
  operation returns \<open>Inr\<close> says that none of them happens. Release functions supplied by the platform
  are opaque: calling one is recorded in \<open>release_log\<close>.

  The lemmas show that copies have the contents of their source and leave it readable, that
  releasing a copy gives back exactly the memory it took (no leak, no double free), and how much
  memory is enough for a copy to succeed.
\<close>

section \<open>Enumerations and constants\<close>

datatype envoy_status_t = ENVOY_SUCCESS | ENVOY_FAILURE

fun envoy_status_value :: "envoy_status_t \<Rightarrow> int" where
  "envoy_status_value ENVOY_SUCCESS = 0"
| "envoy_status_value ENVOY_FAILURE = 1"

definition kEnvoySuccess :: int where
  "kEnvoySuccess = envoy_status_value ENVOY_SUCCESS"

definition kEnvoyFailure :: int where
  "kEnvoyFailure = envoy_status_value ENVOY_FAILURE"

datatype envoy_error_code_t =
  ENVOY_UNDEFINED_ERROR | ENVOY_STREAM_RESET | ENVOY_CONNECTION_FAILURE

text \<open>A value outside the enumerators can be stored by a cast from an integer; the \<open>default\<close>
  branch of a \<open>switch\<close> handles it.\<close>

datatype envoy_network_t =
  ENVOY_NET_GENERIC | ENVOY_NET_WLAN | ENVOY_NET_WWAN | ENVOY_NET_CAST int

type_synonym envoy_stream_t = "64 word"
type_synonym envoy_engine_t = "64 word"
type_synonym envoy_header_size_t = int

text \<open>A release function is \<open>envoy_noop_release\<close>, the C library's \<open>free\<close>, or a function of the
  platform, known by a number.\<close>

datatype envoy_release_f = envoy_noop_release | free_release | foreign_release nat

record envoy_data =
  ed_length :: size_t
  ed_bytes :: ptr
  ed_release :: envoy_release_f
  ed_context :: ptr

record envoy_header =
  eh_key :: envoy_data
  eh_value :: envoy_data

record envoy_headers =
  hs_length :: envoy_header_size_t
  hs_headers :: ptr

record envoy_error =
  err_code :: envoy_error_code_t
  err_message :: envoy_data
  err_attempt_count :: "32 word"

definition envoy_nodata :: envoy_data where
  "envoy_nodata = \<lparr>ed_length = 0, ed_bytes = NULL, ed_release = envoy_noop_release,
     ed_context = NULL\<rparr>"

definition envoy_noheaders :: envoy_headers where
  "envoy_noheaders = \<lparr>hs_length = 0, hs_headers = NULL\<rparr>"

text \<open>\<open>sizeof(envoy_header)\<close> on a 64-bit platform: two \<open>envoy_data\<close> of four words.\<close>

definition sizeof_envoy_header :: nat where
  "sizeof_envoy_header = 64"

section \<open>The C heap\<close>

datatype block =
    ByteBlock "byte option list"
  | HeaderBlock nat "envoy_header option list"

fun block_size :: "block \<Rightarrow> nat" where
  "block_size (ByteBlock cs) = length cs"
| "block_size (HeaderBlock n hs) = n"

record memory =
  blocks :: "ptr \<Rightarrow> block option"
  next_ptr :: ptr
  avail :: nat
  null_on_zero :: bool
  release_log :: "(nat \<times> ptr) list"

definition put_block :: "memory \<Rightarrow> ptr \<Rightarrow> block \<Rightarrow> memory" where
  "put_block m p b = m\<lparr>blocks := (blocks m)(p \<mapsto> b)\<rparr>"

definition malloc :: "memory \<Rightarrow> nat \<Rightarrow> ptr \<times> memory" where
  "malloc m n =
     (if n = 0 \<and> null_on_zero m then (NULL, m)
      else if n \<le> avail m
        then (next_ptr m,
              m\<lparr>blocks := (blocks m)(next_ptr m \<mapsto> ByteBlock (replicate n None)),
                next_ptr := Suc (next_ptr m), avail := avail m - n\<rparr>)
        else (NULL, m))"

definition calloc :: "memory \<Rightarrow> nat \<Rightarrow> nat \<Rightarrow> ptr \<times> memory" where
  "calloc m cnt n =
     (if 2 ^ 64 \<le> cnt * n then (NULL, m)
      else case malloc m (cnt * n) of (p, m') \<Rightarrow>
        if p = NULL then (NULL, m')
        else (p, put_block m' p (ByteBlock (replicate (cnt * n) (Some 0)))))"

definition c_free :: "memory \<Rightarrow> ptr \<Rightarrow> abort + memory" where
  "c_free m p =
     (if p = NULL then Inr m
      else case blocks m p of
        None \<Rightarrow> Inl InvalidFree
      | Some b \<Rightarrow> Inr (m\<lparr>blocks := (blocks m)(p := None), avail := avail m + block_size b\<rparr>))"

definition load_bytes :: "memory \<Rightarrow> ptr \<Rightarrow> nat \<Rightarrow> abort + byte list" where
  "load_bytes m p n =
     (if n = 0 then Inr []
      else case blocks m p of
        Some (ByteBlock cs) \<Rightarrow>
          if length cs < n then Inl InvalidAccess
          else if None \<in> set (take n cs) then Inl UninitialisedRead
          else Inr (map the (take n cs))
      | _ \<Rightarrow> Inl InvalidAccess)"

definition store_bytes :: "memory \<Rightarrow> ptr \<Rightarrow> byte list \<Rightarrow> abort + memory" where
  "store_bytes m p bs =
     (if bs = [] then Inr m
      else case blocks m p of
        Some (ByteBlock cs) \<Rightarrow>
          if length cs < length bs then Inl InvalidAccess
          else Inr (put_block m p (ByteBlock (map Some bs @ drop (length bs) cs)))
      | _ \<Rightarrow> Inl InvalidAccess)"

definition load_header :: "memory \<Rightarrow> ptr \<Rightarrow> nat \<Rightarrow> abort + envoy_header" where
  "load_header m p i =
     (case blocks m p of
        Some (HeaderBlock n hs) \<Rightarrow>
          if length hs \<le> i then Inl InvalidAccess
          else (case hs ! i of None \<Rightarrow> Inl UninitialisedRead | Some h \<Rightarrow> Inr h)
      | Some (ByteBlock cs) \<Rightarrow> Inl UninitialisedRead
      | None \<Rightarrow> Inl InvalidAccess)"

text \<open>The first store of a header into a fresh block gives the block its element type.\<close>

definition store_header :: "memory \<Rightarrow> ptr \<Rightarrow> nat \<Rightarrow> envoy_header \<Rightarrow> abort + memory" where
  "store_header m p i h =
     (case blocks m p of
        Some (HeaderBlock n hs) \<Rightarrow>
          if length hs \<le> i then Inl InvalidAccess
          else Inr (put_block m p (HeaderBlock n (hs[i := Some h])))
      | Some (ByteBlock cs) \<Rightarrow>
          (let k = length cs div sizeof_envoy_header
           in if k \<le> i then Inl InvalidAccess
              else Inr (put_block m p (HeaderBlock (length cs) ((replicate k None)[i := Some h]))))
      | None \<Rightarrow> Inl InvalidAccess)"

text \<open>What \<open>memcpy\<close> reads from: an address of the C heap, or the characters of a string of Envoy
  seen through a \<open>string_view\<close>.\<close>

datatype byte_source = AtPtr ptr | AtView "byte list"

fun load_source :: "memory \<Rightarrow> byte_source \<Rightarrow> nat \<Rightarrow> abort + byte list" where
  "load_source m (AtPtr p) n = load_bytes m p n"
| "load_source m (AtView bs) n = (if length bs < n then Inl InvalidAccess else Inr (take n bs))"

fun call_release :: "memory \<Rightarrow> envoy_release_f \<Rightarrow> ptr \<Rightarrow> abort + memory" where
  "call_release m envoy_noop_release ctxt = Inr m"
| "call_release m free_release ctxt = c_free m ctxt"
| "call_release m (foreign_release k) ctxt =
     Inr (m\<lparr>release_log := release_log m @ [(k, ctxt)]\<rparr>)"

section \<open>The functions of \<open>c_types.cc\<close>\<close>

definition safe_malloc :: "memory \<Rightarrow> nat \<Rightarrow> abort + ptr \<times> memory" where
  "safe_malloc m sz =
     (case malloc m sz of (p, m') \<Rightarrow>
        if sz > 0
        then bindE (RELEASE_ASSERT (p \<noteq> NULL) ''malloc failure'') (\<lambda>_. Inr (p, m'))
        else Inr (p, m'))"

definition safe_calloc :: "memory \<Rightarrow> nat \<Rightarrow> nat \<Rightarrow> abort + ptr \<times> memory" where
  "safe_calloc m cnt sz =
     (case calloc m cnt sz of (p, m') \<Rightarrow>
        if cnt > 0 \<and> sz > 0
        then bindE (RELEASE_ASSERT (p \<noteq> NULL) ''calloc failure'') (\<lambda>_. Inr (p, m'))
        else Inr (p, m'))"

definition release_envoy_data :: "memory \<Rightarrow> envoy_data \<Rightarrow> abort + memory" where
  "release_envoy_data m d = call_release m (ed_release d) (ed_context d)"

fun release_headers_loop :: "memory \<Rightarrow> ptr \<Rightarrow> nat \<Rightarrow> nat \<Rightarrow> abort + memory" where
  "release_headers_loop m p i 0 = Inr m"
| "release_headers_loop m p i (Suc k) =
     bindE (load_header m p i) (\<lambda>header.
     bindE (release_envoy_data m (eh_key header)) (\<lambda>m1.
     bindE (release_envoy_data m1 (eh_value header)) (\<lambda>m2.
     release_headers_loop m2 p (Suc i) k)))"

definition release_envoy_headers :: "memory \<Rightarrow> envoy_headers \<Rightarrow> abort + memory" where
  "release_envoy_headers m hs =
     bindE (release_headers_loop m (hs_headers hs) 0 (nat (hs_length hs))) (\<lambda>m'.
     c_free m' (hs_headers hs))"

definition copy_envoy_data :: "memory \<Rightarrow> nat \<Rightarrow> byte_source \<Rightarrow> abort + envoy_data \<times> memory" where
  "copy_envoy_data m len src =
     bindE (safe_malloc m len) (\<lambda>(dst_bytes, m1).
     bindE (load_source m1 src len) (\<lambda>bs.
     bindE (store_bytes m1 dst_bytes bs) (\<lambda>m2.
     Inr (\<lparr>ed_length = len, ed_bytes = dst_bytes, ed_release = free_release,
           ed_context = dst_bytes\<rparr>, m2))))"

fun copy_headers_loop :: "memory \<Rightarrow> ptr \<Rightarrow> ptr \<Rightarrow> nat \<Rightarrow> nat \<Rightarrow> abort + memory" where
  "copy_headers_loop m src dst i 0 = Inr m"
| "copy_headers_loop m src dst i (Suc k) =
     bindE (load_header m src i) (\<lambda>h.
     bindE (copy_envoy_data m (ed_length (eh_key h)) (AtPtr (ed_bytes (eh_key h)))) (\<lambda>(key, m1).
     bindE (copy_envoy_data m1 (ed_length (eh_value h)) (AtPtr (ed_bytes (eh_value h))))
       (\<lambda>(val, m2).
     bindE (store_header m2 dst i \<lparr>eh_key = key, eh_value = val\<rparr>) (\<lambda>m3.
     copy_headers_loop m3 src dst (Suc i) k))))"

text \<open>\<open>sizeof(envoy_header) * src.length\<close> is computed in \<open>size_t\<close>: a negative length becomes a
  huge one.\<close>

definition header_array_size :: "envoy_header_size_t \<Rightarrow> nat" where
  "header_array_size len = nat ((int sizeof_envoy_header * len) mod 2 ^ 64)"

definition copy_envoy_headers :: "memory \<Rightarrow> envoy_headers \<Rightarrow> abort + envoy_headers \<times> memory" where
  "copy_envoy_headers m src =
     bindE (safe_malloc m (header_array_size (hs_length src))) (\<lambda>(dst_header_array, m1).
     bindE (copy_headers_loop m1 (hs_headers src) dst_header_array 0 (nat (hs_length src))) (\<lambda>m2.
     Inr (\<lparr>hs_length = hs_length src, hs_headers = dst_header_array\<rparr>, m2)))"

section \<open>Reading a struct back\<close>

definition data_view :: "memory \<Rightarrow> envoy_data \<Rightarrow> abort + byte list" where
  "data_view m d = load_bytes m (ed_bytes d) (ed_length d)"

fun headers_view_loop :: "memory \<Rightarrow> ptr \<Rightarrow> nat \<Rightarrow> nat \<Rightarrow> abort + (byte list \<times> byte list) list" where
  "headers_view_loop m p i 0 = Inr []"
| "headers_view_loop m p i (Suc k) =
     bindE (load_header m p i) (\<lambda>h.
     bindE (data_view m (eh_key h)) (\<lambda>key.
     bindE (data_view m (eh_value h)) (\<lambda>val.
     bindE (headers_view_loop m p (Suc i) k) (\<lambda>rest. Inr ((key, val) # rest)))))"

definition headers_view :: "memory \<Rightarrow> envoy_headers \<Rightarrow> abort + (byte list \<times> byte list) list" where
  "headers_view m hs = headers_view_loop m (hs_headers hs) 0 (nat (hs_length hs))"

section \<open>Well-formed memory\<close>

definition wf_memory :: "memory \<Rightarrow> bool" where
  "wf_memory m \<longleftrightarrow> 0 < next_ptr m \<and> (\<forall>p \<in> dom (blocks m). 0 < p \<and> p < next_ptr m)"

lemma wf_memory_fresh: "wf_memory m \<Longrightarrow> blocks m (next_ptr m) = None"
  by (auto simp: wf_memory_def dom_def)

lemma wf_memory_NULL: "wf_memory m \<Longrightarrow> blocks m NULL = None"
  by (auto simp: wf_memory_def dom_def)

section \<open>Placing bytes in a fresh block\<close>

text \<open>What a copy does to the heap, as one function of the bytes copied.\<close>

definition place :: "memory \<Rightarrow> byte list \<Rightarrow> abort + envoy_data \<times> memory" where
  "place m bs =
     (if bs = [] \<and> null_on_zero m
      then Inr (\<lparr>ed_length = 0, ed_bytes = NULL, ed_release = free_release, ed_context = NULL\<rparr>, m)
      else if length bs \<le> avail m
      then Inr (\<lparr>ed_length = length bs, ed_bytes = next_ptr m, ed_release = free_release,
                 ed_context = next_ptr m\<rparr>,
                m\<lparr>blocks := (blocks m)(next_ptr m \<mapsto> ByteBlock (map Some bs)),
                  next_ptr := Suc (next_ptr m), avail := avail m - length bs\<rparr>)
      else Inl (ReleaseAssertFailure ''malloc failure''))"

lemma load_bytes_length: "load_bytes m p n = Inr bs \<Longrightarrow> length bs = n"
  by (auto simp: load_bytes_def split: if_splits option.splits block.splits)

lemma load_source_length: "load_source m src n = Inr bs \<Longrightarrow> length bs = n"
  by (cases src) (auto dest: load_bytes_length split: if_splits)

lemma load_bytes_cong:
  "(n \<noteq> 0 \<Longrightarrow> blocks m p = blocks m' p) \<Longrightarrow> load_bytes m p n = load_bytes m' p n"
  by (simp add: load_bytes_def)

lemma load_bytes_fresh:
  "wf_memory m \<Longrightarrow> load_bytes m p n = Inr bs \<Longrightarrow> n \<noteq> 0 \<Longrightarrow> p \<noteq> next_ptr m"
  using wf_memory_fresh by (auto simp: load_bytes_def)

lemma safe_malloc_eq:
  "safe_malloc m n =
     (if n = 0 \<and> null_on_zero m then Inr (NULL, m)
      else if n \<le> avail m \<and> (n = 0 \<or> next_ptr m \<noteq> NULL)
      then Inr (next_ptr m,
             m\<lparr>blocks := (blocks m)(next_ptr m \<mapsto> ByteBlock (replicate n None)),
               next_ptr := Suc (next_ptr m), avail := avail m - n\<rparr>)
      else Inl (ReleaseAssertFailure ''malloc failure''))"
  by (auto simp: safe_malloc_def malloc_def RELEASE_ASSERT_def)

lemma copy_envoy_data_place:
  assumes wf: "wf_memory m" and src: "load_source m src n = Inr bs"
  shows "copy_envoy_data m n src = place m bs"
proof -
  have len: "length bs = n"
    using src by (rule load_source_length)
  have nz: "next_ptr m \<noteq> NULL"
    using wf by (auto simp: wf_memory_def)
  let ?m1 = "m\<lparr>blocks := (blocks m)(next_ptr m \<mapsto> ByteBlock (replicate n None)),
                next_ptr := Suc (next_ptr m), avail := avail m - n\<rparr>"
  have src1: "load_source ?m1 src n = Inr bs"
  proof (cases src)
    case (AtPtr p)
    with src have p: "load_bytes m p n = Inr bs" by simp
    then have "load_bytes ?m1 p n = load_bytes m p n"
      using load_bytes_fresh [OF wf p] by (intro load_bytes_cong) auto
    with AtPtr p show ?thesis by simp
  next
    case (AtView vs)
    with src show ?thesis by simp
  qed
  show ?thesis
  proof (cases "n = 0")
    case True
    with len src src1 nz show ?thesis
      by (auto simp: copy_envoy_data_def place_def safe_malloc_eq store_bytes_def)
  next
    case False
    with len src1 nz show ?thesis
      by (auto simp: copy_envoy_data_def place_def safe_malloc_eq store_bytes_def put_block_def)
  qed
qed

text \<open>\<open>holds m d bs\<close>: the struct \<open>d\<close> owns a block of \<open>m\<close> that holds \<open>bs\<close> and is released by
  \<open>free\<close>.\<close>

definition holds :: "memory \<Rightarrow> envoy_data \<Rightarrow> byte list \<Rightarrow> bool" where
  "holds m d bs \<longleftrightarrow> ed_length d = length bs \<and> ed_release d = free_release \<and>
     ed_context d = ed_bytes d \<and>
     (if ed_bytes d = NULL then bs = [] else blocks m (ed_bytes d) = Some (ByteBlock (map Some bs)))"

lemma holds_view: "holds m d bs \<Longrightarrow> data_view m d = Inr bs"
  by (auto simp: holds_def data_view_def load_bytes_def split: if_splits)

definition data_ptrs :: "envoy_data \<Rightarrow> ptr list" where
  "data_ptrs d = (if ed_bytes d = NULL then [] else [ed_bytes d])"

definition header_ptrs :: "envoy_header \<Rightarrow> ptr list" where
  "header_ptrs h = data_ptrs (eh_key h) @ data_ptrs (eh_value h)"

abbreviation headers_ptrs :: "envoy_header list \<Rightarrow> ptr list" where
  "headers_ptrs hs \<equiv> concat (map header_ptrs hs)"

lemma holds_cong:
  "(\<And>p. p \<in> set (data_ptrs d) \<Longrightarrow> blocks m p = blocks m' p) \<Longrightarrow> holds m d bs = holds m' d bs"
  by (auto simp: holds_def data_ptrs_def)

lemma place_spec:
  assumes "wf_memory m" and "place m bs = Inr (d, m')"
  shows "wf_memory m' \<and> holds m' d bs \<and> set (data_ptrs d) \<subseteq> {next_ptr m ..< next_ptr m'} \<and>
    distinct (data_ptrs d) \<and> next_ptr m \<le> next_ptr m' \<and>
    (\<forall>p. p \<notin> set (data_ptrs d) \<longrightarrow> blocks m' p = blocks m p) \<and>
    avail m = avail m' + length bs \<and> null_on_zero m' = null_on_zero m \<and>
    release_log m' = release_log m"
  using assms
  by (auto simp: place_def holds_def data_ptrs_def wf_memory_def less_Suc_eq split: if_splits)

lemma place_succeeds: "length bs \<le> avail m \<Longrightarrow> \<exists>d m'. place m bs = Inr (d, m')"
  by (auto simp: place_def)

lemma place_fails: "place m bs = Inl a \<Longrightarrow> a = ReleaseAssertFailure ''malloc failure''"
  by (auto simp: place_def split: if_splits)

section \<open>Arrays of headers\<close>

text \<open>\<open>header_array b n hs\<close>: the block \<open>b\<close> is an array of \<open>n\<close> headers of which the first ones,
  \<open>hs\<close>, have been written.\<close>

definition header_array :: "block \<Rightarrow> nat \<Rightarrow> envoy_header list \<Rightarrow> bool" where
  "header_array b n hs \<longleftrightarrow> length hs \<le> n \<and>
     (b = HeaderBlock (sizeof_envoy_header * n) (map Some hs @ replicate (n - length hs) None) \<or>
      hs = [] \<and> b = ByteBlock (replicate (sizeof_envoy_header * n) None))"

lemma header_array_size_block: "header_array b n hs \<Longrightarrow> block_size b = sizeof_envoy_header * n"
  by (auto simp: header_array_def)

lemma store_header_array:
  assumes b: "blocks m p = Some b" "header_array b n hs" and lt: "length hs < n"
  shows "\<exists>b'. store_header m p (length hs) h = Inr (put_block m p b') \<and>
    header_array b' n (hs @ [h])"
proof -
  have rep: "replicate (n - length hs) (None :: envoy_header option) = None # replicate (n - Suc (length hs)) None"
    using lt by (metis Suc_diff_Suc replicate_Suc)
  then have upd: "(replicate (n - length hs) None)[0 := Some h] =
      Some h # replicate (n - Suc (length hs)) None"
    by simp
  let ?b' = "HeaderBlock (sizeof_envoy_header * n)
    (map Some (hs @ [h]) @ replicate (n - length (hs @ [h])) None)"
  have "store_header m p (length hs) h = Inr (put_block m p ?b')"
    using b lt upd
    by (auto simp: store_header_def header_array_def sizeof_envoy_header_def list_update_append)
  moreover have "header_array ?b' n (hs @ [h])"
    using lt by (auto simp: header_array_def)
  ultimately show ?thesis by blast
qed

lemma load_header_array:
  assumes "blocks m p = Some b" "header_array b n hs" "i < length hs"
  shows "load_header m p i = Inr (hs ! i)"
  using assms by (auto simp: load_header_def header_array_def nth_append)

lemma header_array_fresh: "header_array (ByteBlock (replicate (sizeof_envoy_header * n) None)) n []"
  by (simp add: header_array_def)

text \<open>Copying a list of key/value pairs into an array, as one function of the bytes copied. Both
  \<open>copy_envoy_headers\<close> and \<open>Http::Utility::toBridgeHeaders\<close> do this.\<close>

fun place_pairs :: "memory \<Rightarrow> ptr \<Rightarrow> nat \<Rightarrow> (byte list \<times> byte list) list \<Rightarrow> abort + memory" where
  "place_pairs m p i [] = Inr m"
| "place_pairs m p i ((k, v) # kvs) =
     bindE (place m k) (\<lambda>(key, m1).
     bindE (place m1 v) (\<lambda>(val, m2).
     bindE (store_header m2 p i \<lparr>eh_key = key, eh_value = val\<rparr>) (\<lambda>m3.
     place_pairs m3 p (Suc i) kvs)))"

definition pairs_size :: "(byte list \<times> byte list) list \<Rightarrow> nat" where
  "pairs_size kvs = (\<Sum>(k, v) \<leftarrow> kvs. length k + length v)"

lemma pairs_size_simps [simp]:
  "pairs_size [] = 0"
  "pairs_size ((k, v) # kvs) = length k + length v + pairs_size kvs"
  by (simp_all add: pairs_size_def)

definition holds_headers :: "memory \<Rightarrow> envoy_header list \<Rightarrow> (byte list \<times> byte list) list \<Rightarrow> bool" where
  "holds_headers m hs kvs \<longleftrightarrow>
     list_all2 (\<lambda>h (k, v). holds m (eh_key h) k \<and> holds m (eh_value h) v) hs kvs"

lemma holds_headers_cong:
  assumes "holds_headers m hs kvs"
    and "\<And>p. p \<in> set (headers_ptrs hs) \<Longrightarrow> blocks m p = blocks m' p"
  shows "holds_headers m' hs kvs"
proof -
  have "holds m' (eh_key h) k \<and> holds m' (eh_value h) v"
    if h: "h \<in> set hs" and kv: "holds m (eh_key h) k \<and> holds m (eh_value h) v" for h k v
  proof -
    have "blocks m p = blocks m' p" if "p \<in> set (header_ptrs h)" for p
      using assms(2) h that by auto
    then show ?thesis
      using kv holds_cong [of "eh_key h" m m'] holds_cong [of "eh_value h" m m']
      by (simp add: header_ptrs_def)
  qed
  with assms(1) show ?thesis
    unfolding holds_headers_def by (auto elim!: list.rel_mono_strong)
qed

text \<open>\<open>extends m p hs kvs m'\<close>: \<open>m'\<close> is \<open>m\<close> with the blocks of the headers \<open>hs\<close>, holding \<open>kvs\<close>,
  added, all of them fresh, and with the block at \<open>p\<close> rewritten.\<close>

definition extends ::
  "memory \<Rightarrow> ptr \<Rightarrow> envoy_header list \<Rightarrow> (byte list \<times> byte list) list \<Rightarrow> memory \<Rightarrow> bool" where
  "extends m p hs kvs m' \<longleftrightarrow> wf_memory m' \<and> holds_headers m' hs kvs \<and> distinct (headers_ptrs hs) \<and>
     set (headers_ptrs hs) \<subseteq> {next_ptr m ..< next_ptr m'} \<and> next_ptr m \<le> next_ptr m' \<and>
     (\<forall>q. q \<noteq> p \<longrightarrow> q \<notin> set (headers_ptrs hs) \<longrightarrow> blocks m' q = blocks m q) \<and>
     avail m = avail m' + pairs_size kvs \<and> null_on_zero m' = null_on_zero m \<and>
     release_log m' = release_log m"

lemma extends_refl: "wf_memory m \<Longrightarrow> extends m p [] [] m"
  by (simp add: extends_def holds_headers_def)

lemma extends_step:
  assumes wf: "wf_memory m" and p: "p < next_ptr m"
    and pl: "place m k = Inr (key, m1)" "place m1 v = Inr (val, m2)"
    and ex: "extends (put_block m2 p b) p hs kvs m'"
  shows "extends m p (\<lparr>eh_key = key, eh_value = val\<rparr> # hs) ((k, v) # kvs) m'"
proof -
  from place_spec [OF wf pl(1)] have wf1: "wf_memory m1" and hk1: "holds m1 key k"
    and kr: "set (data_ptrs key) \<subseteq> {next_ptr m ..< next_ptr m1}" and kd: "distinct (data_ptrs key)"
    and n1: "next_ptr m \<le> next_ptr m1" and f1: "\<And>q. q \<notin> set (data_ptrs key) \<Longrightarrow> blocks m1 q = blocks m q"
    and r1: "avail m = avail m1 + length k" "null_on_zero m1 = null_on_zero m" "release_log m1 = release_log m"
    by auto
  from place_spec [OF wf1 pl(2)] have wf2: "wf_memory m2" and hv2: "holds m2 val v"
    and vr: "set (data_ptrs val) \<subseteq> {next_ptr m1 ..< next_ptr m2}" and vd: "distinct (data_ptrs val)"
    and n2: "next_ptr m1 \<le> next_ptr m2" and f2: "\<And>q. q \<notin> set (data_ptrs val) \<Longrightarrow> blocks m2 q = blocks m1 q"
    and r2: "avail m1 = avail m2 + length v" "null_on_zero m2 = null_on_zero m1" "release_log m2 = release_log m1"
    by auto
  from ex have wf': "wf_memory m'" and hh: "holds_headers m' hs kvs"
    and hr: "set (headers_ptrs hs) \<subseteq> {next_ptr m2 ..< next_ptr m'}" and hd: "distinct (headers_ptrs hs)"
    and n3: "next_ptr m2 \<le> next_ptr m'"
    and f3: "\<And>q. q \<noteq> p \<Longrightarrow> q \<notin> set (headers_ptrs hs) \<Longrightarrow> blocks m' q = blocks m2 q"
    and r3: "avail m2 = avail m' + pairs_size kvs" "null_on_zero m' = null_on_zero m2" "release_log m' = release_log m2"
    by (auto simp: extends_def put_block_def)
  have agree: "blocks m' q = blocks m2 q" if "q < next_ptr m2" "q \<noteq> p" for q
    using f3 [of q] hr that by force
  have kp: "q < next_ptr m2 \<and> q \<noteq> p \<and> q \<notin> set (data_ptrs val)" if "q \<in> set (data_ptrs key)" for q
    using that kr vr n2 p by force
  have vp: "q < next_ptr m2 \<and> q \<noteq> p" if "q \<in> set (data_ptrs val)" for q
    using that vr n1 p by force
  have hk: "holds m' key k"
    using hk1 holds_cong [of key m1 m'] agree f2 kp by simp
  have hv: "holds m' val v"
    using hv2 holds_cong [of val m2 m'] agree vp by simp
  have hps: "headers_ptrs (\<lparr>eh_key = key, eh_value = val\<rparr> # hs) =
      data_ptrs key @ data_ptrs val @ headers_ptrs hs"
    by (simp add: header_ptrs_def)
  have "set (data_ptrs key) \<inter> set (data_ptrs val) = {}"
    "set (data_ptrs key) \<inter> set (headers_ptrs hs) = {}" "set (data_ptrs val) \<inter> set (headers_ptrs hs) = {}"
    using kp vp hr by force+
  then have dist: "distinct (headers_ptrs (\<lparr>eh_key = key, eh_value = val\<rparr> # hs))"
    unfolding hps using kd vd hd by auto
  have frame: "blocks m' q = blocks m q"
    if "q \<noteq> p" "q \<notin> set (headers_ptrs (\<lparr>eh_key = key, eh_value = val\<rparr> # hs))" for q
    using that f1 f2 f3 unfolding hps by simp
  have rng: "set (headers_ptrs (\<lparr>eh_key = key, eh_value = val\<rparr> # hs)) \<subseteq> {next_ptr m ..< next_ptr m'}"
    unfolding hps using kr vr hr n1 n2 n3 by (simp add: subset_iff) (meson le_trans less_le_trans)
  show ?thesis
    unfolding extends_def
    using wf' hk hv hh dist frame rng n1 n2 n3 r1 r2 r3
    by (intro conjI allI impI) (auto simp: holds_headers_def)
qed

lemma wf_put_block: "wf_memory m \<Longrightarrow> blocks m p = Some b \<Longrightarrow> wf_memory (put_block m p b')"
  by (auto simp: wf_memory_def put_block_def dom_def)

lemma place_pair_store:
  assumes wf: "wf_memory m" and b: "blocks m p = Some b" "header_array b n hs"
    and lt: "length hs < n" and pl: "place m k = Inr (key, m1)" "place m1 v = Inr (val, m2)"
  shows "\<exists>b'. store_header m2 p (length hs) \<lparr>eh_key = key, eh_value = val\<rparr> = Inr (put_block m2 p b') \<and>
    header_array b' n (hs @ [\<lparr>eh_key = key, eh_value = val\<rparr>]) \<and> wf_memory (put_block m2 p b') \<and>
    avail m = avail m2 + (length k + length v) \<and> p < next_ptr m"
proof -
  note s1 = place_spec [OF wf pl(1)]
  then have "wf_memory m1" by blast
  note s2 = place_spec [OF this pl(2)]
  have p: "p < next_ptr m"
    using wf b(1) by (auto simp: wf_memory_def dom_def)
  have "p \<notin> set (data_ptrs key)" "p \<notin> set (data_ptrs val)"
    using s1 s2 p by force+
  then have b2: "blocks m2 p = Some b"
    using s1 s2 b(1) by simp
  from store_header_array [OF this b(2) lt] obtain b' where
    "store_header m2 p (length hs) \<lparr>eh_key = key, eh_value = val\<rparr> = Inr (put_block m2 p b')"
    "header_array b' n (hs @ [\<lparr>eh_key = key, eh_value = val\<rparr>])"
    by blast
  with p b2 wf_put_block [of m2 p b b'] s1 s2 show ?thesis by (intro exI [of _ b']) simp
qed

lemma place_pairs_spec:
  assumes "wf_memory m" "blocks m p = Some b" "header_array b n hs0"
    and "length hs0 + length kvs = n" "place_pairs m p (length hs0) kvs = Inr m'"
  shows "\<exists>hs b'. extends m p hs kvs m' \<and> blocks m' p = Some b' \<and> header_array b' n (hs0 @ hs)"
  using assms
proof (induction kvs arbitrary: m b hs0)
  case Nil
  then show ?case by (auto intro!: exI [of _ "[]"] extends_refl)
next
  case (Cons kv kvs)
  obtain k v where kv: "kv = (k, v)" by (cases kv)
  with Cons.prems(5) obtain key m1 val m2 m3 where pl: "place m k = Inr (key, m1)"
    "place m1 v = Inr (val, m2)"
    and st: "store_header m2 p (length hs0) \<lparr>eh_key = key, eh_value = val\<rparr> = Inr m3"
    and rest: "place_pairs m3 p (Suc (length hs0)) kvs = Inr m'"
    by auto
  have "length hs0 < n" using Cons.prems(4) by simp
  from place_pair_store [OF Cons.prems(1-3) this pl] obtain b3 where m3: "m3 = put_block m2 p b3"
    and b3: "header_array b3 n (hs0 @ [\<lparr>eh_key = key, eh_value = val\<rparr>])"
    and wf3: "wf_memory m3" and p: "p < next_ptr m"
    using st by auto
  have "\<exists>hs b'. extends m3 p hs kvs m' \<and> blocks m' p = Some b' \<and>
      header_array b' n ((hs0 @ [\<lparr>eh_key = key, eh_value = val\<rparr>]) @ hs)"
    by (rule Cons.IH [OF wf3 _ b3]) (use Cons.prems(4) rest in \<open>simp_all add: m3 put_block_def\<close>)
  then obtain hs b' where "extends m3 p hs kvs m'" "blocks m' p = Some b'"
    "header_array b' n (hs0 @ \<lparr>eh_key = key, eh_value = val\<rparr> # hs)"
    by auto
  with extends_step [OF Cons.prems(1) p pl] kv m3 show ?case by blast
qed

lemma place_pairs_succeeds:
  assumes "wf_memory m" "blocks m p = Some b" "header_array b n hs0"
    and "length hs0 + length kvs = n" "pairs_size kvs \<le> avail m"
  shows "\<exists>m'. place_pairs m p (length hs0) kvs = Inr m'"
  using assms
proof (induction kvs arbitrary: m b hs0)
  case Nil
  then show ?case by simp
next
  case (Cons kv kvs)
  obtain k v where kv: "kv = (k, v)" by (cases kv)
  obtain key m1 where p1: "place m k = Inr (key, m1)"
    using place_succeeds [of k m] Cons.prems(5) kv by auto
  obtain val m2 where p2: "place m1 v = Inr (val, m2)"
    using place_succeeds [of v m1] Cons.prems(5) kv place_spec [OF Cons.prems(1) p1] by auto
  have "length hs0 < n" using Cons.prems(4) by simp
  from place_pair_store [OF Cons.prems(1-3) this p1 p2] obtain b3 where
    st: "store_header m2 p (length hs0) \<lparr>eh_key = key, eh_value = val\<rparr> = Inr (put_block m2 p b3)"
    and b3: "header_array b3 n (hs0 @ [\<lparr>eh_key = key, eh_value = val\<rparr>])"
    and wf3: "wf_memory (put_block m2 p b3)" and av: "avail m = avail m2 + (length k + length v)"
    by auto
  have "\<exists>m'. place_pairs (put_block m2 p b3) p (length (hs0 @ [\<lparr>eh_key = key, eh_value = val\<rparr>])) kvs = Inr m'"
    by (rule Cons.IH [OF wf3 _ b3]) (use Cons.prems(4,5) kv av in \<open>simp_all add: put_block_def\<close>)
  with kv p1 p2 st show ?case by simp
qed

lemma place_pairs_fails:
  assumes "wf_memory m" "blocks m p = Some b" "header_array b n hs0"
    and "length hs0 + length kvs = n" "place_pairs m p (length hs0) kvs = Inl a"
  shows "a = ReleaseAssertFailure ''malloc failure''"
  using assms
proof (induction kvs arbitrary: m b hs0)
  case Nil
  then show ?case by simp
next
  case (Cons kv kvs)
  obtain k v where kv: "kv = (k, v)" by (cases kv)
  show ?case
  proof (cases "\<exists>kd m1 vd m2. place m k = Inr (kd, m1) \<and> place m1 v = Inr (vd, m2)")
    case True
    then obtain kd m1 vd m2 where pl: "place m k = Inr (kd, m1)" "place m1 v = Inr (vd, m2)"
      by blast
    have "length hs0 < n" using Cons.prems(4) by simp
    from place_pair_store [OF Cons.prems(1-3) this pl] obtain b3 where
      st: "store_header m2 p (length hs0) \<lparr>eh_key = kd, eh_value = vd\<rparr> = Inr (put_block m2 p b3)"
      and b3: "header_array b3 n (hs0 @ [\<lparr>eh_key = kd, eh_value = vd\<rparr>])"
      and wf3: "wf_memory (put_block m2 p b3)"
      by auto
    show ?thesis
      by (rule Cons.IH [OF wf3 _ b3])
         (use Cons.prems(4,5) kv pl st in \<open>simp_all add: put_block_def\<close>)
  next
    case False
    with Cons.prems(5) kv show ?thesis
      by (cases "place m k") (auto simp: bindE_eq_Inl dest: place_fails)
  qed
qed

section \<open>Ownership\<close>

text \<open>\<open>owned_headers m hs kvs fp\<close>: the struct \<open>hs\<close> owns the blocks at the addresses \<open>fp\<close> of \<open>m\<close>,
  no two of its pointers alias, and its contents are \<open>kvs\<close>.\<close>

definition owned_headers ::
  "memory \<Rightarrow> envoy_headers \<Rightarrow> (byte list \<times> byte list) list \<Rightarrow> ptr set \<Rightarrow> bool" where
  "owned_headers m hs kvs fp \<longleftrightarrow> 0 \<le> hs_length hs \<and>
     (\<exists>hdrs. length hdrs = nat (hs_length hs) \<and> holds_headers m hdrs kvs \<and>
        distinct (headers_ptrs hdrs) \<and>
        (if hs_headers hs = NULL then hdrs = [] \<and> fp = {}
         else (\<exists>b. blocks m (hs_headers hs) = Some b \<and> header_array b (length hdrs) hdrs) \<and>
           hs_headers hs \<notin> set (headers_ptrs hdrs) \<and>
           fp = insert (hs_headers hs) (set (headers_ptrs hdrs))))"

definition drop_blocks :: "memory \<Rightarrow> ptr set \<Rightarrow> nat \<Rightarrow> memory" where
  "drop_blocks m ps n = m\<lparr>blocks := (blocks m) |` (- ps), avail := avail m + n\<rparr>"

lemma drop_blocks_simps [simp]:
  "blocks (drop_blocks m ps n) q = (if q \<in> ps then None else blocks m q)"
  "avail (drop_blocks m ps n) = avail m + n"
  "next_ptr (drop_blocks m ps n) = next_ptr m"
  "null_on_zero (drop_blocks m ps n) = null_on_zero m"
  "release_log (drop_blocks m ps n) = release_log m"
  by (simp_all add: drop_blocks_def restrict_map_def)

lemma drop_blocks_empty [simp]: "drop_blocks m {} 0 = m"
  by (simp add: drop_blocks_def restrict_map_def)

lemma drop_blocks_drop [simp]: "drop_blocks (drop_blocks m ps n) qs k = drop_blocks m (ps \<union> qs) (n + k)"
  by (simp add: drop_blocks_def restrict_map_def fun_eq_iff)

lemma wf_drop_blocks [simp]: "wf_memory m \<Longrightarrow> wf_memory (drop_blocks m ps n)"
  by (auto simp: wf_memory_def dom_def split: if_splits)

lemma c_free_NULL [simp]: "c_free m NULL = Inr m"
  by (simp add: c_free_def)

lemma c_free_drop:
  "p \<noteq> NULL \<Longrightarrow> blocks m p = Some b \<Longrightarrow> c_free m p = Inr (drop_blocks m {p} (block_size b))"
  by (auto simp: c_free_def drop_blocks_def restrict_map_def fun_eq_iff)

lemma release_envoy_data_holds:
  "holds m d bs \<Longrightarrow> release_envoy_data m d = Inr (drop_blocks m (set (data_ptrs d)) (length bs))"
  by (auto simp: release_envoy_data_def holds_def data_ptrs_def c_free_drop split: if_splits)

lemma release_headers_loop_holds:
  assumes "blocks m p = Some b" "header_array b n hs" "i + k = length hs"
    and "holds_headers m (drop i hs) kvs" "distinct (headers_ptrs (drop i hs))"
    and "p \<notin> set (headers_ptrs (drop i hs))"
  shows "release_headers_loop m p i k =
    Inr (drop_blocks m (set (headers_ptrs (drop i hs))) (pairs_size kvs))"
  using assms
proof (induction k arbitrary: m i kvs)
  case 0
  then show ?case by (simp add: holds_headers_def)
next
  case (Suc k)
  define h where "h = hs ! i"
  have dr: "drop i hs = h # drop (Suc i) hs"
    using Suc.prems(3) by (simp add: h_def Cons_nth_drop_Suc)
  from Suc.prems(4) obtain key val kvs' where kvs: "kvs = (key, val) # kvs'"
    and hk: "holds m (eh_key h) key" and hv: "holds m (eh_value h) val"
    and rest: "holds_headers m (drop (Suc i) hs) kvs'"
    by (auto simp: holds_headers_def dr list_all2_Cons1 split: prod.splits)
  let ?m1 = "drop_blocks m (set (data_ptrs (eh_key h))) (length key)"
  let ?m2 = "drop_blocks m (set (header_ptrs h)) (length key + length val)"
  have "holds ?m1 (eh_value h) val"
    using hv Suc.prems(5) by (subst holds_cong [of _ _ m]) (auto simp: dr header_ptrs_def)
  from release_envoy_data_holds [OF this]
  have rv: "release_envoy_data ?m1 (eh_value h) = Inr ?m2"
    by (simp add: header_ptrs_def)
  have "holds_headers ?m2 (drop (Suc i) hs) kvs'"
    using rest by (rule holds_headers_cong) (use Suc.prems(5) in \<open>auto simp: dr\<close>)
  then have IH: "release_headers_loop ?m2 p (Suc i) k =
      Inr (drop_blocks ?m2 (set (headers_ptrs (drop (Suc i) hs))) (pairs_size kvs'))"
    using Suc.prems by (intro Suc.IH) (auto simp: dr)
  have "load_header m p i = Inr h"
    using load_header_array [OF Suc.prems(1,2)] Suc.prems(3) by (simp add: h_def)
  then show ?case
    using release_envoy_data_holds [OF hk] rv IH
    by (simp add: kvs dr add.assoc)
qed

lemma release_owned_headers:
  assumes "owned_headers m hs kvs fp"
  shows "release_envoy_headers m hs =
    Inr (drop_blocks m fp (pairs_size kvs +
      (if hs_headers hs = NULL then 0 else sizeof_envoy_header * length kvs)))"
proof (cases "hs_headers hs = NULL")
  case True
  with assms show ?thesis
    by (auto simp: owned_headers_def release_envoy_headers_def holds_headers_def c_free_def)
next
  case False
  with assms obtain hdrs b where o: "length hdrs = nat (hs_length hs)" "holds_headers m hdrs kvs"
    "distinct (headers_ptrs hdrs)" "blocks m (hs_headers hs) = Some b"
    "header_array b (length hdrs) hdrs" "hs_headers hs \<notin> set (headers_ptrs hdrs)"
    "fp = insert (hs_headers hs) (set (headers_ptrs hdrs))"
    by (auto simp: owned_headers_def)
  have len: "length kvs = length hdrs"
    using o(2) by (simp add: holds_headers_def list_all2_lengthD)
  let ?m1 = "drop_blocks m (set (headers_ptrs hdrs)) (pairs_size kvs)"
  have "release_headers_loop m (hs_headers hs) 0 (nat (hs_length hs)) = Inr ?m1"
    using release_headers_loop_holds [OF o(4,5), of 0 "length hdrs" kvs] o by simp
  moreover have "c_free ?m1 (hs_headers hs) =
      Inr (drop_blocks ?m1 {hs_headers hs} (sizeof_envoy_header * length kvs))"
    using False o(4,6) header_array_size_block [OF o(5)] len by (subst c_free_drop) auto
  ultimately show ?thesis
    using False o(7) by (simp add: release_envoy_headers_def Un_commute insert_is_Un [symmetric])
qed

lemma headers_view_loop_holds:
  assumes "blocks m p = Some b" "header_array b n hs" "i + k = length hs"
    and "holds_headers m (drop i hs) kvs"
  shows "headers_view_loop m p i k = Inr kvs"
  using assms
proof (induction k arbitrary: i kvs)
  case 0
  then show ?case by (simp add: holds_headers_def)
next
  case (Suc k)
  have dr: "drop i hs = hs ! i # drop (Suc i) hs"
    using Suc.prems(3) by (simp add: Cons_nth_drop_Suc)
  from Suc.prems(4) obtain key val kvs' where kvs: "kvs = (key, val) # kvs'"
    and hk: "holds m (eh_key (hs ! i)) key" and hv: "holds m (eh_value (hs ! i)) val"
    and rest: "holds_headers m (drop (Suc i) hs) kvs'"
    by (auto simp: holds_headers_def dr list_all2_Cons1 split: prod.splits)
  have "load_header m p i = Inr (hs ! i)"
    using load_header_array [OF Suc.prems(1,2)] Suc.prems(3) by simp
  with Suc.IH [of "Suc i" kvs'] Suc.prems rest holds_view [OF hk] holds_view [OF hv] kvs
  show ?case by simp
qed

lemma owned_headers_view: "owned_headers m hs kvs fp \<Longrightarrow> headers_view m hs = Inr kvs"
  by (fastforce simp: owned_headers_def headers_view_def holds_headers_def
      intro: headers_view_loop_holds [unfolded holds_headers_def, where i = 0] split: if_splits)

lemma owned_headers_length: "owned_headers m hs kvs fp \<Longrightarrow> hs_length hs = int (length kvs)"
  by (auto simp: owned_headers_def holds_headers_def dest!: list_all2_lengthD)

lemma owned_headers_cong:
  assumes "owned_headers m hs kvs fp" "\<And>p. p \<in> fp \<Longrightarrow> blocks m p = blocks m' p"
  shows "owned_headers m' hs kvs fp"
proof -
  from assms(1) obtain hdrs where o: "length hdrs = nat (hs_length hs)" "holds_headers m hdrs kvs"
    "0 \<le> hs_length hs" "distinct (headers_ptrs hdrs)"
    "if hs_headers hs = NULL then hdrs = [] \<and> fp = {}
     else (\<exists>b. blocks m (hs_headers hs) = Some b \<and> header_array b (length hdrs) hdrs) \<and>
       hs_headers hs \<notin> set (headers_ptrs hdrs) \<and> fp = insert (hs_headers hs) (set (headers_ptrs hdrs))"
    by (auto simp: owned_headers_def)
  then have "holds_headers m' hdrs kvs"
    using assms(2) by (intro holds_headers_cong [OF o(2)]) (auto split: if_splits)
  then show ?thesis
    using o assms(2) unfolding owned_headers_def by (intro conjI exI [of _ hdrs]) (auto split: if_splits)
qed

text \<open>\<open>allocates m hs kvs m'\<close>: \<open>m'\<close> is \<open>m\<close> with a struct \<open>hs\<close> added that owns fresh blocks and
  holds \<open>kvs\<close>.\<close>

definition allocates ::
  "memory \<Rightarrow> envoy_headers \<Rightarrow> (byte list \<times> byte list) list \<Rightarrow> memory \<Rightarrow> bool" where
  "allocates m hs kvs m' \<longleftrightarrow> wf_memory m' \<and> release_log m' = release_log m \<and>
     (\<exists>fp. owned_headers m' hs kvs fp \<and> fp \<inter> dom (blocks m) = {} \<and>
        (\<forall>q. q \<notin> fp \<longrightarrow> blocks m' q = blocks m q) \<and>
        avail m = avail m' + pairs_size kvs +
          (if hs_headers hs = NULL then 0 else sizeof_envoy_header * length kvs))"

lemma allocates_view: "allocates m hs kvs m' \<Longrightarrow> headers_view m' hs = Inr kvs"
  by (auto simp: allocates_def dest: owned_headers_view)

lemma allocates_release:
  assumes "allocates m hs kvs m'"
  shows "\<exists>m''. release_envoy_headers m' hs = Inr m'' \<and> blocks m'' = blocks m \<and> avail m'' = avail m \<and>
    release_log m'' = release_log m"
proof -
  from assms obtain fp where fp: "owned_headers m' hs kvs fp" "fp \<inter> dom (blocks m) = {}"
    "\<And>q. q \<notin> fp \<Longrightarrow> blocks m' q = blocks m q"
    and r: "avail m = avail m' + pairs_size kvs +
      (if hs_headers hs = NULL then 0 else sizeof_envoy_header * length kvs)"
      "release_log m' = release_log m"
    by (auto simp: allocates_def)
  have "blocks m q = None" if "q \<in> fp" for q
    using fp(2) that by blast
  then have "blocks (drop_blocks m' fp n) = blocks m" for n
    using fp(3) by (simp add: fun_eq_iff)
  with release_owned_headers [OF fp(1)] r show ?thesis by simp
qed

lemma wf_safe_malloc: "wf_memory m \<Longrightarrow> safe_malloc m n = Inr (p, m') \<Longrightarrow> wf_memory m'"
  by (auto simp: safe_malloc_eq wf_memory_def less_Suc_eq split: if_splits)

lemma place_array_allocates:
  assumes wf: "wf_memory m" and ml: "safe_malloc m (sizeof_envoy_header * length kvs) = Inr (p, m1)"
    and pp: "place_pairs m1 p 0 kvs = Inr m'"
  shows "allocates m \<lparr>hs_length = int (length kvs), hs_headers = p\<rparr> kvs m'"
proof (cases "p = NULL")
  case True
  with ml wf have "kvs = []" "m1 = m"
    by (auto simp: safe_malloc_eq wf_memory_def sizeof_envoy_header_def split: if_splits)
  with pp True wf show ?thesis
    by (auto simp: allocates_def owned_headers_def holds_headers_def)
next
  case False
  let ?n = "length kvs"
  let ?fresh = "ByteBlock (replicate (sizeof_envoy_header * ?n) None)"
  from False ml have p: "p = next_ptr m"
    and m1: "m1 = m\<lparr>blocks := (blocks m)(p \<mapsto> ?fresh), next_ptr := Suc p,
               avail := avail m - sizeof_envoy_header * ?n\<rparr>"
    and av: "sizeof_envoy_header * ?n \<le> avail m"
    by (auto simp: safe_malloc_eq split: if_splits)
  have wf1: "wf_memory m1" using wf ml by (rule wf_safe_malloc)
  have "blocks m1 p = Some ?fresh" by (simp add: m1)
  from place_pairs_spec [OF wf1 this header_array_fresh, of kvs m'] pp
  obtain hs b' where ex: "extends m1 p hs kvs m'" and b': "blocks m' p = Some b'" "header_array b' ?n hs"
    by auto
  have len: "length hs = ?n"
    using ex by (auto simp: extends_def holds_headers_def dest: list_all2_lengthD)
  have rng: "set (headers_ptrs hs) \<subseteq> {Suc p ..< next_ptr m'}"
    using ex by (simp add: extends_def m1)
  let ?fp = "insert p (set (headers_ptrs hs))"
  have "p \<notin> set (headers_ptrs hs)" using rng by force
  then have own: "owned_headers m' \<lparr>hs_length = int ?n, hs_headers = p\<rparr> kvs ?fp"
    unfolding owned_headers_def using False ex b' len
    by (intro conjI exI [of _ hs]) (simp_all add: extends_def)
  have "p \<le> q" if "q \<in> ?fp" for q
    using that rng by force
  moreover have "q < p" if "q \<in> dom (blocks m)" for q
    using that p wf unfolding wf_memory_def by blast
  ultimately have disj: "?fp \<inter> dom (blocks m) = {}"
    by (metis disjoint_iff leD)
  have frame: "\<forall>q. q \<notin> ?fp \<longrightarrow> blocks m' q = blocks m q"
    using ex by (auto simp: extends_def m1)
  have "avail m = avail m' + pairs_size kvs + sizeof_envoy_header * ?n"
    "wf_memory m'" "release_log m' = release_log m"
    using ex av by (auto simp: extends_def m1)
  with own disj frame False show ?thesis
    unfolding allocates_def by (intro conjI exI [of _ ?fp]) simp_all
qed

lemma place_array_succeeds:
  assumes wf: "wf_memory m" and av: "sizeof_envoy_header * length kvs + pairs_size kvs \<le> avail m"
  shows "\<exists>p m1 m'. safe_malloc m (sizeof_envoy_header * length kvs) = Inr (p, m1) \<and>
    place_pairs m1 p 0 kvs = Inr m'"
proof (cases "kvs = []")
  case True
  then show ?thesis using av by (auto simp: safe_malloc_eq)
next
  case False
  let ?n = "length kvs"
  let ?fresh = "ByteBlock (replicate (sizeof_envoy_header * ?n) None)"
  let ?p = "next_ptr m"
  let ?m1 = "m\<lparr>blocks := (blocks m)(?p \<mapsto> ?fresh), next_ptr := Suc ?p,
               avail := avail m - sizeof_envoy_header * ?n\<rparr>"
  have ml: "safe_malloc m (sizeof_envoy_header * ?n) = Inr (?p, ?m1)"
    using False wf av by (simp add: safe_malloc_eq wf_memory_def sizeof_envoy_header_def)
  have "blocks ?m1 ?p = Some ?fresh" by simp
  from place_pairs_succeeds [OF wf_safe_malloc [OF wf ml] this header_array_fresh, of kvs] av
  have "\<exists>m'. place_pairs ?m1 ?p 0 kvs = Inr m'" by simp
  with ml show ?thesis by blast
qed

section \<open>The interface of the operations that build an \<open>envoy_headers\<close>\<close>

text \<open>
  \<open>copy_envoy_headers\<close> and \<open>Http::Utility::toBridgeHeaders\<close> build a fresh \<open>envoy_headers\<close> from
  different sources. The law they share is that the result is a fresh array filled with fresh copies
  of the pairs \<open>kvs\<close> of the source; contents, ownership, release and memory use follow once.
\<close>

locale headers_copier =
  fixes pre :: "memory \<Rightarrow> 'x \<Rightarrow> (byte list \<times> byte list) list \<Rightarrow> bool"
    and conv :: "memory \<Rightarrow> 'x \<Rightarrow> abort + envoy_headers \<times> memory"
  assumes conv_place: "wf_memory m \<Longrightarrow> pre m x kvs \<Longrightarrow>
    conv m x = bindE (safe_malloc m (sizeof_envoy_header * length kvs)) (\<lambda>(p, m1).
      bindE (place_pairs m1 p 0 kvs) (\<lambda>m2.
      Inr (\<lparr>hs_length = int (length kvs), hs_headers = p\<rparr>, m2)))"
begin

lemma conv_allocates:
  assumes "wf_memory m" "pre m x kvs" "conv m x = Inr (hs, m')"
  shows "allocates m hs kvs m'"
  using assms(3) place_array_allocates [OF assms(1)] unfolding conv_place [OF assms(1,2)]
  by auto

lemma conv_succeeds:
  assumes "wf_memory m" "pre m x kvs" "sizeof_envoy_header * length kvs + pairs_size kvs \<le> avail m"
  shows "\<exists>hs m'. conv m x = Inr (hs, m') \<and> allocates m hs kvs m'"
  using place_array_succeeds [OF assms(1,3)] place_array_allocates [OF assms(1)]
  unfolding conv_place [OF assms(1,2)] by auto

lemma conv_fails:
  assumes wf: "wf_memory m" and p: "pre m x kvs" and f: "conv m x = Inl a"
  shows "a = ReleaseAssertFailure ''malloc failure''"
proof (cases "safe_malloc m (sizeof_envoy_header * length kvs)")
  case (Inl e)
  with f show ?thesis
    unfolding conv_place [OF wf p] by (auto simp: safe_malloc_eq split: if_splits)
next
  case (Inr r)
  then obtain q m1 where ml: "safe_malloc m (sizeof_envoy_header * length kvs) = Inr (q, m1)"
    by (cases r) auto
  with f have pp: "place_pairs m1 q 0 kvs = Inl a"
    unfolding conv_place [OF wf p] by (simp add: bindE_eq_Inl)
  then have "kvs \<noteq> []" by auto
  with ml have "blocks m1 q = Some (ByteBlock (replicate (sizeof_envoy_header * length kvs) None))"
    by (auto simp: safe_malloc_eq sizeof_envoy_header_def split: if_splits)
  from place_pairs_fails [OF wf_safe_malloc [OF wf ml] this header_array_fresh] pp
  show ?thesis by simp
qed

lemma conv_correct:
  assumes "wf_memory m" "pre m x kvs" "sizeof_envoy_header * length kvs + pairs_size kvs \<le> avail m"
  shows "\<exists>hs m' m''. conv m x = Inr (hs, m') \<and> headers_view m' hs = Inr kvs \<and>
    (\<forall>q b. blocks m q = Some b \<longrightarrow> blocks m' q = Some b) \<and>
    release_envoy_headers m' hs = Inr m'' \<and> blocks m'' = blocks m \<and> avail m'' = avail m"
proof -
  obtain hs m' where c: "conv m x = Inr (hs, m')" and al: "allocates m hs kvs m'"
    using conv_succeeds [OF assms] by blast
  then have "\<forall>q b. blocks m q = Some b \<longrightarrow> blocks m' q = Some b"
    by (metis allocates_def disjoint_iff domI)
  with c allocates_view [OF al] allocates_release [OF al] show ?thesis by blast
qed

end

section \<open>Copying headers\<close>

lemma header_array_unreadable:
  "blocks m p = Some b \<Longrightarrow> header_array b n hs \<Longrightarrow> k \<noteq> 0 \<Longrightarrow> load_bytes m p k \<noteq> Inr bs"
  by (auto simp: load_bytes_def header_array_def split: if_splits)

lemma data_view_frame:
  assumes "data_view m d = Inr bs"
    and "\<And>q b. blocks m q = Some b \<Longrightarrow> q \<noteq> dst \<Longrightarrow> blocks m' q = Some b"
    and "\<And>k bs. k \<noteq> 0 \<Longrightarrow> load_bytes m dst k \<noteq> Inr bs"
  shows "data_view m' d = Inr bs"
proof (cases "ed_length d = 0")
  case True
  with assms(1) show ?thesis by (simp add: data_view_def load_bytes_def)
next
  case False
  with assms(1,3) have "ed_bytes d \<noteq> dst" by (auto simp: data_view_def)
  moreover obtain b where "blocks m (ed_bytes d) = Some b"
    using assms(1) False by (auto simp: data_view_def load_bytes_def split: option.splits)
  ultimately have "blocks m' (ed_bytes d) = blocks m (ed_bytes d)"
    using assms(2) by auto
  with assms(1) show ?thesis
    using load_bytes_cong [of "ed_length d" m' "ed_bytes d" m] by (simp add: data_view_def)
qed

lemma headers_view_loop_frame:
  assumes "headers_view_loop m p i k = Inr kvs" "p \<noteq> dst"
    and fr: "\<And>q b. blocks m q = Some b \<Longrightarrow> q \<noteq> dst \<Longrightarrow> blocks m' q = Some b"
    and ur: "\<And>k bs. k \<noteq> 0 \<Longrightarrow> load_bytes m dst k \<noteq> Inr bs"
  shows "headers_view_loop m' p i k = Inr kvs"
  using assms(1,2)
proof (induction k arbitrary: i kvs)
  case 0
  then show ?case by simp
next
  case (Suc k)
  then obtain h key val rest where h: "load_header m p i = Inr h"
    and kv: "data_view m (eh_key h) = Inr key" "data_view m (eh_value h) = Inr val"
    and rest: "headers_view_loop m p (Suc i) k = Inr rest" "kvs = (key, val) # rest"
    by auto
  obtain b where "blocks m p = Some b"
    using h by (auto simp: load_header_def split: option.splits)
  with fr Suc.prems(2) have "blocks m' p = blocks m p" by auto
  with h have "load_header m' p i = Inr h" by (simp add: load_header_def)
  with data_view_frame [OF kv(1) fr ur] data_view_frame [OF kv(2) fr ur] Suc.IH [OF rest(1)] Suc.prems(2) rest(2)
  show ?case by simp
qed

lemma copy_headers_loop_place:
  assumes "wf_memory m" "blocks m dst = Some b" "header_array b n hs" "length hs = i" "i + k = n"
    and "src \<noteq> dst" "headers_view_loop m src i k = Inr kvs"
  shows "copy_headers_loop m src dst i k = place_pairs m dst i kvs"
  using assms
proof (induction k arbitrary: m b hs i kvs)
  case 0
  then show ?case by simp
next
  case (Suc k)
  from Suc.prems(7) obtain h key val rest where h: "load_header m src i = Inr h"
    and kv: "data_view m (eh_key h) = Inr key" "data_view m (eh_value h) = Inr val"
    and rest: "headers_view_loop m src (Suc i) k = Inr rest" "kvs = (key, val) # rest"
    by auto
  have ur: "\<And>k bs. k \<noteq> 0 \<Longrightarrow> load_bytes m dst k \<noteq> Inr bs"
    using header_array_unreadable [OF Suc.prems(2,3)] .
  have ck: "copy_envoy_data m (ed_length (eh_key h)) (AtPtr (ed_bytes (eh_key h))) = place m key"
    using copy_envoy_data_place [OF Suc.prems(1)] kv(1) by (simp add: data_view_def)
  show ?case
  proof (cases "place m key")
    case (Inl a)
    with h ck rest show ?thesis by simp
  next
    case (Inr r)
    then obtain kd m1 where p1: "place m key = Inr (kd, m1)" by (cases r) auto
    note s1 = place_spec [OF Suc.prems(1) p1]
    have f1: "blocks m1 q = Some c" if "blocks m q = Some c" for q c
    proof -
      have "q < next_ptr m" using that Suc.prems(1) by (auto simp: wf_memory_def)
      then have "q \<notin> set (data_ptrs kd)" using s1 by force
      then show ?thesis using s1 that by simp
    qed
    have "data_view m1 (eh_value h) = Inr val"
      using data_view_frame [OF kv(2) _ ur] f1 by blast
    then have cv: "copy_envoy_data m1 (ed_length (eh_value h)) (AtPtr (ed_bytes (eh_value h))) = place m1 val"
      using copy_envoy_data_place s1 by (simp add: data_view_def)
    show ?thesis
    proof (cases "place m1 val")
      case (Inl a)
      with h ck p1 cv rest show ?thesis by simp
    next
      case (Inr r')
      then obtain vd m2 where p2: "place m1 val = Inr (vd, m2)" by (cases r') auto
      have wf1: "wf_memory m1" using s1 by blast
      note s2 = place_spec [OF wf1 p2]
      from place_pair_store [OF Suc.prems(1-3) _ p1 p2] Suc.prems(4,5) obtain b' where
        st: "store_header m2 dst i \<lparr>eh_key = kd, eh_value = vd\<rparr> = Inr (put_block m2 dst b')"
        and b': "header_array b' n (hs @ [\<lparr>eh_key = kd, eh_value = vd\<rparr>])"
        and wf3: "wf_memory (put_block m2 dst b')"
        by auto
      have f2: "blocks (put_block m2 dst b') q = Some c" if "blocks m q = Some c" "q \<noteq> dst" for q c
      proof -
        have m1q: "blocks m1 q = Some c" using that(1) by (rule f1)
        then have "q < next_ptr m1" using wf1 by (auto simp: wf_memory_def)
        then have "q \<notin> set (data_ptrs vd)" using s2 by force
        then show ?thesis using s2 m1q that(2) by (simp add: put_block_def)
      qed
      have "headers_view_loop (put_block m2 dst b') src (Suc i) k = Inr rest"
        using headers_view_loop_frame [OF rest(1) Suc.prems(6) f2 ur] .
      then have "copy_headers_loop (put_block m2 dst b') src dst (Suc i) k =
          place_pairs (put_block m2 dst b') dst (Suc i) rest"
        using Suc.prems(4,5,6)
        by (intro Suc.IH [OF wf3 _ b']) (simp_all add: put_block_def)
      with h ck p1 cv p2 st rest show ?thesis by simp
    qed
  qed
qed

lemma headers_view_loop_length: "headers_view_loop m p i k = Inr kvs \<Longrightarrow> length kvs = k"
  by (induction k arbitrary: i kvs) auto

lemma header_array_size_eq:
  "0 \<le> len \<Longrightarrow> len < 2 ^ 31 \<Longrightarrow> header_array_size len = sizeof_envoy_header * nat len"
  by (auto simp: header_array_size_def sizeof_envoy_header_def nat_mult_distrib)

lemma copy_envoy_headers_place:
  assumes wf: "wf_memory m" and len: "0 \<le> hs_length src" "hs_length src < 2 ^ 31"
    and view: "headers_view m src = Inr kvs"
  shows "copy_envoy_headers m src =
    bindE (safe_malloc m (sizeof_envoy_header * length kvs)) (\<lambda>(p, m1).
    bindE (place_pairs m1 p 0 kvs) (\<lambda>m2.
    Inr (\<lparr>hs_length = int (length kvs), hs_headers = p\<rparr>, m2)))"
proof -
  have k: "length kvs = nat (hs_length src)"
    using view by (auto simp: headers_view_def dest: headers_view_loop_length)
  have loop: "copy_headers_loop m1 (hs_headers src) p 0 (nat (hs_length src)) = place_pairs m1 p 0 kvs"
    if ml: "safe_malloc m (sizeof_envoy_header * length kvs) = Inr (p, m1)" for p m1
  proof (cases "kvs = []")
    case True
    with k show ?thesis by simp
  next
    case False
    then have nz: "sizeof_envoy_header * length kvs \<noteq> 0" by (simp add: sizeof_envoy_header_def)
    let ?fresh = "ByteBlock (replicate (sizeof_envoy_header * length kvs) None)"
    from ml nz have p: "p = next_ptr m"
      and b: "blocks m1 = (blocks m)(p \<mapsto> ?fresh)"
      by (auto simp: safe_malloc_eq split: if_splits)
    have dst: "blocks m p = None" using p wf_memory_fresh [OF wf] by simp
    have "load_header m (hs_headers src) 0 \<noteq> Inl InvalidAccess"
      using view k False by (cases "nat (hs_length src)") (auto simp: headers_view_def)
    then have ne: "hs_headers src \<noteq> p" using dst by (auto simp: load_header_def)
    have "headers_view_loop m1 (hs_headers src) 0 (nat (hs_length src)) = Inr kvs"
      using view unfolding headers_view_def
      by (rule headers_view_loop_frame [where dst = p]) (use ne dst b in \<open>auto simp: load_bytes_def\<close>)
    moreover have "blocks m1 p = Some ?fresh" by (simp add: b)
    ultimately show ?thesis
      using copy_headers_loop_place [OF wf_safe_malloc [OF wf ml] _ header_array_fresh, of p "length kvs" 0
          "nat (hs_length src)" "hs_headers src" kvs] ne k by simp
  qed
  show ?thesis
    unfolding copy_envoy_headers_def header_array_size_eq [OF len] k [symmetric]
    by (rule bindE_cong) (use loop k len in \<open>auto split: prod.splits\<close>)
qed

lemma headers_view_mono:
  assumes wf: "wf_memory m" and view: "headers_view m hs = Inr kvs"
    and fr: "\<And>q b. blocks m q = Some b \<Longrightarrow> blocks m' q = Some b"
  shows "headers_view m' hs = Inr kvs"
proof -
  let ?q = "Suc (next_ptr m + hs_headers hs)"
  have "blocks m ?q = None"
  proof (rule ccontr)
    assume "blocks m ?q \<noteq> None"
    then have "?q < next_ptr m" using wf unfolding wf_memory_def by blast
    then show False by simp
  qed
  then have ur: "k \<noteq> 0 \<Longrightarrow> load_bytes m ?q k \<noteq> Inr bs" for k bs
    by (simp add: load_bytes_def)
  show ?thesis
    using view unfolding headers_view_def
    by (rule headers_view_loop_frame [where dst = ?q]) (use fr ur in auto)
qed

interpretation copyh: headers_copier
  "\<lambda>m src kvs. 0 \<le> hs_length src \<and> hs_length src < 2 ^ 31 \<and> headers_view m src = Inr kvs"
  copy_envoy_headers
  by unfold_locales (blast intro: copy_envoy_headers_place)

text \<open>C39. With enough memory, copying headers that can be read succeeds; the copy has the contents of
  the source, the source is still readable, and releasing the copy frees exactly the blocks the copy
  took: the heap is as before, nothing leaks and nothing is freed twice.\<close>

theorem copy_envoy_headers_correct:
  assumes "wf_memory m" and "0 \<le> hs_length src" "hs_length src < 2 ^ 31"
    and "headers_view m src = Inr kvs"
    and "sizeof_envoy_header * length kvs + pairs_size kvs \<le> avail m"
  shows "\<exists>dst m' m''. copy_envoy_headers m src = Inr (dst, m') \<and>
    headers_view m' dst = Inr kvs \<and> headers_view m' src = Inr kvs \<and>
    release_envoy_headers m' dst = Inr m'' \<and> blocks m'' = blocks m \<and> avail m'' = avail m"
  using copyh.conv_correct [OF assms(1) _ assms(5), of src] assms(2-4)
    headers_view_mono [OF assms(1,4)] by metis

text \<open>A concrete heap: one header \<open>a: bc\<close> at address 3, its key at 1 and its value at 2.\<close>

definition sample_memory :: memory where
  "sample_memory = \<lparr>blocks = [1 \<mapsto> ByteBlock [Some 97], 2 \<mapsto> ByteBlock [Some 98, Some 99],
     3 \<mapsto> HeaderBlock 64 [Some \<lparr>eh_key = \<lparr>ed_length = 1, ed_bytes = 1, ed_release = free_release,
       ed_context = 1\<rparr>, eh_value = \<lparr>ed_length = 2, ed_bytes = 2, ed_release = free_release,
       ed_context = 2\<rparr>\<rparr>]], next_ptr = 4, avail = 1000, null_on_zero = False, release_log = []\<rparr>"

definition sample_headers :: envoy_headers where
  "sample_headers = \<lparr>hs_length = 1, hs_headers = 3\<rparr>"

lemma wf_sample_memory: "wf_memory sample_memory"
  by (auto simp: wf_memory_def sample_memory_def split: if_splits)

lemma sample_headers_view: "headers_view sample_memory sample_headers = Inr [([97], [98, 99])]"
  by (simp add: headers_view_def sample_headers_def sample_memory_def load_header_def data_view_def
      load_bytes_def)

theorem copy_envoy_headers_correct_witness:
  "\<exists>dst m' m''. copy_envoy_headers sample_memory sample_headers = Inr (dst, m') \<and>
    headers_view m' dst = Inr [([97], [98, 99])] \<and>
    headers_view m' sample_headers = Inr [([97], [98, 99])] \<and>
    release_envoy_headers m' dst = Inr m'' \<and> blocks m'' = blocks sample_memory \<and>
    avail m'' = avail sample_memory"
  using copy_envoy_headers_correct [OF wf_sample_memory _ _ sample_headers_view]
  by (simp add: sample_headers_def sample_memory_def sizeof_envoy_header_def)

end
