(* ===== verification/EnvoyLib.thy ===== *)
theory EnvoyLib
  imports Prelude
begin

text \<open>
  The parts of Envoy the code calls and the repository does not hold, as parameters of the model: the
  header map (\<open>envoy/http/header_map.h\<close>), the buffer (\<open>envoy/buffer/buffer.h\<close>) and the HTTP
  utilities. Each is a record of functions that the definitions of the development take as an
  argument. What the code relies on is stated as a predicate over that record, from the documentation
  of the Envoy interface: \<open>header_map_laws\<close>, \<open>buffer_laws\<close>. A reference instance over lists shows
  that the predicates can be met; the witnesses use it.
\<close>

section \<open>Header maps\<close>

record 'h header_map_api =
  hm_create :: 'h
  hm_addCopy :: "'h \<Rightarrow> string \<Rightarrow> string \<Rightarrow> 'h"
  hm_addReference :: "'h \<Rightarrow> string \<Rightarrow> string \<Rightarrow> 'h"
  hm_setReferenceForwardedProto :: "'h \<Rightarrow> string \<Rightarrow> 'h"
  hm_remove :: "'h \<Rightarrow> string \<Rightarrow> 'h"
  hm_clear :: "'h \<Rightarrow> 'h"
  hm_get :: "'h \<Rightarrow> string \<Rightarrow> string list"
  hm_size :: "'h \<Rightarrow> nat"
  hm_iterate :: "'h \<Rightarrow> (string \<times> string) list"
  LowerCaseString :: "string \<Rightarrow> string"

definition ascii_lower :: "char \<Rightarrow> char" where
  "ascii_lower c = (let n = (of_char c :: nat) in if 65 \<le> n \<and> n \<le> 90 then char_of (n + 32) else c)"

lemma ascii_lower_idem [simp]: "ascii_lower (ascii_lower c) = ascii_lower c"
  by (simp add: ascii_lower_def Let_def)

text \<open>
  The documented behaviour: \<open>size\<close> counts what \<open>iterate\<close> visits; \<open>get\<close> returns the values of a
  key; adding a header whose key is absent adds one entry (where an entry is placed is not promised,
  hence the multiset); \<open>remove\<close> deletes the entries of a key; \<open>clear\<close> deletes all; the setter of a
  predefined header replaces the values of its key; keys are lower case, and \<open>LowerCaseString\<close>
  lowers the ASCII letters.
\<close>

definition header_map_laws :: "('h, 'z) header_map_api_scheme \<Rightarrow> bool" where
  "header_map_laws H \<longleftrightarrow>
     hm_iterate H (hm_create H) = [] \<and>
     (\<forall>h. hm_size H h = length (hm_iterate H h)) \<and>
     (\<forall>h k. hm_get H h k = map snd (filter (\<lambda>(k', _). k' = k) (hm_iterate H h))) \<and>
     (\<forall>h k v. hm_get H h k = [] \<longrightarrow> LowerCaseString H k = k \<longrightarrow>
        mset (hm_iterate H (hm_addCopy H h k v)) = add_mset (k, v) (mset (hm_iterate H h))) \<and>
     (\<forall>h k v. hm_get H h k = [] \<longrightarrow> LowerCaseString H k = k \<longrightarrow>
        mset (hm_iterate H (hm_addReference H h k v)) = add_mset (k, v) (mset (hm_iterate H h))) \<and>
     (\<forall>h k. mset (hm_iterate H (hm_remove H h k)) =
        filter_mset (\<lambda>(k', _). k' \<noteq> k) (mset (hm_iterate H h))) \<and>
     (\<forall>h. hm_iterate H (hm_clear H h) = []) \<and>
     (\<forall>h v. mset (hm_iterate H (hm_setReferenceForwardedProto H h v)) =
        add_mset (''x-forwarded-proto'', v)
          (filter_mset (\<lambda>(k', _). k' \<noteq> ''x-forwarded-proto'') (mset (hm_iterate H h)))) \<and>
     (\<forall>h k v. (k, v) \<in> set (hm_iterate H h) \<longrightarrow> LowerCaseString H k = k) \<and>
     LowerCaseString H = map ascii_lower"

lemma header_map_lawsD:
  assumes "header_map_laws H"
  shows "hm_iterate H (hm_create H) = []"
    and "hm_size H h = length (hm_iterate H h)"
    and "hm_get H h k = map snd (filter (\<lambda>(k', _). k' = k) (hm_iterate H h))"
    and "hm_get H h k = [] \<Longrightarrow> LowerCaseString H k = k \<Longrightarrow>
      mset (hm_iterate H (hm_addCopy H h k v)) = add_mset (k, v) (mset (hm_iterate H h))"
    and "hm_get H h k = [] \<Longrightarrow> LowerCaseString H k = k \<Longrightarrow>
      mset (hm_iterate H (hm_addReference H h k v)) = add_mset (k, v) (mset (hm_iterate H h))"
    and "mset (hm_iterate H (hm_remove H h k)) =
      filter_mset (\<lambda>(k', _). k' \<noteq> k) (mset (hm_iterate H h))"
    and "hm_iterate H (hm_clear H h) = []"
    and "mset (hm_iterate H (hm_setReferenceForwardedProto H h v)) =
      add_mset (''x-forwarded-proto'', v)
        (filter_mset (\<lambda>(k', _). k' \<noteq> ''x-forwarded-proto'') (mset (hm_iterate H h)))"
    and "(k, v) \<in> set (hm_iterate H h) \<Longrightarrow> LowerCaseString H k = k"
    and "LowerCaseString H = map ascii_lower"
  using assms unfolding header_map_laws_def by blast+

abbreviation hm_keys :: "('h, 'z) header_map_api_scheme \<Rightarrow> 'h \<Rightarrow> string set" where
  "hm_keys H h \<equiv> fst ` set (hm_iterate H h)"

lemma hm_get_Nil: "header_map_laws H \<Longrightarrow> hm_get H h k = [] \<longleftrightarrow> k \<notin> hm_keys H h"
  by (force simp: header_map_lawsD(3) filter_empty_conv)

lemma set_iterate_addCopy:
  "header_map_laws H \<Longrightarrow> k \<notin> hm_keys H h \<Longrightarrow> LowerCaseString H k = k \<Longrightarrow>
     set (hm_iterate H (hm_addCopy H h k v)) = insert (k, v) (set (hm_iterate H h))"
  using header_map_lawsD(4) [of H h k v] hm_get_Nil [of H h k]
  by (metis set_mset_add_mset_insert set_mset_mset)

text \<open>\<open>getAll\<close>: the multiset of the values of a key; equal for two maps with the same entries.\<close>

lemma hm_get_mset:
  "header_map_laws H \<Longrightarrow>
     mset (hm_get H h k) = image_mset snd (filter_mset (\<lambda>(k', _). k' = k) (mset (hm_iterate H h)))"
  by (simp add: header_map_lawsD(3) mset_filter)

section \<open>Buffers\<close>

record 'b buffer_api =
  buf_create :: 'b
  buf_length :: "'b \<Rightarrow> nat"
  buf_copyOut :: "'b \<Rightarrow> nat \<Rightarrow> nat \<Rightarrow> byte list"
  buf_drain :: "'b \<Rightarrow> nat \<Rightarrow> 'b"
  buf_move :: "'b \<Rightarrow> 'b \<Rightarrow> 'b \<times> 'b"
  buf_addBufferFragment :: "'b \<Rightarrow> byte list \<Rightarrow> 'b"

definition buffer_view :: "('b, 'z) buffer_api_scheme \<Rightarrow> 'b \<Rightarrow> byte list" where
  "buffer_view B b = buf_copyOut B b 0 (buf_length B b)"

text \<open>The documented behaviour: a buffer is a sequence of bytes; \<open>copyOut\<close> copies a range of it,
  \<open>drain\<close> removes a prefix, \<open>move\<close> appends one buffer to another and empties it, adding a fragment
  appends its bytes.\<close>

definition buffer_laws :: "('b, 'z) buffer_api_scheme \<Rightarrow> bool" where
  "buffer_laws B \<longleftrightarrow>
     (\<forall>b. length (buffer_view B b) = buf_length B b) \<and>
     buffer_view B (buf_create B) = [] \<and>
     (\<forall>b n. buffer_view B (buf_drain B b n) = drop n (buffer_view B b)) \<and>
     (\<forall>d s. buffer_view B (fst (buf_move B d s)) = buffer_view B d @ buffer_view B s) \<and>
     (\<forall>d s. buffer_view B (snd (buf_move B d s)) = []) \<and>
     (\<forall>b bs. buffer_view B (buf_addBufferFragment B b bs) = buffer_view B b @ bs)"

lemma buffer_lawsD:
  assumes "buffer_laws B"
  shows "length (buffer_view B b) = buf_length B b"
    and "buffer_view B (buf_create B) = []"
    and "buffer_view B (buf_drain B b n) = drop n (buffer_view B b)"
    and "buffer_view B (fst (buf_move B d s)) = buffer_view B d @ buffer_view B s"
    and "buffer_view B (snd (buf_move B d s)) = []"
    and "buffer_view B (buf_addBufferFragment B b bs) = buffer_view B b @ bs"
  using assms by (simp_all add: buffer_laws_def)

lemma buf_length_view: "buffer_laws B \<Longrightarrow> buf_length B b = length (buffer_view B b)"
  by (simp add: buffer_lawsD(1))

section \<open>The reference instances\<close>

text \<open>A header map as the list of its entries, with lower-case keys.\<close>

type_synonym list_headers = "(string \<times> string) list"

definition lower_entry :: "string \<times> string \<Rightarrow> string \<times> string" where
  "lower_entry e = (map ascii_lower (fst e), snd e)"

lemma lower_entry_simps [simp]:
  "fst (lower_entry e) = map ascii_lower (fst e)" "lower_entry (k, v) = (map ascii_lower k, v)"
  by (simp_all add: lower_entry_def)

definition list_header_map :: "list_headers header_map_api" where
  "list_header_map =
     \<lparr>hm_create = [],
      hm_addCopy = (\<lambda>h k v. h @ [(k, v)]),
      hm_addReference = (\<lambda>h k v. h @ [(k, v)]),
      hm_setReferenceForwardedProto = (\<lambda>h v.
        filter (\<lambda>e. fst (lower_entry e) \<noteq> ''x-forwarded-proto'') h @ [(''x-forwarded-proto'', v)]),
      hm_remove = (\<lambda>h k. filter (\<lambda>e. fst (lower_entry e) \<noteq> k) h),
      hm_clear = (\<lambda>h. []),
      hm_get = (\<lambda>h k. map snd (filter (\<lambda>(k', _). k' = k) (map lower_entry h))),
      hm_size = length,
      hm_iterate = map lower_entry,
      LowerCaseString = map ascii_lower\<rparr>"

lemma filter_lower_entry:
  "map lower_entry (filter (\<lambda>e. fst (lower_entry e) \<noteq> k) h) =
     filter (\<lambda>(k', _). k' \<noteq> k) (map lower_entry h)"
  by (induction h) auto

lemma ascii_lower_forwarded_proto: "map ascii_lower ''x-forwarded-proto'' = ''x-forwarded-proto''"
  by (simp add: ascii_lower_def)

lemma lower_forwarded_proto: "lower_entry (''x-forwarded-proto'', v) = (''x-forwarded-proto'', v)"
  by (simp add: lower_entry_def ascii_lower_def)

lemma lower_entry_idem: "lower_entry e = (k, v) \<Longrightarrow> map ascii_lower k = k"
  by (auto simp: lower_entry_def)

lemma mset_filter_lower_entry:
  "mset (map lower_entry (filter (\<lambda>e. fst (lower_entry e) \<noteq> k) h)) =
     filter_mset (\<lambda>(k', _). k' \<noteq> k) (mset (map lower_entry h))"
  unfolding filter_lower_entry by (simp add: mset_filter)

lemma list_header_map_laws: "header_map_laws list_header_map"
  unfolding header_map_laws_def list_header_map_def
  by (simp add: mset_filter_lower_entry lower_forwarded_proto lower_entry_def [of "(_, _)"]
      del: mset_map mset_filter lower_entry_simps) (auto simp: ascii_lower_forwarded_proto [simplified] dest: lower_entry_idem)

definition list_buffer :: "byte list buffer_api" where
  "list_buffer =
     \<lparr>buf_create = [],
      buf_length = length,
      buf_copyOut = (\<lambda>b s n. take n (drop s b)),
      buf_drain = (\<lambda>b n. drop n b),
      buf_move = (\<lambda>d s. (d @ s, [])),
      buf_addBufferFragment = (\<lambda>b bs. b @ bs)\<rparr>"

lemma list_buffer_laws: "buffer_laws list_buffer"
  by (simp add: buffer_laws_def list_buffer_def buffer_view_def)

section \<open>The Envoy environment of the HTTP dispatcher\<close>

text \<open>
  The functions and constants of Envoy that \<open>dispatcher.cc\<close> uses besides the two containers:
  \<open>Http::Utility::getResponseStatus\<close> (which throws on a missing or malformed status),
  \<open>CodeUtility::is2xx\<close>, the accessor of the attempt-count header, \<open>absl::SimpleAtoi\<close> into a
  \<open>uint32_t\<close>, two constants of \<open>Http::Headers\<close>, \<open>Event::Dispatcher::isThreadSafe\<close>, and whether the
  build compiles \<open>ASSERT\<close> in.
\<close>

record ('h, 'b) envoy =
  headers_api :: "'h header_map_api"
  buffers_api :: "'b buffer_api"
  getResponseStatus :: "'h \<Rightarrow> abort + nat"
  is2xx :: "nat \<Rightarrow> bool"
  EnvoyAttemptCount :: "'h \<Rightarrow> string option"
  SimpleAtoi :: "string \<Rightarrow> 32 word option"
  EnvoyUpstreamServiceTime :: string
  SchemeValues_Https :: string
  isThreadSafe :: bool
  asserts_enabled :: bool

text \<open>What the dispatcher relies on: the two containers behave as documented and the callbacks run
  on the event loop's thread.\<close>

definition envoy_laws :: "('h, 'b, 'z) envoy_scheme \<Rightarrow> bool" where
  "envoy_laws E \<longleftrightarrow> header_map_laws (headers_api E) \<and> buffer_laws (buffers_api E) \<and> isThreadSafe E"

lemma envoy_lawsD:
  assumes "envoy_laws E"
  shows "header_map_laws (headers_api E)" "buffer_laws (buffers_api E)" "isThreadSafe E"
  using assms by (simp_all add: envoy_laws_def)

text \<open>A reference instance for the witnesses: decimal digits for status and attempt count.\<close>

fun digit_of :: "char \<Rightarrow> nat option" where
  "digit_of c = (let n = (of_char c :: nat) in if 48 \<le> n \<and> n \<le> 57 then Some (n - 48) else None)"

fun parse_decimal :: "nat \<Rightarrow> string \<Rightarrow> nat option" where
  "parse_decimal acc [] = Some acc"
| "parse_decimal acc (c # cs) =
     (case digit_of c of None \<Rightarrow> None | Some d \<Rightarrow> parse_decimal (10 * acc + d) cs)"

definition list_envoy :: "bool \<Rightarrow> (list_headers, byte list) envoy" where
  "list_envoy dbg =
     \<lparr>headers_api = list_header_map, buffers_api = list_buffer,
      getResponseStatus = (\<lambda>h. case hm_get list_header_map h '':status'' of
          [v] \<Rightarrow> (case parse_decimal 0 v of Some n \<Rightarrow> Inr n
                 | None \<Rightarrow> Inl (UncaughtException ''CodecClientException''))
        | _ \<Rightarrow> Inl (UncaughtException ''CodecClientException'')),
      is2xx = (\<lambda>n. 200 \<le> n \<and> n < 300),
      EnvoyAttemptCount = (\<lambda>h. case hm_get list_header_map h ''x-envoy-attempt-count'' of
          v # _ \<Rightarrow> Some v | [] \<Rightarrow> None),
      SimpleAtoi = (\<lambda>v. case parse_decimal 0 v of
          Some n \<Rightarrow> if v \<noteq> [] \<and> n < 2 ^ 32 then Some (word_of_nat n) else None | None \<Rightarrow> None),
      EnvoyUpstreamServiceTime = ''x-envoy-upstream-service-time'',
      SchemeValues_Https = ''https'',
      isThreadSafe = True, asserts_enabled = dbg\<rparr>"

lemma list_envoy_laws: "envoy_laws (list_envoy dbg)"
  by (simp add: envoy_laws_def list_envoy_def list_header_map_laws list_buffer_laws)

end
