(* ===== verification/HeaderUtility.thy ===== *)
theory HeaderUtility
  imports CTypes EnvoyLib
begin

text \<open>
  \<open>src/library/common/http/header_utility.cc\<close>: the conversions between the C headers of the
  bridge and Envoy's header maps. The header map is a parameter (\<open>header_map_api\<close>).

  The lemmas give what each conversion does with the contents and with the memory of its argument,
  and that converting a header map to bridge headers and back gives the same entries and returns all
  the memory.
\<close>

section \<open>Operations\<close>

definition convertToString :: "memory \<Rightarrow> envoy_data \<Rightarrow> abort + string" where
  "convertToString m s = bindE (data_view m s) (\<lambda>bs. Inr (string_of_bytes bs))"

text \<open>The loop of \<open>toRequestHeaders\<close>, \<open>toRequestTrailers\<close> and \<open>PlatformBridgeFilter::replaceHeaders\<close>.\<close>

fun addCopy_loop ::
  "('h, 'z) header_map_api_scheme \<Rightarrow> memory \<Rightarrow> ptr \<Rightarrow> nat \<Rightarrow> nat \<Rightarrow> 'h \<Rightarrow> abort + 'h" where
  "addCopy_loop H m p i 0 hm = Inr hm"
| "addCopy_loop H m p i (Suc k) hm =
     bindE (load_header m p i) (\<lambda>header.
     bindE (convertToString m (eh_key header)) (\<lambda>key.
     bindE (convertToString m (eh_value header)) (\<lambda>val.
     addCopy_loop H m p (Suc i) k (hm_addCopy H hm (LowerCaseString H key) val))))"

definition toRequestHeaders ::
  "('h, 'z) header_map_api_scheme \<Rightarrow> memory \<Rightarrow> envoy_headers \<Rightarrow> abort + 'h \<times> memory" where
  "toRequestHeaders H m headers =
     bindE (addCopy_loop H m (hs_headers headers) 0 (nat (hs_length headers)) (hm_create H))
       (\<lambda>transformed_headers.
     bindE (release_envoy_headers m headers) (\<lambda>m'. Inr (transformed_headers, m')))"

definition toRequestTrailers ::
  "('h, 'z) header_map_api_scheme \<Rightarrow> memory \<Rightarrow> envoy_headers \<Rightarrow> abort + 'h \<times> memory" where
  "toRequestTrailers H m trailers =
     bindE (addCopy_loop H m (hs_headers trailers) 0 (nat (hs_length trailers)) (hm_create H))
       (\<lambda>transformed_trailers.
     bindE (release_envoy_headers m trailers) (\<lambda>m'. Inr (transformed_trailers, m')))"

text \<open>The body that \<open>toBridgeHeaders\<close> passes to \<open>iterate\<close>, run on each entry; \<open>i\<close> is
  \<open>transformed_headers.length\<close>.\<close>

fun toBridgeHeaders_iterate ::
  "memory \<Rightarrow> ptr \<Rightarrow> nat \<Rightarrow> (string \<times> string) list \<Rightarrow> abort + nat \<times> memory" where
  "toBridgeHeaders_iterate m p i [] = Inr (i, m)"
| "toBridgeHeaders_iterate m p i ((header_key, header_value) # rest) =
     bindE (copy_envoy_data m (length header_key) (AtView (bytes_of_string header_key))) (\<lambda>(key, m1).
     bindE (copy_envoy_data m1 (length header_value) (AtView (bytes_of_string header_value)))
       (\<lambda>(val, m2).
     bindE (store_header m2 p i \<lparr>eh_key = key, eh_value = val\<rparr>) (\<lambda>m3.
     toBridgeHeaders_iterate m3 p (Suc i) rest)))"

definition toBridgeHeaders ::
  "('h, 'z) header_map_api_scheme \<Rightarrow> memory \<Rightarrow> 'h \<Rightarrow> abort + envoy_headers \<times> memory" where
  "toBridgeHeaders H m header_map =
     bindE (safe_malloc m ((sizeof_envoy_header * hm_size H header_map) mod 2 ^ 64)) (\<lambda>(headers, m1).
     bindE (toBridgeHeaders_iterate m1 headers 0 (hm_iterate H header_map)) (\<lambda>(len, m2).
     Inr (\<lparr>hs_length = int len, hs_headers = headers\<rparr>, m2)))"

section \<open>From the bridge to a header map\<close>

definition strings_of_pairs :: "(byte list \<times> byte list) list \<Rightarrow> (string \<times> string) list" where
  "strings_of_pairs kvs = map (\<lambda>(k, v). (string_of_bytes k, string_of_bytes v)) kvs"

definition pairs_of_strings :: "(string \<times> string) list \<Rightarrow> (byte list \<times> byte list) list" where
  "pairs_of_strings kvs = map (\<lambda>(k, v). (bytes_of_string k, bytes_of_string v)) kvs"

lemma strings_of_pairs_simps [simp]:
  "strings_of_pairs [] = []"
  "strings_of_pairs ((k, v) # kvs) = (string_of_bytes k, string_of_bytes v) # strings_of_pairs kvs"
  by (simp_all add: strings_of_pairs_def)

lemma pairs_of_strings_simps [simp]:
  "pairs_of_strings [] = []"
  "pairs_of_strings ((k, v) # kvs) = (bytes_of_string k, bytes_of_string v) # pairs_of_strings kvs"
  "length (pairs_of_strings kvs) = length kvs"
  by (simp_all add: pairs_of_strings_def)

lemma strings_of_pairs_inverse [simp]: "strings_of_pairs (pairs_of_strings kvs) = kvs"
  by (induction kvs) auto

text \<open>What the loop does to the map, as a fold over the entries.\<close>

definition add_all ::
  "('h, 'z) header_map_api_scheme \<Rightarrow> (string \<times> string) list \<Rightarrow> 'h \<Rightarrow> 'h" where
  "add_all H kvs hm = fold (\<lambda>(k, v) h. hm_addCopy H h (LowerCaseString H k) v) kvs hm"

lemma add_all_simps [simp]:
  "add_all H [] hm = hm"
  "add_all H ((k, v) # kvs) hm = add_all H kvs (hm_addCopy H hm (LowerCaseString H k) v)"
  by (simp_all add: add_all_def)

lemma addCopy_loop_view:
  "headers_view_loop m p i k = Inr kvs \<Longrightarrow>
     addCopy_loop H m p i k hm = Inr (add_all H (strings_of_pairs kvs) hm)"
  by (induction k arbitrary: i kvs hm) (auto simp: convertToString_def)

lemma addCopy_loop_owned:
  "owned_headers m hs kvs fp \<Longrightarrow>
     addCopy_loop H m (hs_headers hs) 0 (nat (hs_length hs)) hm =
       Inr (add_all H (strings_of_pairs kvs) hm)"
  by (rule addCopy_loop_view) (auto dest: owned_headers_view simp: headers_view_def)

lemma add_all_iterate:
  assumes laws: "header_map_laws H" and d: "distinct (map (LowerCaseString H \<circ> fst) kvs)"
    and disj: "(LowerCaseString H \<circ> fst) ` set kvs \<inter> hm_keys H hm = {}"
  shows "mset (hm_iterate H (add_all H kvs hm)) =
    mset (hm_iterate H hm) + mset (map (\<lambda>(k, v). (LowerCaseString H k, v)) kvs)"
  using d disj
proof (induction kvs arbitrary: hm)
  case Nil
  then show ?case by simp
next
  case (Cons kv kvs)
  obtain k v where kv: "kv = (k, v)" by (cases kv)
  let ?k = "LowerCaseString H k"
  have low: "LowerCaseString H ?k = ?k" by (simp add: header_map_lawsD(10) [OF laws])
  have fresh: "?k \<notin> hm_keys H hm" using Cons.prems(2) kv by auto
  have keys: "set (hm_iterate H (hm_addCopy H hm ?k v)) = insert (?k, v) (set (hm_iterate H hm))"
    using set_iterate_addCopy [OF laws fresh low] .
  have "mset (hm_iterate H (add_all H kvs (hm_addCopy H hm ?k v))) =
      mset (hm_iterate H (hm_addCopy H hm ?k v)) + mset (map (\<lambda>(k, v). (LowerCaseString H k, v)) kvs)"
    using Cons.prems kv by (intro Cons.IH) (auto simp: keys)
  moreover have "mset (hm_iterate H (hm_addCopy H hm ?k v)) = add_mset (?k, v) (mset (hm_iterate H hm))"
    using header_map_lawsD(4) [OF laws _ low] fresh hm_get_Nil [OF laws] by simp
  ultimately show ?case by (simp add: kv)
qed

text \<open>The entries with their keys in lower case, as a header map that was empty holds them.\<close>

abbreviation lowered :: "(byte list \<times> byte list) list \<Rightarrow> (string \<times> string) list" where
  "lowered kvs \<equiv> map (\<lambda>(k, v). (map ascii_lower k, v)) (strings_of_pairs kvs)"

lemma add_all_empty:
  assumes "header_map_laws H" "hm_iterate H hm = []" "distinct (map fst (lowered kvs))"
  shows "mset (hm_iterate H (add_all H (strings_of_pairs kvs) hm)) = mset (lowered kvs)"
  using add_all_iterate [OF assms(1), of "strings_of_pairs kvs" hm] assms(2,3)
  by (simp add: header_map_lawsD(10) [OF assms(1)] comp_def split_beta)

lemma add_all_create:
  assumes "header_map_laws H" "distinct (map fst (lowered kvs))"
  shows "mset (hm_iterate H (add_all H (strings_of_pairs kvs) (hm_create H))) = mset (lowered kvs)"
  using add_all_empty [OF assms(1) header_map_lawsD(1) [OF assms(1)] assms(2)] .

text \<open>\<open>toRequestHeaders\<close> on headers it owns returns the map built by adding each header in order,
  and releases every block of the argument exactly once.\<close>

theorem toRequestHeaders_correct:
  assumes "owned_headers m hs kvs fp"
  shows "toRequestHeaders H m hs = Inr (add_all H (strings_of_pairs kvs) (hm_create H),
    drop_blocks m fp (pairs_size kvs +
      (if hs_headers hs = NULL then 0 else sizeof_envoy_header * length kvs)))"
  by (simp add: toRequestHeaders_def addCopy_loop_owned [OF assms] release_owned_headers [OF assms])

lemma sample_headers_owned: "owned_headers sample_memory sample_headers [([97], [98, 99])] {1, 2, 3}"
  by (auto simp: owned_headers_def sample_memory_def sample_headers_def holds_headers_def holds_def
      header_array_def header_ptrs_def data_ptrs_def sizeof_envoy_header_def
      intro!: exI [of _ "[\<lparr>eh_key = \<lparr>ed_length = 1, ed_bytes = 1, ed_release = free_release,
        ed_context = 1\<rparr>, eh_value = \<lparr>ed_length = 2, ed_bytes = 2, ed_release = free_release,
        ed_context = 2\<rparr>\<rparr>]"])

theorem toRequestHeaders_correct_witness:
  "toRequestHeaders list_header_map sample_memory sample_headers =
    Inr ([(''a'', ''bc'')], drop_blocks sample_memory {1, 2, 3} 67)"
  using toRequestHeaders_correct [OF sample_headers_owned, of list_header_map]
  by (simp add: sample_headers_def sizeof_envoy_header_def list_header_map_def string_of_bytes_def
      char_of_byte_def ascii_lower_def char_of_eq_iff)

section \<open>From a header map to the bridge\<close>

lemma toBridgeHeaders_iterate_place:
  "wf_memory m \<Longrightarrow> blocks m p = Some b \<Longrightarrow> header_array b n hs \<Longrightarrow> i = length hs \<Longrightarrow>
   length hs + length kvs = n \<Longrightarrow>
   toBridgeHeaders_iterate m p i kvs =
     bindE (place_pairs m p i (pairs_of_strings kvs)) (\<lambda>m'. Inr (i + length kvs, m'))"
proof (induction kvs arbitrary: m b hs i)
  case Nil
  then show ?case by simp
next
  case (Cons kv kvs)
  obtain k v where kv: "kv = (k, v)" by (cases kv)
  have ck: "copy_envoy_data m' (length s) (AtView (bytes_of_string s)) = place m' (bytes_of_string s)"
    if "wf_memory m'" for m' s
    using copy_envoy_data_place [OF that, of "AtView (bytes_of_string s)" "length s"] by simp
  show ?case
  proof (cases "\<exists>kd m1 vd m2. place m (bytes_of_string k) = Inr (kd, m1) \<and>
      place m1 (bytes_of_string v) = Inr (vd, m2)")
    case True
    then obtain kd m1 vd m2 where pl: "place m (bytes_of_string k) = Inr (kd, m1)"
      "place m1 (bytes_of_string v) = Inr (vd, m2)"
      by blast
    have wf1: "wf_memory m1" using place_spec [OF Cons.prems(1) pl(1)] by blast
    have "length hs < n" using Cons.prems(5) by simp
    from place_pair_store [OF Cons.prems(1-3) this pl] obtain b3 where
      st: "store_header m2 p i \<lparr>eh_key = kd, eh_value = vd\<rparr> = Inr (put_block m2 p b3)"
      and b3: "header_array b3 n (hs @ [\<lparr>eh_key = kd, eh_value = vd\<rparr>])"
      and wf3: "wf_memory (put_block m2 p b3)"
      using Cons.prems(4) by auto
    have "toBridgeHeaders_iterate (put_block m2 p b3) p (Suc i) kvs =
        bindE (place_pairs (put_block m2 p b3) p (Suc i) (pairs_of_strings kvs))
          (\<lambda>m'. Inr (Suc i + length kvs, m'))"
      by (rule Cons.IH [OF wf3 _ b3]) (use Cons.prems(4,5) in \<open>simp_all add: put_block_def\<close>)
    with kv pl st ck [OF Cons.prems(1)] ck [OF wf1] show ?thesis by simp
  next
    case False
    with kv ck [OF Cons.prems(1)] ck place_spec [OF Cons.prems(1)] show ?thesis
      by (cases "place m (bytes_of_string k)"; cases "place (snd (projr (place m (bytes_of_string k)))) (bytes_of_string v)")
         (auto simp: bindE_def)
  qed
qed

lemma toBridgeHeaders_place:
  assumes wf: "wf_memory m" and laws: "header_map_laws H" and sz: "length (hm_iterate H hm) < 2 ^ 31"
  shows "toBridgeHeaders H m hm =
    bindE (safe_malloc m (sizeof_envoy_header * length (pairs_of_strings (hm_iterate H hm)))) (\<lambda>(p, m1).
    bindE (place_pairs m1 p 0 (pairs_of_strings (hm_iterate H hm))) (\<lambda>m2.
    Inr (\<lparr>hs_length = int (length (pairs_of_strings (hm_iterate H hm))), hs_headers = p\<rparr>, m2)))"
proof -
  let ?kvs = "hm_iterate H hm"
  have size: "(sizeof_envoy_header * hm_size H hm) mod 2 ^ 64 = sizeof_envoy_header * length ?kvs"
    using sz by (simp add: header_map_lawsD(2) [OF laws] sizeof_envoy_header_def)
  have loop: "toBridgeHeaders_iterate m1 p 0 ?kvs =
      bindE (place_pairs m1 p 0 (pairs_of_strings ?kvs)) (\<lambda>m'. Inr (length ?kvs, m'))"
    if ml: "safe_malloc m (sizeof_envoy_header * length ?kvs) = Inr (p, m1)" for p m1
  proof (cases "?kvs = []")
    case True
    then show ?thesis by simp
  next
    case False
    with ml have "blocks m1 p = Some (ByteBlock (replicate (sizeof_envoy_header * length ?kvs) None))"
      by (auto simp: safe_malloc_eq sizeof_envoy_header_def split: if_splits)
    from toBridgeHeaders_iterate_place [OF wf_safe_malloc [OF wf ml] this header_array_fresh, of 0 ?kvs]
    show ?thesis by simp
  qed
  show ?thesis
    unfolding toBridgeHeaders_def size pairs_of_strings_simps
    by (rule bindE_cong) (use loop in \<open>auto simp: bindE_assoc\<close>)
qed

interpretation bridgeh: headers_copier
  "\<lambda>m (H, hm) kvs. header_map_laws H \<and> length (hm_iterate H hm) < 2 ^ 31 \<and>
     kvs = pairs_of_strings (hm_iterate H hm)"
  "\<lambda>m (H, hm). toBridgeHeaders H m hm"
  by unfold_locales (auto simp: toBridgeHeaders_place)

text \<open>\<open>toBridgeHeaders\<close> gives the platform a struct that holds exactly the entries of the header
  map, in iteration order, in fresh memory; it can only fail for lack of memory.\<close>

theorem toBridgeHeaders_correct:
  assumes "wf_memory m" "header_map_laws H" "length (hm_iterate H hm) < 2 ^ 31"
  shows "case toBridgeHeaders H m hm of
      Inr (hs, m') \<Rightarrow> allocates m hs (pairs_of_strings (hm_iterate H hm)) m'
    | Inl a \<Rightarrow> a = ReleaseAssertFailure ''malloc failure'' \<and>
        avail m < sizeof_envoy_header * length (hm_iterate H hm) +
          pairs_size (pairs_of_strings (hm_iterate H hm))"
proof (cases "toBridgeHeaders H m hm")
  case (Inl a)
  then show ?thesis
    using bridgeh.conv_fails [OF assms(1), of "(H, hm)"] bridgeh.conv_succeeds [OF assms(1), of "(H, hm)"]
      assms(2,3) by (force simp: not_le [symmetric])
next
  case (Inr r)
  then show ?thesis
    using bridgeh.conv_allocates [OF assms(1), of "(H, hm)"] assms(2,3) by (cases r) auto
qed

theorem toBridgeHeaders_correct_witness:
  "\<exists>hs m'. toBridgeHeaders list_header_map sample_memory [(''a'', ''bc'')] = Inr (hs, m') \<and>
     headers_view m' hs = Inr [([97], [98, 99])]"
proof -
  have len: "length (hm_iterate list_header_map [(''a'', ''bc'')]) < 2 ^ 31"
    by (simp add: list_header_map_def)
  have kvs: "pairs_of_strings (hm_iterate list_header_map [(''a'', ''bc'')]) = [([97], [98, 99])]"
    by (simp add: list_header_map_def bytes_of_string_def byte_of_char_def ascii_lower_def)
  note c = toBridgeHeaders_correct [OF wf_sample_memory list_header_map_laws len, unfolded kvs]
  show ?thesis
  proof (cases "toBridgeHeaders list_header_map sample_memory [(''a'', ''bc'')]")
    case (Inl a)
    with c show ?thesis
      by (simp add: sample_memory_def list_header_map_def sizeof_envoy_header_def)
  next
    case (Inr r)
    with c show ?thesis by (cases r) (auto dest: allocates_view)
  qed
qed

lemma pairs_of_strings_view [simp]:
  "distinct (map fst (hm_iterate H hm)) \<Longrightarrow> header_map_laws H \<Longrightarrow>
     map (\<lambda>(k, v). (LowerCaseString H k, v)) (hm_iterate H hm) = hm_iterate H hm \<and>
     map (LowerCaseString H \<circ> fst) (hm_iterate H hm) = map fst (hm_iterate H hm)"
  by (auto simp: header_map_lawsD(9) intro!: map_idI)

text \<open>C40. Round trip: converting a header map with distinct keys to bridge headers and back gives a
  map with the same entries, and leaves the heap as it was.\<close>

theorem headers_roundtrip:
  assumes wf: "wf_memory m" and laws: "header_map_laws H" and sz: "length (hm_iterate H hm) < 2 ^ 31"
    and d: "distinct (map fst (hm_iterate H hm))"
    and conv: "toBridgeHeaders H m hm = Inr (hs, m1)"
  shows "\<exists>hm' m2. toRequestHeaders H m1 hs = Inr (hm', m2) \<and>
    mset (hm_iterate H hm') = mset (hm_iterate H hm) \<and> blocks m2 = blocks m \<and> avail m2 = avail m"
proof -
  let ?kvs = "hm_iterate H hm"
  have al: "allocates m hs (pairs_of_strings ?kvs) m1"
    using bridgeh.conv_allocates [OF wf, of "(H, hm)"] laws sz conv by simp
  then obtain fp where own: "owned_headers m1 hs (pairs_of_strings ?kvs) fp"
    by (auto simp: allocates_def)
  have low: "map (\<lambda>(k, v). (LowerCaseString H k, v)) ?kvs = ?kvs"
    "map (LowerCaseString H \<circ> fst) ?kvs = map fst ?kvs"
    using pairs_of_strings_view [OF d laws] by blast+
  have "mset (hm_iterate H (add_all H ?kvs (hm_create H))) = mset ?kvs"
    using add_all_iterate [OF laws, of ?kvs "hm_create H"] d low
    by (simp add: header_map_lawsD(1) [OF laws])
  moreover obtain m2 where "release_envoy_headers m1 hs = Inr m2" "blocks m2 = blocks m" "avail m2 = avail m"
    using allocates_release [OF al] by blast
  ultimately show ?thesis
    using addCopy_loop_owned [OF own, of H "hm_create H"] by (simp add: toRequestHeaders_def)
qed

theorem headers_roundtrip_witness:
  "\<exists>hs m1 hm' m2. toBridgeHeaders list_header_map sample_memory [(''a'', ''bc'')] = Inr (hs, m1) \<and>
    toRequestHeaders list_header_map m1 hs = Inr (hm', m2) \<and>
    mset (hm_iterate list_header_map hm') = {#(''a'', ''bc'')#} \<and> blocks m2 = blocks sample_memory"
proof -
  have it: "hm_iterate list_header_map [(''a'', ''bc'')] = [(''a'', ''bc'')]"
    by (simp add: list_header_map_def ascii_lower_def)
  obtain hs m1 where c: "toBridgeHeaders list_header_map sample_memory [(''a'', ''bc'')] = Inr (hs, m1)"
    using bridgeh.conv_succeeds [OF wf_sample_memory, of "(list_header_map, [(''a'', ''bc'')])"]
      list_header_map_laws by (auto simp: it sample_memory_def sizeof_envoy_header_def)
  from headers_roundtrip [OF wf_sample_memory list_header_map_laws _ _ c]
  show ?thesis using c by (auto simp: it)
qed

end
