(* ===== verification/BufferUtility.thy ===== *)
theory BufferUtility
  imports CTypes EnvoyLib
begin

text \<open>
  \<open>src/library/common/buffer/utility.cc\<close> and \<open>bridge_fragment.h\<close>: moving bytes between
  \<open>envoy_data\<close> and Envoy's buffers. The buffer is a parameter (\<open>buffer_api\<close>). A \<open>BridgeFragment\<close> keeps
  the \<open>envoy_data\<close> it wraps until the buffer that holds it calls \<open>done\<close>.

  The operations that build a fresh \<open>envoy_data\<close> share the interface \<open>data_copier\<close>, whose lemmas
  give contents, ownership and release once.
\<close>

section \<open>\<open>BridgeFragment\<close>\<close>

record BridgeFragment =
  bf_data :: envoy_data

definition createBridgeFragment :: "envoy_data \<Rightarrow> BridgeFragment" where
  "createBridgeFragment d = \<lparr>bf_data = d\<rparr>"

definition fragment_data :: "BridgeFragment \<Rightarrow> ptr" where
  "fragment_data f = ed_bytes (bf_data f)"

definition fragment_size :: "BridgeFragment \<Rightarrow> size_t" where
  "fragment_size f = ed_length (bf_data f)"

definition fragment_done :: "memory \<Rightarrow> BridgeFragment \<Rightarrow> abort + memory" where
  "fragment_done m f = call_release m (ed_release (bf_data f)) (ed_context (bf_data f))"

text \<open>\<open>buf->addBufferFragment(*fragment)\<close>: the buffer reads the fragment's bytes.\<close>

definition addFragment ::
  "('b, 'z) buffer_api_scheme \<Rightarrow> memory \<Rightarrow> 'b \<Rightarrow> BridgeFragment \<Rightarrow> abort + 'b" where
  "addFragment B m b f =
     bindE (load_bytes m (fragment_data f) (fragment_size f)) (\<lambda>bs. Inr (buf_addBufferFragment B b bs))"

section \<open>\<open>Buffer::Utility\<close>\<close>

definition toInternalData ::
  "('b, 'z) buffer_api_scheme \<Rightarrow> memory \<Rightarrow> envoy_data \<Rightarrow> abort + 'b \<times> BridgeFragment" where
  "toInternalData B m d =
     (let fragment = createBridgeFragment d
      in bindE (addFragment B m (buf_create B) fragment) (\<lambda>buf. Inr (buf, fragment)))"

definition toBridgeData ::
  "('b, 'z) buffer_api_scheme \<Rightarrow> memory \<Rightarrow> 'b \<Rightarrow> abort + envoy_data \<times> 'b \<times> memory" where
  "toBridgeData B m b =
     (let len = buf_length B b
      in bindE (safe_malloc m len) (\<lambda>(p, m1).
         bindE (store_bytes m1 p (buf_copyOut B b 0 len)) (\<lambda>m2.
         Inr (\<lparr>ed_length = len, ed_bytes = p, ed_release = free_release, ed_context = p\<rparr>,
              buf_drain B b len, m2))))"

definition copyToBridgeData ::
  "('b, 'z) buffer_api_scheme \<Rightarrow> memory \<Rightarrow> 'b \<Rightarrow> abort + envoy_data \<times> memory" where
  "copyToBridgeData B m b =
     (let len = buf_length B b
      in bindE (safe_malloc m len) (\<lambda>(p, m1).
         bindE (store_bytes m1 p (buf_copyOut B b 0 len)) (\<lambda>m2.
         Inr (\<lparr>ed_length = len, ed_bytes = p, ed_release = free_release, ed_context = p\<rparr>, m2))))"

section \<open>The interface of the operations that build an \<open>envoy_data\<close>\<close>

text \<open>\<open>allocates_data m d bs m'\<close>: \<open>m'\<close> is \<open>m\<close> with a fresh block added that \<open>d\<close> owns and that
  holds \<open>bs\<close>.\<close>

definition allocates_data :: "memory \<Rightarrow> envoy_data \<Rightarrow> byte list \<Rightarrow> memory \<Rightarrow> bool" where
  "allocates_data m d bs m' \<longleftrightarrow> wf_memory m' \<and> holds m' d bs \<and>
     set (data_ptrs d) \<inter> dom (blocks m) = {} \<and>
     (\<forall>q. q \<notin> set (data_ptrs d) \<longrightarrow> blocks m' q = blocks m q) \<and>
     avail m = avail m' + length bs \<and> release_log m' = release_log m"

lemma place_allocates_data:
  assumes "wf_memory m" "place m bs = Inr (d, m')"
  shows "allocates_data m d bs m'"
proof -
  have "q < next_ptr m" if "q \<in> dom (blocks m)" for q
    using that assms(1) unfolding wf_memory_def by blast
  then have "set (data_ptrs d) \<inter> dom (blocks m) = {}"
    using place_spec [OF assms] by force
  with place_spec [OF assms] show ?thesis by (simp add: allocates_data_def)
qed

lemma allocates_data_view: "allocates_data m d bs m' \<Longrightarrow> data_view m' d = Inr bs"
  by (simp add: allocates_data_def holds_view)

lemma allocates_data_release:
  assumes "allocates_data m d bs m'"
  shows "\<exists>m''. release_envoy_data m' d = Inr m'' \<and> blocks m'' = blocks m \<and> avail m'' = avail m \<and>
    release_log m'' = release_log m"
proof -
  have "blocks m q = None" if "q \<in> set (data_ptrs d)" for q
    using assms that unfolding allocates_data_def by blast
  then have "blocks (drop_blocks m' (set (data_ptrs d)) n) = blocks m" for n
    using assms by (auto simp: allocates_data_def fun_eq_iff)
  with release_envoy_data_holds [of m' d bs] assms show ?thesis by (simp add: allocates_data_def)
qed

locale data_copier =
  fixes pre :: "'x \<Rightarrow> byte list \<Rightarrow> bool"
    and conv :: "memory \<Rightarrow> 'x \<Rightarrow> abort + envoy_data \<times> memory"
  assumes conv_place: "wf_memory m \<Longrightarrow> pre x bs \<Longrightarrow> conv m x = place m bs"
begin

lemma conv_allocates:
  "wf_memory m \<Longrightarrow> pre x bs \<Longrightarrow> conv m x = Inr (d, m') \<Longrightarrow> allocates_data m d bs m'"
  by (simp add: conv_place place_allocates_data)

lemma conv_succeeds:
  "wf_memory m \<Longrightarrow> pre x bs \<Longrightarrow> length bs \<le> avail m \<Longrightarrow>
     \<exists>d m'. conv m x = Inr (d, m') \<and> allocates_data m d bs m'"
  using place_succeeds place_allocates_data by (fastforce simp: conv_place)

lemma conv_fails:
  "wf_memory m \<Longrightarrow> pre x bs \<Longrightarrow> conv m x = Inl a \<Longrightarrow> a = ReleaseAssertFailure ''malloc failure''"
  using place_fails by (simp add: conv_place)

lemma conv_roundtrip:
  "wf_memory m \<Longrightarrow> pre x bs \<Longrightarrow> conv m x = Inr (d, m') \<Longrightarrow>
     data_view m' d = Inr bs \<and>
     (\<exists>m''. release_envoy_data m' d = Inr m'' \<and> blocks m'' = blocks m \<and> avail m'' = avail m)"
  using conv_allocates allocates_data_view allocates_data_release by blast

end

interpretation copyd: data_copier "\<lambda>src bs. src = AtView bs" "\<lambda>m src.
  case src of AtView bs \<Rightarrow> copy_envoy_data m (length bs) src | AtPtr p \<Rightarrow> Inl InvalidAccess"
  by unfold_locales (simp add: copy_envoy_data_place)

lemma fill_block_place:
  assumes "wf_memory m" "n = length bs"
  shows "bindE (safe_malloc m n) (\<lambda>(p, m1). bindE (store_bytes m1 p bs) (\<lambda>m2.
      Inr (\<lparr>ed_length = n, ed_bytes = p, ed_release = free_release, ed_context = p\<rparr>, m2))) = place m bs"
  using copy_envoy_data_place [OF assms(1), of "AtView bs" n bs] assms(2)
  by (simp add: copy_envoy_data_def)

lemma copyToBridgeData_place:
  "wf_memory m \<Longrightarrow> buffer_laws B \<Longrightarrow> copyToBridgeData B m b = place m (buffer_view B b)"
  using fill_block_place [of m "buf_length B b" "buffer_view B b"]
  by (simp add: copyToBridgeData_def buffer_lawsD(1) Let_def) (simp add: buffer_view_def)

lemma toBridgeData_place:
  "wf_memory m \<Longrightarrow> buffer_laws B \<Longrightarrow>
     toBridgeData B m b = bindE (place m (buffer_view B b)) (\<lambda>(d, m'). Inr (d, buf_drain B b (buf_length B b), m'))"
  by (subst copyToBridgeData_place [symmetric])
     (auto simp: toBridgeData_def copyToBridgeData_def Let_def bindE_assoc intro!: bindE_cong split: prod.splits)

interpretation copyb: data_copier "\<lambda>(B, b) bs. buffer_laws B \<and> bs = buffer_view B b"
  "\<lambda>m (B, b). copyToBridgeData B m b"
  by unfold_locales (auto simp: copyToBridgeData_place)

interpretation bridged: data_copier "\<lambda>(B, b) bs. buffer_laws B \<and> bs = buffer_view B b"
  "\<lambda>m (B, b). bindE (toBridgeData B m b) (\<lambda>(d, b', m'). Inr (d, m'))"
  by unfold_locales (auto simp: toBridgeData_place bindE_def split: sum.splits)

text \<open>\<open>toBridgeData\<close> empties the buffer into a fresh \<open>envoy_data\<close> with the same bytes, which the
  platform can release; \<open>copyToBridgeData\<close> does the same and leaves the buffer as it is. With memory
  for the bytes, both succeed.\<close>

theorem bridge_data_correct:
  assumes wf: "wf_memory m" and laws: "buffer_laws B" and av: "length (buffer_view B b) \<le> avail m"
  shows "\<exists>d b' m'. toBridgeData B m b = Inr (d, b', m') \<and> copyToBridgeData B m b = Inr (d, m') \<and>
    data_view m' d = Inr (buffer_view B b) \<and> buffer_view B b' = [] \<and>
    (\<exists>m''. release_envoy_data m' d = Inr m'' \<and> blocks m'' = blocks m \<and> avail m'' = avail m)"
proof -
  obtain d m' where c: "copyToBridgeData B m b = Inr (d, m')"
    using copyb.conv_succeeds [OF wf, of "(B, b)"] laws av by auto
  then have "toBridgeData B m b = Inr (d, buf_drain B b (buf_length B b), m')"
    by (simp add: toBridgeData_place [OF wf laws] copyToBridgeData_place [OF wf laws])
  moreover have "buffer_view B (buf_drain B b (buf_length B b)) = []"
    by (simp add: buffer_lawsD(3) [OF laws] buffer_lawsD(1) [OF laws])
  ultimately show ?thesis
    using c copyb.conv_roundtrip [OF wf, of "(B, b)"] laws by auto
qed

theorem bridge_data_correct_witness:
  "\<exists>d b' m'. toBridgeData list_buffer sample_memory [1, 2, 3] = Inr (d, b', m') \<and>
    data_view m' d = Inr [1, 2, 3] \<and> b' = []"
  using bridge_data_correct [OF wf_sample_memory list_buffer_laws, of "[1, 2, 3]"]
  by (auto simp: buffer_view_def list_buffer_def sample_memory_def)

text \<open>Round trip through a fragment: the buffer made by \<open>toInternalData\<close> holds the bytes of the
  data it wraps, converting it back with \<open>toBridgeData\<close> gives those bytes again, and \<open>done\<close> on the
  fragment releases the original data exactly once.\<close>

theorem internal_data_roundtrip:
  assumes wf: "wf_memory m" and laws: "buffer_laws B" and own: "holds m d bs"
    and av: "length bs \<le> avail m"
  shows "\<exists>buf fragment d' buf' m' m''. toInternalData B m d = Inr (buf, fragment) \<and>
    buffer_view B buf = bs \<and> toBridgeData B m buf = Inr (d', buf', m') \<and> data_view m' d' = Inr bs \<and>
    fragment_done m fragment = Inr m'' \<and> m'' = drop_blocks m (set (data_ptrs d)) (length bs)"
proof -
  have "data_view m d = Inr bs" using own by (rule holds_view)
  then have int: "toInternalData B m d = Inr (buf_addBufferFragment B (buf_create B) bs, createBridgeFragment d)"
    by (simp add: toInternalData_def addFragment_def data_view_def createBridgeFragment_def
        fragment_data_def fragment_size_def)
  have view: "buffer_view B (buf_addBufferFragment B (buf_create B) bs) = bs"
    by (simp add: buffer_lawsD(2,6) [OF laws])
  have "fragment_done m (createBridgeFragment d) = Inr (drop_blocks m (set (data_ptrs d)) (length bs))"
    using release_envoy_data_holds [OF own]
    by (simp add: fragment_done_def createBridgeFragment_def release_envoy_data_def)
  moreover obtain d' buf' m' where
    "toBridgeData B m (buf_addBufferFragment B (buf_create B) bs) = Inr (d', buf', m')" "data_view m' d' = Inr bs"
    using bridged.conv_succeeds [OF wf, of "(B, buf_addBufferFragment B (buf_create B) bs)"] laws view av
    by (auto dest: allocates_data_view)
  ultimately show ?thesis using int view by blast
qed

theorem internal_data_roundtrip_witness:
  "\<exists>buf fragment m''. toInternalData list_buffer sample_memory
      \<lparr>ed_length = 1, ed_bytes = 1, ed_release = free_release, ed_context = 1\<rparr> = Inr (buf, fragment) \<and>
    buffer_view list_buffer buf = [97] \<and> fragment_done sample_memory fragment = Inr m'' \<and>
    m'' = drop_blocks sample_memory {1} 1"
proof -
  have "holds sample_memory \<lparr>ed_length = 1, ed_bytes = 1, ed_release = free_release, ed_context = 1\<rparr> [97]"
    by (simp add: holds_def sample_memory_def)
  from internal_data_roundtrip [OF wf_sample_memory list_buffer_laws this]
  show ?thesis by (auto simp: data_ptrs_def sample_memory_def)
qed

end
