(* ===== verification/Dispatcher.thy ===== *)
theory Dispatcher
  imports HeaderUtility BufferUtility
begin

text \<open>
  \<open>Http::Dispatcher\<close> (\<open>src/library/common/http/dispatcher.h\<close>, \<open>dispatcher.cc\<close>): the streams of the
  application, from the platform's calls to Envoy's connection manager (HCM) and back.

  State. \<open>http_dispatcher\<close> holds the members of the class and the process state its methods touch: the
  \<open>DirectStream\<close> objects that are alive, the event loop's queue and deferred-deletion list, the C
  heap, the fragments that buffers hold, and the calls made to the platform and to Envoy, in order
  (\<open>trace\<close>). A \<open>DirectStream\<close> is an object with an identity, since the HCM keeps a reference to it
  while the map \<open>streams\<close> finds it by handle. A posted lambda is a value of \<open>post_cb\<close> with the
  variables it captures. Testing hooks and logging have no effect.

  Calls to the platform and to the HCM are events of the trace; what the other side does in response
  is a later step. In the source each such call is the last thing its function does to the dispatcher
  (or is followed only by accesses to the object itself), so no state change is missed.
\<close>

section \<open>State\<close>

type_synonym oid = nat

text \<open>The function pointers of \<open>envoy_http_callbacks\<close> belong to the platform: a number names the
  table.\<close>

record envoy_http_callbacks =
  cb_table :: nat
  cb_context :: ptr

datatype platform_call =
    on_headers envoy_headers bool
  | on_data envoy_data bool
  | on_trailers envoy_headers
  | on_error envoy_error
  | on_complete
  | on_cancel

datatype StreamResetReason = RemoteReset | OtherReset nat

datatype ('h, 'b) effect =
    PlatformCall oid envoy_http_callbacks platform_call
  | NewStream oid envoy_stream_t bool
  | DecodeHeaders oid 'h bool
  | DecodeData oid 'b bool
  | DecodeTrailers oid 'h
  | RunResetCallbacks oid StreamResetReason
  | DeferredDelete oid
  | DestroyStream oid

record DirectStreamCallbacks =
  bridge_callbacks :: envoy_http_callbacks
  error_code :: "envoy_error_code_t option"
  error_message :: "envoy_data option"
  error_attempt_count :: "32 word option"
  success :: bool

record DirectStream =
  stream_handle :: envoy_stream_t
  request_decoder :: "oid option"
  callbacks :: DirectStreamCallbacks
  response_details :: string

datatype post_cb =
    StartStreamCb envoy_stream_t envoy_http_callbacks
  | SendHeadersCb envoy_stream_t envoy_headers bool
  | SendDataCb envoy_stream_t envoy_data bool
  | SendTrailersCb envoy_stream_t envoy_headers
  | CancelStreamCb envoy_stream_t

record DispatcherStats =
  stream_success :: "64 word"
  stream_failure :: "64 word"
  stream_cancel :: "64 word"

record ('h, 'b) http_dispatcher =
  init_queue :: "post_cb list"
  event_dispatcher :: bool
  api_listener :: bool
  d_stats :: "DispatcherStats option"
  streams :: "envoy_stream_t \<Rightarrow> oid option"
  preferred_network :: envoy_network_t
  objects :: "oid \<Rightarrow> DirectStream option"
  next_oid :: oid
  posted :: "post_cb list"
  deferred :: "oid list"
  fragments :: "BridgeFragment list"
  mem :: memory
  trace :: "('h, 'b) effect list"

definition emit :: "('h, 'b) http_dispatcher \<Rightarrow> ('h, 'b) effect \<Rightarrow> ('h, 'b) http_dispatcher" where
  "emit s e = s\<lparr>trace := trace s @ [e]\<rparr>"

text \<open>Following the reference to a \<open>DirectStream\<close> that was destroyed is undefined behaviour.\<close>

definition with_stream ::
  "('h, 'b) http_dispatcher \<Rightarrow> oid \<Rightarrow> (DirectStream \<Rightarrow> abort + 'c) \<Rightarrow> abort + 'c" where
  "with_stream s i f = (case objects s i of None \<Rightarrow> Inl UseAfterFree | Some ds \<Rightarrow> f ds)"

definition update_callbacks ::
  "('h, 'b) http_dispatcher \<Rightarrow> oid \<Rightarrow> (DirectStreamCallbacks \<Rightarrow> DirectStreamCallbacks) \<Rightarrow>
   ('h, 'b) http_dispatcher" where
  "update_callbacks s i f =
     s\<lparr>objects := (objects s)(i := map_option (\<lambda>ds. ds\<lparr>callbacks := f (callbacks ds)\<rparr>) (objects s i))\<rparr>"

section \<open>The map of streams and the statistics\<close>

definition getStream :: "('h, 'b) http_dispatcher \<Rightarrow> envoy_stream_t \<Rightarrow> oid option" where
  "getStream s stream = streams s stream"

definition removeStream ::
  "('h, 'b) envoy \<Rightarrow> ('h, 'b) http_dispatcher \<Rightarrow> envoy_stream_t \<Rightarrow> abort + ('h, 'b) http_dispatcher" where
  "removeStream E s handle =
     (if \<not> event_dispatcher s then Inl NullDereference
      else bindE (RELEASE_ASSERT (isThreadSafe E)
        ''stream removeStream must be performed on the event_dispatcher_'s thread.'') (\<lambda>_.
      case getStream s handle of
        None \<Rightarrow> Inl (ReleaseAssertFailure
          ''removeStream is a private method that is only called with stream ids that exist'')
      | Some direct_stream \<Rightarrow>
          Inr (emit (s\<lparr>deferred := deferred s @ [direct_stream], streams := (streams s)(handle := None)\<rparr>)
            (DeferredDelete direct_stream))))"

definition stats :: "('h, 'b) envoy \<Rightarrow> ('h, 'b) http_dispatcher \<Rightarrow> abort + DispatcherStats" where
  "stats E s =
     bindE (ASSERT (asserts_enabled E) (d_stats s \<noteq> None) ''stats_.has_value()'') (\<lambda>_.
     case d_stats s of None \<Rightarrow> Inl (UncaughtException ''bad_optional_access'') | Some st \<Rightarrow> Inr st)"

definition update_stats ::
  "('h, 'b) envoy \<Rightarrow> ('h, 'b) http_dispatcher \<Rightarrow> (DispatcherStats \<Rightarrow> DispatcherStats) \<Rightarrow>
   abort + ('h, 'b) http_dispatcher" where
  "update_stats E s f = bindE (stats E s) (\<lambda>st. Inr (s\<lparr>d_stats := Some (f st)\<rparr>))"

section \<open>\<open>DirectStreamCallbacks\<close>: from Envoy to the platform\<close>

definition closeStream ::
  "('h, 'b) envoy \<Rightarrow> ('h, 'b) http_dispatcher \<Rightarrow> oid \<Rightarrow> abort + ('h, 'b) http_dispatcher" where
  "closeStream E s i = with_stream s i (\<lambda>ds. removeStream E s (stream_handle ds))"

definition onComplete ::
  "('h, 'b) envoy \<Rightarrow> ('h, 'b) http_dispatcher \<Rightarrow> oid \<Rightarrow> abort + ('h, 'b) http_dispatcher" where
  "onComplete E s i = with_stream s i (\<lambda>ds.
     bindE (if success (callbacks ds)
            then update_stats E s (\<lambda>st. st\<lparr>stream_success := stream_success st + 1\<rparr>)
            else update_stats E s (\<lambda>st. st\<lparr>stream_failure := stream_failure st + 1\<rparr>)) (\<lambda>s1.
     Inr (emit s1 (PlatformCall i (bridge_callbacks (callbacks ds)) on_complete))))"

definition onError ::
  "('h, 'b) envoy \<Rightarrow> ('h, 'b) http_dispatcher \<Rightarrow> oid \<Rightarrow> abort + ('h, 'b) http_dispatcher" where
  "onError E s i = with_stream s i (\<lambda>ds.
     bindE (ASSERT (asserts_enabled E) (getStream s (stream_handle ds) = None)
       ''!http_dispatcher_.getStream(direct_stream_.stream_handle_)'') (\<lambda>_.
     let cb = callbacks ds;
         code = (case error_code cb of Some c \<Rightarrow> c | None \<Rightarrow> ENVOY_STREAM_RESET);
         message = (case error_message cb of Some d \<Rightarrow> d | None \<Rightarrow> envoy_nodata);
         attempt_count = (case error_attempt_count cb of Some n \<Rightarrow> n | None \<Rightarrow> -1)
     in bindE (update_stats E s (\<lambda>st. st\<lparr>stream_failure := stream_failure st + 1\<rparr>)) (\<lambda>s1.
        Inr (emit s1 (PlatformCall i (bridge_callbacks cb)
          (on_error \<lparr>err_code = code, err_message = message, err_attempt_count = attempt_count\<rparr>))))))"

definition onCancel ::
  "('h, 'b) envoy \<Rightarrow> ('h, 'b) http_dispatcher \<Rightarrow> oid \<Rightarrow> abort + ('h, 'b) http_dispatcher" where
  "onCancel E s i = with_stream s i (\<lambda>ds.
     bindE (update_stats E s (\<lambda>st. st\<lparr>stream_cancel := stream_cancel st + 1\<rparr>)) (\<lambda>s1.
     Inr (emit s1 (PlatformCall i (bridge_callbacks (callbacks ds)) on_cancel))))"

text \<open>\<open>attempt_count\<close> is a \<open>uint32_t\<close> stored into an \<open>int32_t\<close>: the bits are kept.\<close>

definition mapLocalResponseToError ::
  "('h, 'b) envoy \<Rightarrow> ('h, 'b) http_dispatcher \<Rightarrow> oid \<Rightarrow> 'h \<Rightarrow> abort + ('h, 'b) http_dispatcher" where
  "mapLocalResponseToError E s i headers =
     bindE (getResponseStatus E headers) (\<lambda>status.
     let s1 = update_callbacks s i (\<lambda>cb. cb\<lparr>error_code :=
           Some (if status = 503 then ENVOY_CONNECTION_FAILURE else ENVOY_UNDEFINED_ERROR)\<rparr>)
     in case EnvoyAttemptCount E headers of
          None \<Rightarrow> Inr s1
        | Some v \<Rightarrow> (case SimpleAtoi E v of
            None \<Rightarrow> Inr s1
          | Some n \<Rightarrow> Inr (update_callbacks s1 i (\<lambda>cb. cb\<lparr>error_attempt_count := Some n\<rparr>))))"

definition encodeHeaders ::
  "('h, 'b) envoy \<Rightarrow> ('h, 'b) http_dispatcher \<Rightarrow> oid \<Rightarrow> 'h \<Rightarrow> bool \<Rightarrow>
   abort + ('h, 'b) http_dispatcher" where
  "encodeHeaders E s i headers end_stream = with_stream s i (\<lambda>ds.
     bindE (ASSERT (asserts_enabled E) (getStream s (stream_handle ds) \<noteq> None)
       ''http_dispatcher_.getStream(direct_stream_.stream_handle_)'') (\<lambda>_.
     bindE (getResponseStatus E headers) (\<lambda>response_status.
     let ok = is2xx E response_status;
         s1 = update_callbacks s i (\<lambda>cb. cb\<lparr>success := ok\<rparr>)
     in bindE (if end_stream then closeStream E s1 i else Inr s1) (\<lambda>s2.
        if \<not> ok \<and> hm_get (headers_api E) headers (EnvoyUpstreamServiceTime E) = []
        then bindE (mapLocalResponseToError E s2 i headers) (\<lambda>s3.
             if end_stream then onError E s3 i else Inr s3)
        else bindE (toBridgeHeaders (headers_api E) (mem s2) headers) (\<lambda>(bridge_headers, m').
             let s3 = emit (s2\<lparr>mem := m'\<rparr>)
                   (PlatformCall i (bridge_callbacks (callbacks ds)) (on_headers bridge_headers end_stream))
             in if end_stream then onComplete E s3 i else Inr s3)))))"

definition encodeData ::
  "('h, 'b) envoy \<Rightarrow> ('h, 'b) http_dispatcher \<Rightarrow> oid \<Rightarrow> 'b \<Rightarrow> bool \<Rightarrow>
   abort + 'b \<times> ('h, 'b) http_dispatcher" where
  "encodeData E s i data end_stream = with_stream s i (\<lambda>ds.
     bindE (ASSERT (asserts_enabled E) (getStream s (stream_handle ds) \<noteq> None)
       ''http_dispatcher_.getStream(direct_stream_.stream_handle_)'') (\<lambda>_.
     bindE (if end_stream then closeStream E s i else Inr s) (\<lambda>s1.
     if error_code (callbacks ds) \<noteq> None
     then bindE (ASSERT (asserts_enabled E) end_stream
            ''local response has to end the stream with a single data frame'') (\<lambda>_.
          bindE (toBridgeData (buffers_api E) (mem s1) data) (\<lambda>(message, data', m').
          let s2 = update_callbacks (s1\<lparr>mem := m'\<rparr>) i (\<lambda>cb. cb\<lparr>error_message := Some message\<rparr>)
          in bindE (onError E s2 i) (\<lambda>s3. Inr (data', s3))))
     else bindE (toBridgeData (buffers_api E) (mem s1) data) (\<lambda>(bridge_data, data', m').
          let s2 = emit (s1\<lparr>mem := m'\<rparr>)
                (PlatformCall i (bridge_callbacks (callbacks ds)) (on_data bridge_data end_stream))
          in bindE (if end_stream then onComplete E s2 i else Inr s2) (\<lambda>s3. Inr (data', s3))))))"

definition encodeTrailers ::
  "('h, 'b) envoy \<Rightarrow> ('h, 'b) http_dispatcher \<Rightarrow> oid \<Rightarrow> 'h \<Rightarrow> abort + ('h, 'b) http_dispatcher" where
  "encodeTrailers E s i trailers = with_stream s i (\<lambda>ds.
     bindE (ASSERT (asserts_enabled E) (getStream s (stream_handle ds) \<noteq> None)
       ''http_dispatcher_.getStream(direct_stream_.stream_handle_)'') (\<lambda>_.
     bindE (closeStream E s i) (\<lambda>s1.
     bindE (toBridgeHeaders (headers_api E) (mem s1) trailers) (\<lambda>(bridge_trailers, m').
     onComplete E (emit (s1\<lparr>mem := m'\<rparr>)
       (PlatformCall i (bridge_callbacks (callbacks ds)) (on_trailers bridge_trailers))) i))))"

section \<open>\<open>DirectStream\<close>\<close>

definition resetStream ::
  "('h, 'b) envoy \<Rightarrow> ('h, 'b) http_dispatcher \<Rightarrow> oid \<Rightarrow> StreamResetReason \<Rightarrow>
   abort + ('h, 'b) http_dispatcher" where
  "resetStream E s i reason = with_stream s i (\<lambda>ds.
     let s1 = emit s (RunResetCallbacks i reason)
     in case getStream s1 (stream_handle ds) of
          None \<Rightarrow> Inr s1
        | Some _ \<Rightarrow> bindE (removeStream E s1 (stream_handle ds)) (\<lambda>s2. onError E s2 i))"

definition bufferLimit :: "32 word" where
  "bufferLimit = 65000"

definition setResponseDetails ::
  "('h, 'b) http_dispatcher \<Rightarrow> oid \<Rightarrow> string \<Rightarrow> ('h, 'b) http_dispatcher" where
  "setResponseDetails s i details =
     s\<lparr>objects := (objects s)(i := map_option (\<lambda>ds. ds\<lparr>response_details := details\<rparr>) (objects s i))\<rparr>"

definition getCancelDetails :: string where
  "getCancelDetails = ''client cancelled stream''"

section \<open>\<open>Dispatcher\<close>: construction, readiness, posting\<close>

definition new_dispatcher :: "envoy_network_t \<Rightarrow> memory \<Rightarrow> ('h, 'b) http_dispatcher" where
  "new_dispatcher net m =
     \<lparr>init_queue = [], event_dispatcher = False, api_listener = False, d_stats = None,
      streams = (\<lambda>_. None), preferred_network = net, objects = (\<lambda>_. None), next_oid = 0,
      posted = [], deferred = [], fragments = [], mem = m, trace = []\<rparr>"

text \<open>\<open>counters\<close> are the values of the scope's counters that \<open>generateStats\<close> finds or creates. The
  source copies the callbacks of \<open>init_queue_\<close> and leaves the queue as it is.\<close>

definition ready :: "('h, 'b) http_dispatcher \<Rightarrow> DispatcherStats \<Rightarrow> ('h, 'b) http_dispatcher" where
  "ready s counters =
     s\<lparr>posted := posted s @ init_queue s, d_stats := Some counters,
       event_dispatcher := True, api_listener := True\<rparr>"

definition post :: "('h, 'b) http_dispatcher \<Rightarrow> post_cb \<Rightarrow> ('h, 'b) http_dispatcher" where
  "post s cb =
     (if event_dispatcher s then s\<lparr>posted := posted s @ [cb]\<rparr>
      else s\<lparr>init_queue := init_queue s @ [cb]\<rparr>)"

definition startStream ::
  "('h, 'b) http_dispatcher \<Rightarrow> envoy_stream_t \<Rightarrow> envoy_http_callbacks \<Rightarrow>
   envoy_status_t \<times> ('h, 'b) http_dispatcher" where
  "startStream s new_stream_handle cbs = (ENVOY_SUCCESS, post s (StartStreamCb new_stream_handle cbs))"

definition sendHeaders ::
  "('h, 'b) http_dispatcher \<Rightarrow> envoy_stream_t \<Rightarrow> envoy_headers \<Rightarrow> bool \<Rightarrow>
   envoy_status_t \<times> ('h, 'b) http_dispatcher" where
  "sendHeaders s stream headers end_stream =
     (ENVOY_SUCCESS, post s (SendHeadersCb stream headers end_stream))"

definition sendData ::
  "('h, 'b) http_dispatcher \<Rightarrow> envoy_stream_t \<Rightarrow> envoy_data \<Rightarrow> bool \<Rightarrow>
   envoy_status_t \<times> ('h, 'b) http_dispatcher" where
  "sendData s stream data end_stream = (ENVOY_SUCCESS, post s (SendDataCb stream data end_stream))"

definition sendMetadata ::
  "('h, 'b) http_dispatcher \<Rightarrow> envoy_stream_t \<Rightarrow> envoy_headers \<Rightarrow>
   abort + envoy_status_t \<times> ('h, 'b) http_dispatcher" where
  "sendMetadata s stream metadata = Inl NotImplemented"

definition sendTrailers ::
  "('h, 'b) http_dispatcher \<Rightarrow> envoy_stream_t \<Rightarrow> envoy_headers \<Rightarrow>
   envoy_status_t \<times> ('h, 'b) http_dispatcher" where
  "sendTrailers s stream trailers = (ENVOY_SUCCESS, post s (SendTrailersCb stream trailers))"

definition cancelStream ::
  "('h, 'b) http_dispatcher \<Rightarrow> envoy_stream_t \<Rightarrow> envoy_status_t \<times> ('h, 'b) http_dispatcher" where
  "cancelStream s stream = (ENVOY_SUCCESS, post s (CancelStreamCb stream))"

section \<open>The destination cluster\<close>

definition ClusterHeader :: string where "ClusterHeader = ''x-envoy-mobile-cluster''"
definition BaseCluster :: string where "BaseCluster = ''base''"
definition BaseWlanCluster :: string where "BaseWlanCluster = ''base_wlan''"
definition BaseWwanCluster :: string where "BaseWwanCluster = ''base_wwan''"
definition H2UpstreamHeader :: string where "H2UpstreamHeader = ''x-envoy-mobile-upstream-protocol''"
definition H2Suffix :: string where "H2Suffix = ''_h2''"
definition BaseClusterH2 :: string where "BaseClusterH2 = BaseCluster @ H2Suffix"
definition BaseWlanClusterH2 :: string where "BaseWlanClusterH2 = BaseWlanCluster @ H2Suffix"
definition BaseWwanClusterH2 :: string where "BaseWwanClusterH2 = BaseWwanCluster @ H2Suffix"

text \<open>The two header constants are \<open>LowerCaseString\<close>s: their constructor lowers the literal.\<close>

definition cluster_name :: "envoy_network_t \<Rightarrow> bool \<Rightarrow> string" where
  "cluster_name net use_h2_cluster = (case net of
     ENVOY_NET_WLAN \<Rightarrow> if use_h2_cluster then BaseWlanClusterH2 else BaseWlanCluster
   | ENVOY_NET_WWAN \<Rightarrow> if use_h2_cluster then BaseWwanClusterH2 else BaseWwanCluster
   | _ \<Rightarrow> if use_h2_cluster then BaseClusterH2 else BaseCluster)"

definition setDestinationCluster ::
  "('h, 'b) envoy \<Rightarrow> envoy_network_t \<Rightarrow> 'h \<Rightarrow> abort + 'h" where
  "setDestinationCluster E net headers =
     (let H = headers_api E;
          h2_header = LowerCaseString H H2UpstreamHeader;
          get_result = hm_get H headers h2_header
      in bindE (case get_result of
           [] \<Rightarrow> Inr (False, headers)
         | value # _ \<Rightarrow>
             bindE (ASSERT (asserts_enabled E) (length get_result = 1) ''get_result.size() == 1'') (\<lambda>_.
             if value = ''http2'' then Inr (True, hm_remove H headers h2_header)
             else bindE (ASSERT (asserts_enabled E) (value = ''http1'')
                    (''using unsupported protocol version '' @ value)) (\<lambda>_.
                  Inr (False, hm_remove H headers h2_header))))
         (\<lambda>(use_h2_cluster, headers').
            Inr (hm_addReference H headers' (LowerCaseString H ClusterHeader)
              (cluster_name net use_h2_cluster))))"

section \<open>The posted callbacks\<close>

definition new_callbacks :: "envoy_http_callbacks \<Rightarrow> DirectStreamCallbacks" where
  "new_callbacks cbs = \<lparr>bridge_callbacks = cbs, error_code = None, error_message = None,
     error_attempt_count = None, success = False\<rparr>"

text \<open>\<open>emplace\<close> keeps the entry of a handle that is already in the map; then the new object dies with
  the lambda's last reference.\<close>

definition run_startStream ::
  "('h, 'b) http_dispatcher \<Rightarrow> envoy_stream_t \<Rightarrow> envoy_http_callbacks \<Rightarrow>
   abort + ('h, 'b) http_dispatcher" where
  "run_startStream s new_stream_handle cbs =
     (let i = next_oid s;
          ds = \<lparr>stream_handle = new_stream_handle, request_decoder = Some i,
                callbacks = new_callbacks cbs, response_details = []\<rparr>;
          s1 = emit (s\<lparr>next_oid := Suc i\<rparr>) (NewStream i new_stream_handle True)
      in if \<not> api_listener s then Inl NullDereference
         else if streams s new_stream_handle = None
         then Inr (s1\<lparr>objects := (objects s1)(i \<mapsto> ds), streams := (streams s1)(new_stream_handle \<mapsto> i)\<rparr>)
         else Inr (emit s1 (DestroyStream i)))"

definition decoder_of ::
  "('h, 'b) http_dispatcher \<Rightarrow> oid \<Rightarrow> (oid \<Rightarrow> abort + 'c) \<Rightarrow> abort + 'c" where
  "decoder_of s i f = with_stream s i (\<lambda>ds.
     case request_decoder ds of None \<Rightarrow> Inl NullDereference | Some d \<Rightarrow> f d)"

definition run_sendHeaders ::
  "('h, 'b) envoy \<Rightarrow> ('h, 'b) http_dispatcher \<Rightarrow> envoy_stream_t \<Rightarrow> envoy_headers \<Rightarrow> bool \<Rightarrow>
   abort + ('h, 'b) http_dispatcher" where
  "run_sendHeaders E s stream headers end_stream = (case getStream s stream of
     None \<Rightarrow> Inr s
   | Some direct_stream \<Rightarrow>
       bindE (toRequestHeaders (headers_api E) (mem s) headers) (\<lambda>(internal_headers, m').
       bindE (setDestinationCluster E (preferred_network s) internal_headers) (\<lambda>internal_headers'.
       decoder_of s direct_stream (\<lambda>d.
       Inr (emit (s\<lparr>mem := m'\<rparr>) (DecodeHeaders d
         (hm_setReferenceForwardedProto (headers_api E) internal_headers' (SchemeValues_Https E))
         end_stream))))))"

definition run_sendData ::
  "('h, 'b) envoy \<Rightarrow> ('h, 'b) http_dispatcher \<Rightarrow> envoy_stream_t \<Rightarrow> envoy_data \<Rightarrow> bool \<Rightarrow>
   abort + ('h, 'b) http_dispatcher" where
  "run_sendData E s stream data end_stream = (case getStream s stream of
     None \<Rightarrow> Inr s
   | Some direct_stream \<Rightarrow>
       bindE (toInternalData (buffers_api E) (mem s) data) (\<lambda>(buf, fragment).
       decoder_of s direct_stream (\<lambda>d.
       Inr (emit (s\<lparr>fragments := fragments s @ [fragment]\<rparr>) (DecodeData d buf end_stream)))))"

definition run_sendTrailers ::
  "('h, 'b) envoy \<Rightarrow> ('h, 'b) http_dispatcher \<Rightarrow> envoy_stream_t \<Rightarrow> envoy_headers \<Rightarrow>
   abort + ('h, 'b) http_dispatcher" where
  "run_sendTrailers E s stream trailers = (case getStream s stream of
     None \<Rightarrow> Inr s
   | Some direct_stream \<Rightarrow>
       bindE (toRequestTrailers (headers_api E) (mem s) trailers) (\<lambda>(internal_trailers, m').
       decoder_of s direct_stream (\<lambda>d.
       Inr (emit (s\<lparr>mem := m'\<rparr>) (DecodeTrailers d internal_trailers)))))"

definition run_cancelStream ::
  "('h, 'b) envoy \<Rightarrow> ('h, 'b) http_dispatcher \<Rightarrow> envoy_stream_t \<Rightarrow> abort + ('h, 'b) http_dispatcher" where
  "run_cancelStream E s stream = (case getStream s stream of
     None \<Rightarrow> Inr s
   | Some direct_stream \<Rightarrow> with_stream s direct_stream (\<lambda>ds.
       bindE (removeStream E s (stream_handle ds)) (\<lambda>s1.
       bindE (onCancel E s1 direct_stream) (\<lambda>s2.
       Inr (emit (setResponseDetails s2 direct_stream getCancelDetails)
         (RunResetCallbacks direct_stream RemoteReset))))))"

fun run_callback ::
  "('h, 'b) envoy \<Rightarrow> ('h, 'b) http_dispatcher \<Rightarrow> post_cb \<Rightarrow> abort + ('h, 'b) http_dispatcher" where
  "run_callback E s (StartStreamCb h cbs) = run_startStream s h cbs"
| "run_callback E s (SendHeadersCb h hs es) = run_sendHeaders E s h hs es"
| "run_callback E s (SendDataCb h d es) = run_sendData E s h d es"
| "run_callback E s (SendTrailersCb h hs) = run_sendTrailers E s h hs"
| "run_callback E s (CancelStreamCb h) = run_cancelStream E s h"

text \<open>The event loop destroys the objects of the deferred-deletion list between callbacks; the
  wrapper holds the last reference to the \<open>DirectStream\<close>.\<close>

definition clearDeferredDeleteList :: "('h, 'b) http_dispatcher \<Rightarrow> ('h, 'b) http_dispatcher" where
  "clearDeferredDeleteList s =
     s\<lparr>objects := (objects s) |` (- set (deferred s)), deferred := [],
       trace := trace s @ map DestroyStream (deferred s)\<rparr>"

section \<open>The dispatcher as a transition system\<close>

text \<open>The inputs: calls of the platform (any thread, serialised by \<open>ready_lock_\<close>), the server's
  \<open>ready\<close>, one posted callback run by the event loop, the HCM's calls on a stream's response encoder
  and stream, the event loop's deferred deletion, a buffer that is done with its fragment, and a
  change of the preferred network.\<close>

datatype ('h, 'b) event =
    StartStream envoy_stream_t envoy_http_callbacks
  | SendHeaders envoy_stream_t envoy_headers bool
  | SendData envoy_stream_t envoy_data bool
  | SendTrailers envoy_stream_t envoy_headers
  | CancelStream envoy_stream_t
  | Ready DispatcherStats
  | RunPosted
  | EncodeHeaders oid 'h bool
  | EncodeData oid 'b bool
  | EncodeTrailers oid 'h
  | ResetStream oid StreamResetReason
  | ClearDeferred
  | FragmentDone nat
  | SetPreferredNetwork envoy_network_t

fun dispatcher_step ::
  "('h, 'b) envoy \<Rightarrow> ('h, 'b) http_dispatcher \<Rightarrow> ('h, 'b) event \<Rightarrow> abort + ('h, 'b) http_dispatcher" where
  "dispatcher_step E s (StartStream h cbs) = Inr (snd (startStream s h cbs))"
| "dispatcher_step E s (SendHeaders h hs es) = Inr (snd (sendHeaders s h hs es))"
| "dispatcher_step E s (SendData h d es) = Inr (snd (sendData s h d es))"
| "dispatcher_step E s (SendTrailers h hs) = Inr (snd (sendTrailers s h hs))"
| "dispatcher_step E s (CancelStream h) = Inr (snd (cancelStream s h))"
| "dispatcher_step E s (Ready counters) = Inr (ready s counters)"
| "dispatcher_step E s RunPosted = (case posted s of
     [] \<Rightarrow> Inr s | cb # rest \<Rightarrow> run_callback E (s\<lparr>posted := rest\<rparr>) cb)"
| "dispatcher_step E s (EncodeHeaders i h es) = encodeHeaders E s i h es"
| "dispatcher_step E s (EncodeData i b es) = bindE (encodeData E s i b es) (\<lambda>(_, s'). Inr s')"
| "dispatcher_step E s (EncodeTrailers i h) = encodeTrailers E s i h"
| "dispatcher_step E s (ResetStream i r) = resetStream E s i r"
| "dispatcher_step E s ClearDeferred = Inr (clearDeferredDeleteList s)"
| "dispatcher_step E s (FragmentDone n) =
     (if n < length (fragments s)
      then bindE (fragment_done (mem s) (fragments s ! n)) (\<lambda>m'.
           Inr (s\<lparr>mem := m', fragments := take n (fragments s) @ drop (Suc n) (fragments s)\<rparr>))
      else Inr s)"
| "dispatcher_step E s (SetPreferredNetwork net) = Inr (s\<lparr>preferred_network := net\<rparr>)"

end
