(* ===== verification/DispatcherStreams.thy ===== *)
theory DispatcherStreams
  imports Dispatcher
begin

text \<open>
  What the HTTP dispatcher guarantees of every stream.

  \<open>env_ok\<close> is the contract of the dispatcher's environment, as its comments and assertions state it:
  a stream handle is used once; \<open>ready\<close> is called once; the connection manager encodes on a stream
  only while the stream is open, and ends a local reply with its single data frame; it may reset a
  stream as long as the \<open>DirectStream\<close> lives. \<open>dispatcher_inv\<close> is the invariant that every step
  permitted by the contract keeps. \<open>stream_step\<close> is what the operations on one stream have in
  common: the proof that each is a \<open>stream_step\<close> is done per operation, the preservation of the
  invariant once.
\<close>

section \<open>The calls a stream's platform callbacks receive\<close>

fun terminal :: "platform_call \<Rightarrow> bool" where
  "terminal (on_error e) = True"
| "terminal on_complete = True"
| "terminal on_cancel = True"
| "terminal (on_headers h es) = False"
| "terminal (on_data d es) = False"
| "terminal (on_trailers h) = False"

fun all_calls :: "('h, 'b) effect list \<Rightarrow> (oid \<times> platform_call) list" where
  "all_calls [] = []"
| "all_calls (PlatformCall i cbs c # es) = (i, c) # all_calls es"
| "all_calls (_ # es) = all_calls es"

definition calls_of :: "oid \<Rightarrow> ('h, 'b) effect list \<Rightarrow> platform_call list" where
  "calls_of i tr = map snd (filter (\<lambda>p. fst p = i) (all_calls tr))"

definition count_calls :: "(platform_call \<Rightarrow> bool) \<Rightarrow> ('h, 'b) effect list \<Rightarrow> nat" where
  "count_calls P tr = length (filter (\<lambda>p. P (snd p)) (all_calls tr))"

fun started :: "('h, 'b) effect list \<Rightarrow> envoy_stream_t list" where
  "started [] = []"
| "started (NewStream i h b # es) = h # started es"
| "started (_ # es) = started es"

lemma all_calls_append [simp]: "all_calls (xs @ ys) = all_calls xs @ all_calls ys"
  by (induction xs rule: all_calls.induct) auto

lemma started_append [simp]: "started (xs @ ys) = started xs @ started ys"
  by (induction xs rule: started.induct) auto

lemma all_calls_Destroy [simp]: "all_calls (map DestroyStream is) = []"
  by (induction "is") auto

lemma started_Destroy [simp]: "started (map DestroyStream is) = []"
  by (induction "is") auto

lemma calls_of_append [simp]: "calls_of i (xs @ ys) = calls_of i xs @ calls_of i ys"
  by (simp add: calls_of_def)

lemma count_calls_append [simp]: "count_calls P (xs @ ys) = count_calls P xs + count_calls P ys"
  by (simp add: count_calls_def)

definition quiet :: "platform_call list \<Rightarrow> bool" where
  "quiet cs \<longleftrightarrow> list_all (\<lambda>c. \<not> terminal c) cs"

definition closed :: "platform_call list \<Rightarrow> bool" where
  "closed cs \<longleftrightarrow> cs \<noteq> [] \<and> terminal (last cs) \<and> quiet (butlast cs)"

lemma quiet_simps [simp]:
  "quiet []" "quiet (c # cs) \<longleftrightarrow> \<not> terminal c \<and> quiet cs" "quiet (xs @ ys) \<longleftrightarrow> quiet xs \<and> quiet ys"
  by (simp_all add: quiet_def)

lemma closed_simps [simp]:
  "\<not> closed []" "closed [c] \<longleftrightarrow> terminal c"
  "closed (c # d # cs) \<longleftrightarrow> \<not> terminal c \<and> closed (d # cs)"
  by (auto simp: closed_def)

lemma quiet_append_closed [simp]: "quiet xs \<Longrightarrow> closed ys \<Longrightarrow> closed (xs @ ys)"
  by (auto simp: closed_def butlast_append)

definition done_call :: "platform_call \<Rightarrow> bool" where
  "done_call c \<longleftrightarrow> (case c of on_complete \<Rightarrow> True | on_error e \<Rightarrow> True | _ \<Rightarrow> False)"

definition cancel_call :: "platform_call \<Rightarrow> bool" where
  "cancel_call c \<longleftrightarrow> c = on_cancel"

section \<open>The environment's contract\<close>

fun start_handles :: "post_cb list \<Rightarrow> envoy_stream_t list" where
  "start_handles [] = []"
| "start_handles (StartStreamCb h cbs # cs) = h # start_handles cs"
| "start_handles (_ # cs) = start_handles cs"

lemma start_handles_append [simp]:
  "start_handles (xs @ ys) = start_handles xs @ start_handles ys"
  by (induction xs rule: start_handles.induct) auto

text \<open>The callbacks still to be run.\<close>

definition pending :: "('h, 'b) http_dispatcher \<Rightarrow> post_cb list" where
  "pending s = (if event_dispatcher s then posted s else init_queue s)"

definition handles_used :: "('h, 'b) http_dispatcher \<Rightarrow> envoy_stream_t list" where
  "handles_used s = start_handles (pending s) @ started (trace s)"

definition live :: "('h, 'b) http_dispatcher \<Rightarrow> oid \<Rightarrow> bool" where
  "live s i = (case objects s i of None \<Rightarrow> False | Some ds \<Rightarrow> streams s (stream_handle ds) = Some i)"

definition error_pending :: "('h, 'b) http_dispatcher \<Rightarrow> oid \<Rightarrow> bool" where
  "error_pending s i =
     (case objects s i of None \<Rightarrow> False | Some ds \<Rightarrow> error_code (callbacks ds) \<noteq> None)"

fun env_ok :: "DispatcherStats \<Rightarrow> ('h, 'b) http_dispatcher \<Rightarrow> ('h, 'b) event \<Rightarrow> bool" where
  "env_ok c0 s (StartStream h cbs) = (h \<notin> set (handles_used s))"
| "env_ok c0 s (Ready counters) = (\<not> event_dispatcher s \<and> counters = c0)"
| "env_ok c0 s (EncodeHeaders i h es) = live s i"
| "env_ok c0 s (EncodeData i b es) = (live s i \<and> (error_pending s i \<longrightarrow> es))"
| "env_ok c0 s (EncodeTrailers i h) = live s i"
| "env_ok c0 s (ResetStream i r) = (objects s i \<noteq> None)"
| "env_ok c0 s _ = True"

section \<open>The invariant\<close>

definition streams_inv :: "('h, 'b) http_dispatcher \<Rightarrow> bool" where
  "streams_inv s \<longleftrightarrow>
     (\<forall>h i. streams s h = Some i \<longrightarrow>
        (\<exists>ds. objects s i = Some ds \<and> stream_handle ds = h)) \<and>
     (\<forall>i ds. objects s i = Some ds \<longrightarrow>
        i < next_oid s \<and> request_decoder ds = Some i \<and> stream_handle ds \<in> set (started (trace s)) \<and>
        (streams s (stream_handle ds) = Some i \<and> i \<notin> set (deferred s) \<or>
         streams s (stream_handle ds) = None \<and> i \<in> set (deferred s))) \<and>
     set (deferred s) \<subseteq> dom (objects s) \<and> distinct (deferred s)"

definition calls_inv :: "('h, 'b) http_dispatcher \<Rightarrow> bool" where
  "calls_inv s \<longleftrightarrow>
     (\<forall>i. if live s i then quiet (calls_of i (trace s))
          else if i < next_oid s then closed (calls_of i (trace s))
          else calls_of i (trace s) = [])"

definition handles_inv :: "('h, 'b) http_dispatcher \<Rightarrow> bool" where
  "handles_inv s \<longleftrightarrow> distinct (handles_used s)"

definition ready_inv :: "('h, 'b) http_dispatcher \<Rightarrow> bool" where
  "ready_inv s \<longleftrightarrow>
     api_listener s = event_dispatcher s \<and>
     (\<not> event_dispatcher s \<longrightarrow>
        posted s = [] \<and> objects s = (\<lambda>_. None) \<and> next_oid s = 0 \<and> trace s = [] \<and> deferred s = [])"

definition stats_inv :: "DispatcherStats \<Rightarrow> ('h, 'b) http_dispatcher \<Rightarrow> bool" where
  "stats_inv c0 s \<longleftrightarrow>
     (case d_stats s of
        None \<Rightarrow> \<not> event_dispatcher s
      | Some st \<Rightarrow> event_dispatcher s \<and>
          stream_cancel st = stream_cancel c0 + of_nat (count_calls cancel_call (trace s)) \<and>
          stream_success st + stream_failure st =
            stream_success c0 + stream_failure c0 + of_nat (count_calls done_call (trace s)))"

definition dispatcher_inv :: "DispatcherStats \<Rightarrow> ('h, 'b) http_dispatcher \<Rightarrow> bool" where
  "dispatcher_inv c0 s \<longleftrightarrow>
     streams_inv s \<and> calls_inv s \<and> handles_inv s \<and> ready_inv s \<and> stats_inv c0 s"

lemma streams_invD:
  assumes "streams_inv s"
  shows "streams s h = Some i \<Longrightarrow> \<exists>ds. objects s i = Some ds \<and> stream_handle ds = h"
    and "objects s i = Some ds \<Longrightarrow> i < next_oid s"
    and "objects s i = Some ds \<Longrightarrow> request_decoder ds = Some i"
    and "objects s i = Some ds \<Longrightarrow> stream_handle ds \<in> set (started (trace s))"
    and "objects s i = Some ds \<Longrightarrow>
      streams s (stream_handle ds) = Some i \<and> i \<notin> set (deferred s) \<or>
      streams s (stream_handle ds) = None \<and> i \<in> set (deferred s)"
    and "set (deferred s) \<subseteq> dom (objects s)" and "distinct (deferred s)"
  using assms unfolding streams_inv_def by blast+

lemma live_iff: "streams_inv s \<Longrightarrow> live s i \<longleftrightarrow> (\<exists>h. streams s h = Some i)"
  by (auto simp: live_def split: option.splits dest: streams_invD(1))

lemma initial_inv: "dispatcher_inv c0 (new_dispatcher net m)"
  by (simp add: dispatcher_inv_def streams_inv_def calls_inv_def handles_inv_def ready_inv_def
      stats_inv_def new_dispatcher_def handles_used_def pending_def live_def calls_of_def)

section \<open>Operations on one stream\<close>

text \<open>\<open>stream_step s i es t\<close>: from \<open>s\<close> to \<open>t\<close> the operation touched only the object \<open>i\<close>, kept its
  handle and decoder, appended \<open>es\<close> to the trace with calls for \<open>i\<close> only and no new stream, counted
  its terminal call in the statistics, and either left \<open>i\<close> open without a terminal call, or closed
  it: one terminal call, the last, the entry erased and the object scheduled for deletion.\<close>

definition frame_eq :: "('h, 'b) http_dispatcher \<Rightarrow> ('h, 'b) http_dispatcher \<Rightarrow> bool" where
  "frame_eq s t \<longleftrightarrow>
     init_queue t = init_queue s \<and> event_dispatcher t = event_dispatcher s \<and>
     api_listener t = api_listener s \<and> preferred_network t = preferred_network s \<and>
     next_oid t = next_oid s \<and> posted t = posted s \<and> fragments t = fragments s"

definition stats_step :: "DispatcherStats option \<Rightarrow> ('h, 'b) effect list \<Rightarrow> DispatcherStats option \<Rightarrow> bool" where
  "stats_step o1 es o2 \<longleftrightarrow>
     (case (o1, o2) of
        (Some a, Some b) \<Rightarrow>
          stream_cancel b = stream_cancel a + of_nat (count_calls cancel_call es) \<and>
          stream_success b + stream_failure b =
            stream_success a + stream_failure a + of_nat (count_calls done_call es)
      | (None, None) \<Rightarrow> True
      | _ \<Rightarrow> False)"

definition same_stream :: "DirectStream \<Rightarrow> DirectStream \<Rightarrow> bool" where
  "same_stream a b \<longleftrightarrow>
     stream_handle b = stream_handle a \<and> request_decoder b = request_decoder a \<and>
     bridge_callbacks (callbacks b) = bridge_callbacks (callbacks a)"

definition stream_step ::
  "('h, 'b) http_dispatcher \<Rightarrow> oid \<Rightarrow> ('h, 'b) effect list \<Rightarrow> ('h, 'b) http_dispatcher \<Rightarrow> bool" where
  "stream_step s i es t \<longleftrightarrow>
     (\<exists>ds ds'. objects s i = Some ds \<and> objects t = (objects s)(i \<mapsto> ds') \<and> same_stream ds ds' \<and>
        trace t = trace s @ es \<and> started es = [] \<and> list_all (\<lambda>p. fst p = i) (all_calls es) \<and>
        frame_eq s t \<and> stats_step (d_stats s) es (d_stats t) \<and>
        (streams t = streams s \<and> deferred t = deferred s \<and>
           (calls_of i es = [] \<or> live s i \<and> quiet (calls_of i es)) \<or>
         live s i \<and> closed (calls_of i es) \<and> streams t = (streams s)(stream_handle ds := None) \<and>
           deferred t = deferred s @ [i]))"

lemma all_calls_other:
  "list_all (\<lambda>p. fst p = i) (all_calls es) \<Longrightarrow> j \<noteq> i \<Longrightarrow> calls_of j es = []"
  by (auto simp: calls_of_def list_all_iff filter_empty_conv)

lemma stream_step_streams_inv:
  assumes "streams_inv s" "stream_step s i es t"
  shows "streams_inv t"
proof -
  from assms(2) obtain ds ds' where st: "objects s i = Some ds" "objects t = (objects s)(i \<mapsto> ds')"
    "stream_handle ds' = stream_handle ds" "request_decoder ds' = request_decoder ds"
    "trace t = trace s @ es" "started es = []" "next_oid t = next_oid s"
    and alt: "streams t = streams s \<and> deferred t = deferred s \<or>
      live s i \<and> streams t = (streams s)(stream_handle ds := None) \<and> deferred t = deferred s @ [i]"
    unfolding stream_step_def same_stream_def frame_eq_def by blast
  note inv = streams_invD [OF assms(1)]
  have i: "streams s (stream_handle ds) = Some i" "i \<notin> set (deferred s)"
    if "streams t \<noteq> streams s \<or> deferred t \<noteq> deferred s"
    using that alt st(1) inv(5) [OF st(1)] by (auto simp: live_def)
  have old: "\<exists>d0. objects s j = Some d0 \<and> stream_handle d0 = stream_handle d \<and>
      request_decoder d0 = request_decoder d" if "objects t j = Some d" for j d
    using that st(1-4) by (cases "j = i") auto
  show ?thesis
    unfolding streams_inv_def
  proof (intro conjI allI impI)
    fix h j assume "streams t h = Some j"
    then have "streams s h = Some j" using alt by (auto split: if_splits)
    from inv(1) [OF this] show "\<exists>d. objects t j = Some d \<and> stream_handle d = h"
      using st by auto
  next
    fix j d assume "objects t j = Some d"
    then obtain d0 where o: "objects s j = Some d0" "stream_handle d = stream_handle d0"
      "request_decoder d = request_decoder d0" using old by metis
    show "j < next_oid t" using inv(2) [OF o(1)] st(7) by simp
    show "request_decoder d = Some j" using inv(3) [OF o(1)] o(3) by simp
    show "stream_handle d \<in> set (started (trace t))" using inv(4) [OF o(1)] o(2) st(5,6) by simp
    show "streams t (stream_handle d) = Some j \<and> j \<notin> set (deferred t) \<or>
        streams t (stream_handle d) = None \<and> j \<in> set (deferred t)"
    proof (cases "streams t = streams s \<and> deferred t = deferred s")
      case True
      then show ?thesis using inv(5) [OF o(1)] o(2) by simp
    next
      case False
      with alt i show ?thesis using inv(5) [OF o(1)] o st(1) by (cases "j = i") auto
    qed
  next
    show "set (deferred t) \<subseteq> dom (objects t)" using alt st inv(6) by auto
    show "distinct (deferred t)" using alt i inv(7) by (cases "deferred t = deferred s") auto
  qed
qed

lemma stream_step_live:
  assumes "stream_step s i es t" "streams_inv s" "j \<noteq> i"
  shows "live t j = live s j"
proof (cases "objects s j")
  case None
  then show ?thesis using assms(1,3) by (auto simp: stream_step_def live_def)
next
  case (Some d)
  have "streams t (stream_handle d) = streams s (stream_handle d) \<or>
    streams s (stream_handle d) = Some i \<and> streams t (stream_handle d) = None"
    using assms(1) by (auto simp: stream_step_def live_def split: if_splits)
  moreover have "objects t j = Some d"
    using assms(1,3) Some by (auto simp: stream_step_def)
  ultimately show ?thesis using Some assms(3) by (auto simp: live_def)
qed

lemma stream_step_calls_inv:
  assumes inv: "streams_inv s" "calls_inv s" and step: "stream_step s i es t"
  shows "calls_inv t"
  unfolding calls_inv_def
proof
  fix j
  have n: "next_oid t = next_oid s" "trace t = trace s @ es"
    using step by (auto simp: stream_step_def frame_eq_def)
  have old: "if live s j then quiet (calls_of j (trace s))
    else if j < next_oid s then closed (calls_of j (trace s)) else calls_of j (trace s) = []"
    using inv(2) by (simp add: calls_inv_def)
  show "if live t j then quiet (calls_of j (trace t))
    else if j < next_oid t then closed (calls_of j (trace t)) else calls_of j (trace t) = []"
  proof (cases "j = i")
    case False
    moreover have "calls_of j es = []"
      using step all_calls_other [of i es j] False by (auto simp: stream_step_def)
    ultimately show ?thesis
      using old stream_step_live [OF step inv(1) False] by (simp add: n)
  next
    case True
    from step obtain ds where ds: "objects s i = Some ds" by (auto simp: stream_step_def)
    have lt: "i < next_oid s" using streams_invD(2) [OF inv(1) ds] .
    from step have "live t i = live s i \<and> (calls_of i es = [] \<or> live s i \<and> quiet (calls_of i es)) \<or>
        live s i \<and> \<not> live t i \<and> closed (calls_of i es)"
      by (auto simp: stream_step_def live_def same_stream_def)
    then show ?thesis using True old lt by (auto simp: n)
  qed
qed

lemma stream_step_inv:
  assumes inv: "dispatcher_inv c0 s" and step: "stream_step s i es t"
  shows "dispatcher_inv c0 t"
proof -
  have "handles_inv t"
    using inv step
    by (auto simp: dispatcher_inv_def handles_inv_def handles_used_def pending_def stream_step_def
        frame_eq_def)
  moreover have "ready_inv t"
    using inv step by (auto simp: dispatcher_inv_def ready_inv_def stream_step_def frame_eq_def)
  moreover have "stats_inv c0 t"
    using inv step
    by (auto simp: dispatcher_inv_def stats_inv_def stream_step_def frame_eq_def stats_step_def
        split: option.splits)
  ultimately show ?thesis
    using inv step stream_step_streams_inv stream_step_calls_inv by (auto simp: dispatcher_inv_def)
qed

section \<open>Every operation on a stream is a \<open>stream_step\<close>\<close>

lemma with_stream_Inr [simp]:
  "with_stream s i f = Inr t \<longleftrightarrow> (\<exists>ds. objects s i = Some ds \<and> f ds = Inr t)"
  by (auto simp: with_stream_def split: option.splits)

lemma with_stream_Some: "objects s i = Some ds \<Longrightarrow> with_stream s i f = f ds"
  by (simp add: with_stream_def)

lemma removeStream_Inr [simp]:
  "removeStream E s h = Inr t \<longleftrightarrow> event_dispatcher s \<and> isThreadSafe E \<and> (\<exists>i. streams s h = Some i \<and>
     t = emit (s\<lparr>deferred := deferred s @ [i], streams := (streams s)(h := None)\<rparr>) (DeferredDelete i))"
  by (auto simp: removeStream_def getStream_def split: option.splits)

lemma update_stats_Inr [simp]:
  "update_stats E s f = Inr t \<longleftrightarrow> (\<exists>st. d_stats s = Some st \<and> t = s\<lparr>d_stats := Some (f st)\<rparr>)"
  by (auto simp: update_stats_def stats_def split: option.splits)

lemma emit_frame [simp]:
  "objects (emit s e) = objects s" "streams (emit s e) = streams s" "deferred (emit s e) = deferred s"
  "d_stats (emit s e) = d_stats s" "trace (emit s e) = trace s @ [e]" "frame_eq s (emit t e) = frame_eq s t"
  "mem (emit s e) = mem s" "event_dispatcher (emit s e) = event_dispatcher s"
  "(emit s e)\<lparr>mem := m\<rparr> = emit (s\<lparr>mem := m\<rparr>) e"
  by (simp_all add: emit_def frame_eq_def)

lemma update_callbacks_frame [simp]:
  "streams (update_callbacks s i f) = streams s" "deferred (update_callbacks s i f) = deferred s"
  "d_stats (update_callbacks s i f) = d_stats s" "trace (update_callbacks s i f) = trace s"
  "frame_eq s (update_callbacks t i f) = frame_eq s t" "mem (update_callbacks s i f) = mem s"
  "event_dispatcher (update_callbacks s i f) = event_dispatcher s"
  by (simp_all add: update_callbacks_def frame_eq_def)

lemma update_callbacks_objects [simp]:
  "objects s i = Some ds \<Longrightarrow>
     objects (update_callbacks s i f) = (objects s)(i \<mapsto> ds\<lparr>callbacks := f (callbacks ds)\<rparr>)"
  by (simp add: update_callbacks_def)

lemma same_stream_simps [simp]:
  "same_stream ds ds" "same_stream ds (ds\<lparr>response_details := r\<rparr>)"
  "same_stream ds (ds\<lparr>callbacks := c\<rparr>) \<longleftrightarrow> bridge_callbacks c = bridge_callbacks (callbacks ds)"
  by (auto simp: same_stream_def)

lemma frame_eq_simps [simp]:
  "frame_eq s s" "frame_eq s (t\<lparr>d_stats := d\<rparr>) = frame_eq s t" "frame_eq s (t\<lparr>mem := m\<rparr>) = frame_eq s t"
  "frame_eq s (t\<lparr>streams := ss, deferred := dd\<rparr>) = frame_eq s t"
  "frame_eq s (t\<lparr>deferred := dd, streams := ss\<rparr>) = frame_eq s t"
  "frame_eq s (t\<lparr>objects := oo\<rparr>) = frame_eq s t"
  by (auto simp: frame_eq_def)

abbreviation new_effects :: "('h, 'b) http_dispatcher \<Rightarrow> ('h, 'b) http_dispatcher \<Rightarrow> ('h, 'b) effect list" where
  "new_effects s t \<equiv> drop (length (trace s)) (trace t)"

lemmas stream_step_simps =
  stream_step_def stats_step_def count_calls_def calls_of_def done_call_def cancel_call_def live_def

lemma upd_same [simp]: "m i = Some d \<Longrightarrow> m = m(i \<mapsto> d') \<longleftrightarrow> d' = d"
  by (metis fun_upd_same fun_upd_triv option.inject)

lemma upd_eq [simp]: "m(i \<mapsto> a) = m(i \<mapsto> b) \<longleftrightarrow> a = b"
  by (metis fun_upd_same option.inject)

lemma encodeTrailers_step:
  assumes "encodeTrailers E s i h = Inr t" "live s i"
  shows "stream_step s i (new_effects s t) t"
  using assms
  by (auto simp: encodeTrailers_def closeStream_def onComplete_def stream_step_simps
      split: option.splits if_splits)

lemma update_callbacks_twice [simp]:
  "update_callbacks (update_callbacks s i f) i g = update_callbacks s i (g \<circ> f)"
  by (cases "objects s i") (simp_all add: update_callbacks_def)

text \<open>The mapping of a local reply as one update of the callbacks object.\<close>

definition error_of_local_reply ::
  "('h, 'b) envoy \<Rightarrow> 'h \<Rightarrow> nat \<Rightarrow> DirectStreamCallbacks \<Rightarrow> DirectStreamCallbacks" where
  "error_of_local_reply E headers status cb =
     cb\<lparr>error_code := Some (if status = 503 then ENVOY_CONNECTION_FAILURE else ENVOY_UNDEFINED_ERROR),
        error_attempt_count := (case Option.bind (EnvoyAttemptCount E headers) (SimpleAtoi E) of
            None \<Rightarrow> error_attempt_count cb | Some n \<Rightarrow> Some n)\<rparr>"

lemma error_of_local_reply_simps [simp]:
  "bridge_callbacks (error_of_local_reply E h n cb) = bridge_callbacks cb"
  "success (error_of_local_reply E h n cb) = success cb"
  "error_message (error_of_local_reply E h n cb) = error_message cb"
  by (simp_all add: error_of_local_reply_def)

lemma mapLocalResponseToError_eq:
  "mapLocalResponseToError E s i headers =
     bindE (getResponseStatus E headers) (\<lambda>status.
       Inr (update_callbacks s i (error_of_local_reply E headers status)))"
  unfolding mapLocalResponseToError_def
  by (rule bindE_cong)
    (auto simp: error_of_local_reply_def Let_def comp_def fun_eq_iff split: option.splits
      intro!: arg_cong [where f = "update_callbacks s i"])

lemma encodeHeaders_step:
  assumes "encodeHeaders E s i h es = Inr t" "live s i"
  shows "stream_step s i (new_effects s t) t"
  using assms
  by (auto simp: encodeHeaders_def closeStream_def onComplete_def onError_def stream_step_simps
      mapLocalResponseToError_eq Let_def split: option.splits if_splits)

lemma encodeData_step:
  assumes "encodeData E s i b es = Inr (b', t)" "live s i" "error_pending s i \<longrightarrow> es"
  shows "stream_step s i (new_effects s t) t"
  using assms
  by (auto simp: encodeData_def closeStream_def onComplete_def onError_def stream_step_simps
      error_pending_def Let_def split: option.splits if_splits)

lemma resetStream_step:
  assumes step: "resetStream E s i r = Inr t" and obj: "objects s i \<noteq> None" and inv: "streams_inv s"
  shows "stream_step s i (new_effects s t) t"
proof -
  from obj obtain ds where ds: "objects s i = Some ds" by auto
  consider "streams s (stream_handle ds) = Some i" | "streams s (stream_handle ds) = None"
    using streams_invD(5) [OF inv ds] by auto
  then show ?thesis
    using step ds
    by cases (auto simp: resetStream_def getStream_def onError_def stream_step_simps Let_def
        split: option.splits if_splits)
qed

lemma run_cancelStream_step:
  assumes step: "run_cancelStream E s h = Inr t" and live: "streams s h = Some i" and inv: "streams_inv s"
  shows "stream_step s i (new_effects s t) t"
proof -
  obtain ds where ds: "objects s i = Some ds" "stream_handle ds = h"
    using streams_invD(1) [OF inv live] by auto
  show ?thesis
    using step ds live
    by (auto simp: run_cancelStream_def getStream_def onCancel_def stream_step_simps
        setResponseDetails_def split: option.splits)
qed

section \<open>The other operations\<close>

text \<open>A step that makes no call to the platform and leaves the streams alone.\<close>

definition idle_step :: "('h, 'b) http_dispatcher \<Rightarrow> ('h, 'b) http_dispatcher \<Rightarrow> bool" where
  "idle_step s t \<longleftrightarrow>
     streams t = streams s \<and> objects t = objects s \<and> deferred t = deferred s \<and> next_oid t = next_oid s \<and>
     d_stats t = d_stats s \<and> event_dispatcher t = event_dispatcher s \<and> api_listener t = api_listener s \<and>
     (\<exists>es. trace t = trace s @ es \<and> all_calls es = [] \<and> started es = [] \<and>
       (es \<noteq> [] \<longrightarrow> event_dispatcher s))"

lemma idle_step_inv:
  assumes "dispatcher_inv c0 s" "idle_step s t" "distinct (handles_used t)"
    and "\<not> event_dispatcher s \<Longrightarrow> posted t = []"
  shows "dispatcher_inv c0 t"
proof -
  from assms(2) obtain es where es: "trace t = trace s @ es" "all_calls es = []" "started es = []"
    "es \<noteq> [] \<longrightarrow> event_dispatcher s"
    by (auto simp: idle_step_def)
  have eq: "streams t = streams s" "objects t = objects s" "deferred t = deferred s"
    "next_oid t = next_oid s" "d_stats t = d_stats s" "event_dispatcher t = event_dispatcher s"
    "api_listener t = api_listener s"
    using assms(2) by (auto simp: idle_step_def)
  have c: "calls_of j es = []" "count_calls P es = 0" for j P
    using es(2) by (simp_all add: calls_of_def count_calls_def)
  have l: "live t j = live s j" for j by (simp add: live_def eq split: option.splits)
  have "streams_inv t" "calls_inv t" "stats_inv c0 t"
    using assms(1) es(3) unfolding dispatcher_inv_def streams_inv_def calls_inv_def stats_inv_def
    by (simp_all add: eq es(1) c l split: option.splits)
  moreover have "ready_inv t"
    using assms(1,4) es(1,4) unfolding dispatcher_inv_def ready_inv_def by (auto simp: eq)
  ultimately show ?thesis
    using assms(3) by (simp add: dispatcher_inv_def handles_inv_def)
qed

lemma decoder_of_Inr [simp]:
  "decoder_of s i f = Inr t \<longleftrightarrow>
     (\<exists>ds d. objects s i = Some ds \<and> request_decoder ds = Some d \<and> f d = Inr t)"
  by (auto simp: decoder_of_def split: option.splits)

lemma send_idle:
  "run_sendHeaders E s h hs es = Inr t \<Longrightarrow> event_dispatcher s \<Longrightarrow> idle_step s t \<and> pending t = pending s"
  "run_sendData E s h d es = Inr t \<Longrightarrow> event_dispatcher s \<Longrightarrow> idle_step s t \<and> pending t = pending s"
  "run_sendTrailers E s h hs = Inr t \<Longrightarrow> event_dispatcher s \<Longrightarrow> idle_step s t \<and> pending t = pending s"
  by (auto simp: run_sendHeaders_def run_sendData_def run_sendTrailers_def getStream_def idle_step_def
      emit_def pending_def split: option.splits)

lemma idle_handles:
  "idle_step s t \<Longrightarrow> pending t = pending s \<Longrightarrow> handles_used t = handles_used s"
  by (auto simp: idle_step_def handles_used_def)

lemma idle_send_inv:
  assumes "dispatcher_inv c0 s" "event_dispatcher s" "idle_step s t \<and> pending t = pending s"
  shows "dispatcher_inv c0 t"
  using assms idle_step_inv [of c0 s t] idle_handles [of s t]
  by (auto simp: dispatcher_inv_def handles_inv_def)

lemma run_startStream_inv:
  assumes inv: "dispatcher_inv c0 s" and fresh: "h \<notin> set (handles_used s)"
    and step: "run_startStream s h cbs = Inr t"
  shows "dispatcher_inv c0 t"
proof -
  let ?i = "next_oid s"
  have ed: "api_listener s" using step by (auto simp: run_startStream_def Let_def split: if_splits)
  have si: "streams_inv s" using inv by (simp add: dispatcher_inv_def)
  note inv_s = streams_invD [OF si]
  have none: "streams s h = None"
    using inv_s(1) [of h] inv_s(4) fresh by (cases "streams s h") (auto simp: handles_used_def)
  have obj: "objects s ?i = None" using inv_s(2) by (cases "objects s ?i") auto
  define ds where "ds = \<lparr>stream_handle = h, request_decoder = Some ?i,
    callbacks = new_callbacks cbs, response_details = []\<rparr>"
  have t: "objects t = (objects s)(?i \<mapsto> ds)" "streams t = (streams s)(h \<mapsto> ?i)"
    "next_oid t = Suc ?i" "trace t = trace s @ [NewStream ?i h True]" "deferred t = deferred s"
    "d_stats t = d_stats s" "event_dispatcher t = event_dispatcher s" "api_listener t = api_listener s"
    "pending t = pending s"
    using step ed none unfolding run_startStream_def Let_def ds_def [symmetric]
    by (auto simp: emit_def pending_def)
  have ds: "stream_handle ds = h" "request_decoder ds = Some ?i" by (simp_all add: ds_def)
  have nh: "stream_handle d \<noteq> h" if "objects s j = Some d" for j d
    using inv_s(4) [OF that] fresh by (auto simp: handles_used_def)
  have st: "streams_inv t"
    unfolding streams_inv_def
  proof (intro conjI allI impI)
    fix h' j assume "streams t h' = Some j"
    then show "\<exists>d. objects t j = Some d \<and> stream_handle d = h'"
      using inv_s(1) [of h' j] obj ds t(1,2) by (auto split: if_splits)
  next
    fix j d assume "objects t j = Some d"
    then consider "j = ?i" "d = ds" | "j \<noteq> ?i" "objects s j = Some d"
      using t(1) by (auto split: if_splits)
    note cs = this
    from cs show "j < next_oid t" using t(3) inv_s(2) by cases (auto intro: less_SucI)
    from cs show "request_decoder d = Some j" using ds inv_s(3) by cases auto
    from cs show "stream_handle d \<in> set (started (trace t))" using ds t(4) inv_s(4) by cases auto
    from cs show "streams t (stream_handle d) = Some j \<and> j \<notin> set (deferred t) \<or>
        streams t (stream_handle d) = None \<and> j \<in> set (deferred t)"
      using ds t(2,5) inv_s(5,6) obj nh by cases auto
  next
    show "set (deferred t) \<subseteq> dom (objects t)" using t(1,5) inv_s(6) by auto
    show "distinct (deferred t)" using t(5) inv_s(7) by simp
  qed
  have l: "live t j = (if j = ?i then True else live s j)" for j
    using t(1,2) ds nh by (auto simp: live_def split: option.splits)
  have c: "calls_of j (trace t) = calls_of j (trace s)" for j by (simp add: t(4) calls_of_def)
  have ci: "calls_inv s" using inv by (simp add: dispatcher_inv_def)
  have "\<not> live s ?i" using obj by (simp add: live_def)
  with ci have "calls_of ?i (trace s) = []"
    unfolding calls_inv_def by (metis less_irrefl)
  then have "calls_inv t"
    using ci unfolding calls_inv_def by (simp add: l c t(3) less_Suc_eq)
  moreover have "handles_inv t"
    using inv fresh by (auto simp: dispatcher_inv_def handles_inv_def handles_used_def t)
  moreover have "ready_inv t"
    using inv ed by (simp add: dispatcher_inv_def ready_inv_def t)
  moreover have "stats_inv c0 t"
    using inv by (simp add: dispatcher_inv_def stats_inv_def t count_calls_def split: option.splits)
  ultimately show ?thesis using st by (simp add: dispatcher_inv_def)
qed

lemma post_inv:
  assumes inv: "dispatcher_inv c0 s"
    and fresh: "\<And>h. h \<in> set (start_handles [cb]) \<Longrightarrow> h \<notin> set (handles_used s)"
  shows "dispatcher_inv c0 (post s cb)"
proof (rule idle_step_inv [OF inv])
  show "idle_step s (post s cb)" by (simp add: idle_step_def post_def)
  have "handles_used (post s cb) =
      start_handles (pending s) @ start_handles [cb] @ started (trace s)"
    by (simp add: handles_used_def post_def pending_def)
  moreover have "distinct (start_handles [cb])" by (cases cb) auto
  ultimately show "distinct (handles_used (post s cb))"
    using inv fresh by (auto simp: dispatcher_inv_def handles_inv_def handles_used_def)
  show "posted (post s cb) = []" if "\<not> event_dispatcher s"
    using that inv by (simp add: post_def dispatcher_inv_def ready_inv_def)
qed

lemma ready_keeps_inv:
  assumes inv: "dispatcher_inv c0 s" and "\<not> event_dispatcher s"
  shows "dispatcher_inv c0 (ready s c0)"
proof -
  have s: "posted s = []" "objects s = (\<lambda>_. None)" "next_oid s = 0" "trace s = []" "deferred s = []"
    using inv assms(2) by (simp_all add: dispatcher_inv_def ready_inv_def)
  have "streams s h = None" for h
    using inv streams_invD(1) [of s h] s(2) by (cases "streams s h") (auto simp: dispatcher_inv_def)
  with inv s assms(2) show ?thesis
    by (auto simp: dispatcher_inv_def streams_inv_def calls_inv_def handles_inv_def ready_inv_def
        stats_inv_def ready_def handles_used_def pending_def live_def calls_of_def count_calls_def)
qed

lemma clearDeferred_inv:
  assumes inv: "dispatcher_inv c0 s"
  shows "dispatcher_inv c0 (clearDeferredDeleteList s)"
proof -
  let ?t = "clearDeferredDeleteList s"
  have t: "objects ?t = (objects s) |` (- set (deferred s))" "streams ?t = streams s"
    "next_oid ?t = next_oid s" "trace ?t = trace s @ map DestroyStream (deferred s)" "deferred ?t = []"
    "d_stats ?t = d_stats s" "event_dispatcher ?t = event_dispatcher s"
    "api_listener ?t = api_listener s" "pending ?t = pending s" "posted ?t = posted s"
    by (simp_all add: clearDeferredDeleteList_def pending_def)
  have si: "streams_inv s" using inv by (simp add: dispatcher_inv_def)
  note inv_s = streams_invD [OF si]
  have o: "objects ?t i = Some ds \<longleftrightarrow> objects s i = Some ds \<and> streams s (stream_handle ds) = Some i" for i ds
    using inv_s(5) [of i ds] by (auto simp: t(1) restrict_map_def)
  have l: "live ?t i = live s i" for i
  proof (cases "objects s i")
    case None
    then show ?thesis by (simp add: live_def t(1) restrict_map_def)
  next
    case (Some d)
    then show ?thesis using o [of i d] t(2) inv_s(5) [OF Some] by (auto simp: live_def t(1) restrict_map_def)
  qed
  have c: "calls_of i (trace ?t) = calls_of i (trace s)" for i by (simp add: t(4) calls_of_def)
  have "streams_inv ?t"
    unfolding streams_inv_def using inv_s o by (auto simp: t(2-5))
  moreover have "calls_inv ?t"
    using inv unfolding dispatcher_inv_def calls_inv_def by (simp add: l t(3) c)
  moreover have "handles_inv ?t"
    using inv by (simp add: dispatcher_inv_def handles_inv_def handles_used_def t(4,9))
  moreover have "ready_inv ?t"
    using inv by (auto simp: dispatcher_inv_def ready_inv_def t)
  moreover have "stats_inv c0 ?t"
    using inv by (simp add: dispatcher_inv_def stats_inv_def t(4,6,7) count_calls_def split: option.splits)
  ultimately show ?thesis by (simp add: dispatcher_inv_def)
qed

lemma pop_inv:
  assumes inv: "dispatcher_inv c0 s" and p: "posted s = cb # rest"
  shows "dispatcher_inv c0 (s\<lparr>posted := rest\<rparr>)"
    and "h \<in> set (start_handles [cb]) \<Longrightarrow> h \<notin> set (handles_used (s\<lparr>posted := rest\<rparr>))"
    and "event_dispatcher s"
proof -
  show ed: "event_dispatcher s" using inv p by (auto simp: dispatcher_inv_def ready_inv_def)
  have hu: "handles_used s = start_handles [cb] @ handles_used (s\<lparr>posted := rest\<rparr>)"
    using start_handles_append [of "[cb]" rest] by (simp add: handles_used_def pending_def ed p)
  then have "distinct (start_handles [cb] @ handles_used (s\<lparr>posted := rest\<rparr>))"
    using inv by (simp add: dispatcher_inv_def handles_inv_def)
  then show "dispatcher_inv c0 (s\<lparr>posted := rest\<rparr>)"
    and "h \<in> set (start_handles [cb]) \<Longrightarrow> h \<notin> set (handles_used (s\<lparr>posted := rest\<rparr>))"
    using idle_step_inv [OF inv, of "s\<lparr>posted := rest\<rparr>"] ed by (auto simp: idle_step_def)
qed

lemma run_callback_inv:
  assumes inv: "dispatcher_inv c0 s" and ed: "event_dispatcher s"
    and fresh: "\<And>h. h \<in> set (start_handles [cb]) \<Longrightarrow> h \<notin> set (handles_used s)"
    and step: "run_callback E s cb = Inr t"
  shows "dispatcher_inv c0 t"
proof (cases cb)
  case (StartStreamCb h cbs)
  then show ?thesis using run_startStream_inv [OF inv] fresh step by auto
next
  case (CancelStreamCb h)
  show ?thesis
  proof (cases "streams s h")
    case None
    then show ?thesis using step CancelStreamCb inv by (simp add: run_cancelStream_def getStream_def)
  next
    case (Some i)
    have "streams_inv s" using inv by (simp add: dispatcher_inv_def)
    then show ?thesis
      using step CancelStreamCb stream_step_inv [OF inv run_cancelStream_step [OF _ Some]] by simp
  qed
qed (use step ed in \<open>auto intro: idle_send_inv [OF inv ed] dest: send_idle\<close>)

lemma dispatcher_step_inv:
  assumes inv: "dispatcher_inv c0 s" and env: "env_ok c0 s ev" and step: "dispatcher_step E s ev = Inr t"
  shows "dispatcher_inv c0 t"
proof -
  have si: "streams_inv s" using inv by (simp add: dispatcher_inv_def)
  show ?thesis
  proof (cases ev)
    case RunPosted
    show ?thesis
    proof (cases "posted s")
      case Nil
      then show ?thesis using step RunPosted inv by simp
    next
      case (Cons cb rest)
      note pop = pop_inv [OF inv Cons]
      show ?thesis
        using run_callback_inv [OF pop(1), of cb E t] pop step RunPosted Cons by simp
    qed
  next
    case (FragmentDone n)
    then show ?thesis
      using step inv idle_step_inv [OF inv, of t]
      by (auto simp: idle_step_def dispatcher_inv_def handles_inv_def handles_used_def pending_def
          ready_inv_def split: if_splits)
  next
    case (SetPreferredNetwork n)
    then show ?thesis
      using step inv idle_step_inv [OF inv, of t]
      by (auto simp: idle_step_def dispatcher_inv_def handles_inv_def handles_used_def pending_def
          ready_inv_def)
  qed (use step env si inv in \<open>auto simp: startStream_def sendHeaders_def sendData_def sendTrailers_def
      cancelStream_def intro!: post_inv ready_keeps_inv clearDeferred_inv
      dest: stream_step_inv [OF inv encodeHeaders_step] stream_step_inv [OF inv encodeData_step]
        stream_step_inv [OF inv encodeTrailers_step] stream_step_inv [OF inv resetStream_step]\<close>)
qed

section \<open>Reachable states\<close>

definition initial_state :: "envoy_network_t \<Rightarrow> memory \<Rightarrow> ('h, 'b) http_dispatcher \<Rightarrow> bool" where
  "initial_state net m s \<longleftrightarrow> s = new_dispatcher net m"

interpretation disp: transition_system "initial_state net m" "env_ok c0" "dispatcher_step E"
  for net m c0 E .

lemma reach_inv: "disp.reach net m c0 E s \<Longrightarrow> dispatcher_inv c0 s"
  by (erule disp.invariant_rule) (auto simp: initial_state_def initial_inv intro: dispatcher_step_inv)

text \<open>The runs the contract permits from a new dispatcher.\<close>

lemma run_inv:
  assumes "disp.allowed_run c0 E (new_dispatcher net m) evs"
    and "disp.run E (new_dispatcher net m) evs = Inr s"
  shows "dispatcher_inv c0 s"
proof -
  have "disp.reach net m c0 E (new_dispatcher net m)"
    by (rule disp.reach_start) (simp add: initial_state_def)
  from disp.reach_run [OF this assms] show ?thesis by (rule reach_inv)
qed

definition sample_callbacks :: envoy_http_callbacks where
  "sample_callbacks = \<lparr>cb_table = 7, cb_context = 42\<rparr>"

definition sample_counters :: DispatcherStats where
  "sample_counters = \<lparr>stream_success = 0, stream_failure = 0, stream_cancel = 0\<rparr>"

text \<open>Two streams opened before the engine is ready; the first is cancelled, the second reset by the
  connection manager, which also resets the first one after the fact.\<close>

definition sample_events :: "('h, 'b) event list" where
  "sample_events =
     [StartStream 1 sample_callbacks, StartStream 2 sample_callbacks, CancelStream 1,
      Ready sample_counters, RunPosted, RunPosted, RunPosted,
      ResetStream 0 RemoteReset, ResetStream 1 RemoteReset, ClearDeferred]"

lemmas step_defs =
  startStream_def cancelStream_def post_def ready_def new_dispatcher_def run_startStream_def
  run_cancelStream_def getStream_def with_stream_def removeStream_def onCancel_def onError_def
  resetStream_def update_stats_def stats_def setResponseDetails_def emit_def new_callbacks_def
  clearDeferredDeleteList_def live_def handles_used_def pending_def

lemma sample_run:
  "disp.allowed_run sample_counters (list_envoy True) (new_dispatcher net m) sample_events"
  "\<exists>s. disp.run (list_envoy True) (new_dispatcher net m) sample_events = Inr s \<and> next_oid s = 2 \<and>
     \<not> live s 0 \<and> \<not> live s 1 \<and> calls_of 0 (trace s) = [on_cancel] \<and>
     (\<exists>st. d_stats s = Some st \<and> stream_cancel st = 1 \<and> stream_failure st = 1)"
  by (simp_all add: sample_events_def step_defs Let_def list_envoy_def calls_of_def sample_counters_def)

text \<open>Exactly one terminal callback per stream. In every run that keeps the contract, every stream
  that \<open>startStream\<close> opened is either still open, and then the platform has had no \<open>on_error\<close>,
  \<open>on_complete\<close> or \<open>on_cancel\<close> for it, or is closed, and then the calls the platform received for it
  end with one of the three and contain no other.\<close>

theorem exactly_one_terminal_callback:
  assumes "disp.allowed_run c0 E (new_dispatcher net m) evs"
    and "disp.run E (new_dispatcher net m) evs = Inr s" and "i < next_oid s"
  shows "if live s i then quiet (calls_of i (trace s)) else closed (calls_of i (trace s))"
  using run_inv [OF assms(1,2)] assms(3) unfolding dispatcher_inv_def calls_inv_def by (auto split: if_splits)

theorem exactly_one_terminal_callback_witness:
  "\<exists>s. disp.run (list_envoy True) (new_dispatcher ENVOY_NET_WLAN sample_memory) sample_events = Inr s \<and>
     closed (calls_of 0 (trace s)) \<and> closed (calls_of 1 (trace s))"
proof -
  obtain s where s: "disp.run (list_envoy True) (new_dispatcher ENVOY_NET_WLAN sample_memory) sample_events = Inr s"
    "next_oid s = 2" "\<not> live s 0" "\<not> live s 1"
    using sample_run(2) by blast
  show ?thesis
    using exactly_one_terminal_callback [OF sample_run(1) s(1), of 0]
      exactly_one_terminal_callback [OF sample_run(1) s(1), of 1] s
    by simp
qed



end
