(* ===== verification/DispatcherRequests.thy ===== *)
theory DispatcherRequests
  imports DispatcherOps
begin

text \<open>
  The request side of the HTTP dispatcher: the queue that carries the platform's calls to the event
  loop, whether or not the engine is ready when they are made; the choice of the destination cluster;
  the request headers, data and trailers handed to the connection manager.
\<close>

section \<open>The queue of callbacks\<close>

text \<open>The interface of a queue whose consumer may not run yet: \<open>enq\<close> appends in any state, \<open>deq\<close>
  removes the head while the consumer runs.\<close>

locale fifo =
  fixes abs :: "'s \<Rightarrow> 'a list"
    and ok :: "'s \<Rightarrow> bool"
    and running :: "'s \<Rightarrow> bool"
    and enq :: "'s \<Rightarrow> 'a \<Rightarrow> 's"
    and deq :: "'s \<Rightarrow> ('a \<times> 's) option"
  assumes abs_enq: "ok s \<Longrightarrow> abs (enq s x) = abs s @ [x]"
    and ok_enq: "ok s \<Longrightarrow> ok (enq s x)"
    and running_enq: "running (enq s x) = running s"
    and deq_None: "ok s \<Longrightarrow> running s \<Longrightarrow> deq s = None \<Longrightarrow> abs s = []"
    and deq_Some: "ok s \<Longrightarrow> deq s = Some (x, t) \<Longrightarrow> abs s = x # abs t \<and> ok t \<and> running t = running s"
begin

fun drain :: "nat \<Rightarrow> 's \<Rightarrow> 'a list \<times> 's" where
  "drain 0 s = ([], s)"
| "drain (Suc n) s = (case deq s of None \<Rightarrow> ([], s) | Some (x, t) \<Rightarrow> (let (xs, u) = drain n t in (x # xs, u)))"

lemma abs_enq_all: "ok s \<Longrightarrow> abs (fold (\<lambda>x s. enq s x) xs s) = abs s @ xs"
  by (induction xs arbitrary: s) (simp_all add: abs_enq ok_enq)

lemma running_enq_all: "running (fold (\<lambda>x s. enq s x) xs s) = running s"
  by (induction xs arbitrary: s) (simp_all add: running_enq)

lemma ok_enq_all: "ok s \<Longrightarrow> ok (fold (\<lambda>x s. enq s x) xs s)"
  by (induction xs arbitrary: s) (simp_all add: ok_enq)

lemma drain_order:
  "ok s \<Longrightarrow> running s \<Longrightarrow> fst (drain n s) = take n (abs s) \<and> abs (snd (drain n s)) = drop n (abs s)"
proof (induction n arbitrary: s)
  case 0
  then show ?case by simp
next
  case (Suc n)
  show ?case
  proof (cases "deq s")
    case None
    then show ?thesis using deq_None [OF Suc.prems] by simp
  next
    case (Some p)
    then obtain x t where p: "deq s = Some (x, t)" by (cases p) auto
    with deq_Some [OF Suc.prems(1) p] Suc.IH [of t] Suc.prems(2) show ?thesis
      by (auto simp: split_beta)
  qed
qed

end

definition run_next :: "('h, 'b) http_dispatcher \<Rightarrow> (post_cb \<times> ('h, 'b) http_dispatcher) option" where
  "run_next s = (case posted s of [] \<Rightarrow> None | cb # rest \<Rightarrow> Some (cb, s\<lparr>posted := rest\<rparr>))"

definition queue_ok :: "('h, 'b) http_dispatcher \<Rightarrow> bool" where
  "queue_ok s \<longleftrightarrow> (\<not> event_dispatcher s \<longrightarrow> posted s = [])"

interpretation postq: fifo pending queue_ok event_dispatcher post run_next
  by unfold_locales
    (auto simp: pending_def post_def queue_ok_def run_next_def split: list.splits if_splits)

lemma ready_keeps_pending: "queue_ok s \<Longrightarrow> \<not> event_dispatcher s \<Longrightarrow> pending (ready s c) = pending s"
  by (simp add: pending_def ready_def queue_ok_def)

fun api_call :: "('h, 'b) event \<Rightarrow> post_cb list" where
  "api_call (StartStream h cbs) = [StartStreamCb h cbs]"
| "api_call (SendHeaders h hs es) = [SendHeadersCb h hs es]"
| "api_call (SendData h d es) = [SendDataCb h d es]"
| "api_call (SendTrailers h hs) = [SendTrailersCb h hs]"
| "api_call (CancelStream h) = [CancelStreamCb h]"
| "api_call _ = []"

definition executed_step :: "('h, 'b) http_dispatcher \<Rightarrow> ('h, 'b) event \<Rightarrow> post_cb list" where
  "executed_step s ev = (case ev of RunPosted \<Rightarrow> take 1 (posted s) | _ \<Rightarrow> [])"

fun executed ::
  "('h, 'b) envoy \<Rightarrow> ('h, 'b) http_dispatcher \<Rightarrow> ('h, 'b) event list \<Rightarrow> post_cb list" where
  "executed E s [] = []"
| "executed E s (ev # evs) = executed_step s ev @
     (case dispatcher_step E s ev of Inl a \<Rightarrow> [] | Inr t \<Rightarrow> executed E t evs)"

lemma stream_step_pending: "stream_step s i es t \<Longrightarrow> pending t = pending s"
  by (auto simp: stream_step_def frame_eq_def pending_def)

lemma run_callback_pending:
  assumes inv: "dispatcher_inv c0 s" and ed: "event_dispatcher s" and step: "run_callback E s cb = Inr t"
  shows "pending t = pending s"
proof (cases cb)
  case (StartStreamCb h cbs)
  then show ?thesis
    using step by (auto simp: run_startStream_def Let_def pending_def emit_def split: if_splits)
next
  case (CancelStreamCb h)
  have si: "streams_inv s" using inv by (simp add: dispatcher_inv_def)
  show ?thesis
  proof (cases "streams s h")
    case None
    then show ?thesis using step CancelStreamCb by (simp add: closed_handle_ignored)
  next
    case (Some i)
    then show ?thesis
      using step CancelStreamCb by (auto dest: stream_step_pending [OF run_cancelStream_step [OF _ Some si]])
  qed
qed (use step ed in \<open>auto dest: send_idle\<close>)

lemma pending_step:
  assumes inv: "dispatcher_inv c0 s" and env: "env_ok c0 s ev" and step: "dispatcher_step E s ev = Inr t"
  shows "pending s @ api_call ev = executed_step s ev @ pending t"
proof -
  have si: "streams_inv s" and q: "queue_ok s"
    using inv by (auto simp: dispatcher_inv_def ready_inv_def queue_ok_def)
  show ?thesis
  proof (cases ev)
    case RunPosted
    show ?thesis
    proof (cases "posted s")
      case Nil
      then show ?thesis using step RunPosted by (simp add: executed_step_def)
    next
      case (Cons cb rest)
      note pop = pop_inv [OF inv Cons]
      have "pending t = pending (s\<lparr>posted := rest\<rparr>)"
        using run_callback_pending [OF pop(1)] pop(3) step RunPosted Cons by simp
      then show ?thesis using Cons RunPosted pop(3) by (simp add: executed_step_def pending_def)
    qed
  next
    case (Ready c)
    then show ?thesis using step env ready_keeps_pending [OF q] by (auto simp: executed_step_def)
  next
    case (EncodeHeaders i h es)
    then show ?thesis
      using step env by (auto simp: executed_step_def dest!: stream_step_pending [OF encodeHeaders_step])
  next
    case (EncodeData i b es)
    then show ?thesis
      using step env by (auto simp: executed_step_def dest!: stream_step_pending [OF encodeData_step])
  next
    case (EncodeTrailers i h)
    then show ?thesis
      using step env by (auto simp: executed_step_def dest!: stream_step_pending [OF encodeTrailers_step])
  next
    case (ResetStream i r)
    then show ?thesis
      using step env by (auto simp: executed_step_def dest!: stream_step_pending [OF resetStream_step [OF _ _ si]])
  next
    case (FragmentDone n)
    then show ?thesis using step by (auto simp: executed_step_def pending_def split: if_splits)
  next
    case ClearDeferred
    then show ?thesis
      using step by (auto simp: executed_step_def pending_def clearDeferredDeleteList_def)
  next
    case (SetPreferredNetwork n)
    then show ?thesis using step by (auto simp: executed_step_def pending_def)
  qed (use step in \<open>auto simp: executed_step_def startStream_def sendHeaders_def sendData_def
      sendTrailers_def cancelStream_def postq.abs_enq [OF q]\<close>)
qed

lemma pending_run:
  "dispatcher_inv c0 s \<Longrightarrow> disp.allowed_run c0 E s evs \<Longrightarrow> disp.run E s evs = Inr t \<Longrightarrow>
     pending s @ concat (map api_call evs) = executed E s evs @ pending t"
proof (induction evs arbitrary: s)
  case Nil
  then show ?case by simp
next
  case (Cons ev evs)
  then obtain u where u: "dispatcher_step E s ev = Inr u" "disp.run E u evs = Inr t" by auto
  with Cons.prems have env: "env_ok c0 s ev" "disp.allowed_run c0 E u evs" by auto
  have "pending u @ concat (map api_call evs) = executed E u evs @ pending t"
    using Cons.IH [OF dispatcher_step_inv [OF Cons.prems(1) env(1) u(1)] env(2) u(2)] .
  with pending_step [OF Cons.prems(1) env(1) u(1)] u(1) show ?case
    by (metis (no_types, lifting) append.assoc concat.simps(2) executed.simps(2) list.simps(9) old.sum.simps(6))
qed

text \<open>C12. The calls of the platform are executed in the order in which they were made, each exactly
  once, whether they were made before or after the engine became ready: at any point the callbacks
  that have run, followed by those still queued, are the calls made so far.\<close>

theorem calls_run_in_order:
  assumes "disp.allowed_run c0 E (new_dispatcher net m) evs"
    and "disp.run E (new_dispatcher net m) evs = Inr s"
  shows "executed E (new_dispatcher net m) evs @ pending s = concat (map api_call evs)"
  using pending_run [OF initial_inv assms] by (simp add: pending_def new_dispatcher_def)

theorem calls_run_in_order_witness:
  "\<exists>s. disp.run (list_envoy True) (new_dispatcher ENVOY_NET_WLAN sample_memory) sample_events = Inr s \<and>
     executed (list_envoy True) (new_dispatcher ENVOY_NET_WLAN sample_memory) sample_events @ pending s =
       [StartStreamCb 1 sample_callbacks, StartStreamCb 2 sample_callbacks, CancelStreamCb 1]"
proof -
  obtain s where s: "disp.run (list_envoy True) (new_dispatcher ENVOY_NET_WLAN sample_memory) sample_events = Inr s"
    using sample_run(2) by blast
  show ?thesis
    using calls_run_in_order [OF sample_run(1) s] s
    by (simp add: sample_events_def del: executed.simps disp.run.simps)
qed

section \<open>The destination cluster\<close>

lemma lower_constants:
  "map ascii_lower ''x-envoy-mobile-cluster'' = ''x-envoy-mobile-cluster''"
  "map ascii_lower ''x-envoy-mobile-upstream-protocol'' = ''x-envoy-mobile-upstream-protocol''"
  by (simp_all add: ascii_lower_def)

lemma lower_header_constants:
  assumes "header_map_laws H"
  shows "LowerCaseString H ClusterHeader = ClusterHeader" "LowerCaseString H H2UpstreamHeader = H2UpstreamHeader"
  using lower_constants by (simp_all only: header_map_lawsD(10) [OF assms] ClusterHeader_def H2UpstreamHeader_def)

lemma cluster_header_differs: "ClusterHeader \<noteq> H2UpstreamHeader" "ClusterHeader \<noteq> ''x-forwarded-proto''"
  "H2UpstreamHeader \<noteq> ''x-forwarded-proto''"
  by (simp_all add: ClusterHeader_def H2UpstreamHeader_def)

definition expected_cluster :: "envoy_network_t \<Rightarrow> string list \<Rightarrow> string" where
  "expected_cluster net protocol =
     (case net of ENVOY_NET_WLAN \<Rightarrow> ''base_wlan'' | ENVOY_NET_WWAN \<Rightarrow> ''base_wwan'' | _ \<Rightarrow> ''base'') @
     (if take 1 protocol = [''http2''] then ''_h2'' else [])"

lemma cluster_name_expected:
  "cluster_name net (take 1 protocol = [''http2'']) = expected_cluster net protocol"
  by (simp add: cluster_name_def expected_cluster_def BaseCluster_def BaseWlanCluster_def BaseWwanCluster_def
      BaseClusterH2_def BaseWlanClusterH2_def BaseWwanClusterH2_def H2Suffix_def split: envoy_network_t.splits)

lemma keys_after_remove:
  assumes "header_map_laws H"
  shows "hm_keys H (hm_remove H h k) = hm_keys H h - {k}"
proof -
  have "set (hm_iterate H (hm_remove H h k)) = set (filter (\<lambda>(k', _). k' \<noteq> k) (hm_iterate H h))"
    using header_map_lawsD(6) [OF assms, of h k] by (metis mset_filter set_mset_mset)
  then show ?thesis by force
qed

lemma remove_absent:
  assumes "header_map_laws H" "hm_get H h k = []"
  shows "filter_mset (\<lambda>(k', _). k' \<noteq> k) (mset (hm_iterate H h)) = mset (hm_iterate H h)"
  using assms(2) by (force simp: hm_get_Nil [OF assms(1)] filter_mset_eq_conv)

lemma setDestinationCluster_entries:
  assumes laws: "header_map_laws (headers_api E)" and abs: "ClusterHeader \<notin> hm_keys (headers_api E) h"
    and dbg: "asserts_enabled E \<longrightarrow>
      hm_get (headers_api E) h H2UpstreamHeader \<in> {[], [''http1''], [''http2'']}"
  shows "\<exists>h'. setDestinationCluster E net h = Inr h' \<and>
    mset (hm_iterate (headers_api E) h') =
      add_mset (ClusterHeader, expected_cluster net (hm_get (headers_api E) h H2UpstreamHeader))
        (filter_mset (\<lambda>(k, _). k \<noteq> H2UpstreamHeader) (mset (hm_iterate (headers_api E) h)))"
proof -
  let ?H = "headers_api E"
  let ?vs = "hm_get ?H h H2UpstreamHeader"
  have add: "mset (hm_iterate ?H (hm_addReference ?H g ClusterHeader c)) =
      add_mset (ClusterHeader, c) (mset (hm_iterate ?H g))" if "ClusterHeader \<notin> hm_keys ?H g" for g c
    using header_map_lawsD(5) [OF laws, of g ClusterHeader c] that lower_header_constants(1) [OF laws]
      hm_get_Nil [OF laws] by simp
  show ?thesis
  proof (cases ?vs)
    case Nil
    then have "setDestinationCluster E net h = Inr (hm_addReference ?H h ClusterHeader (cluster_name net False))"
      by (simp add: setDestinationCluster_def lower_header_constants [OF laws] Let_def)
    with add [OF abs] show ?thesis
      using remove_absent [OF laws Nil] cluster_name_expected [of net ?vs] Nil by simp
  next
    case (Cons v vs)
    let ?g = "hm_remove ?H h H2UpstreamHeader"
    have "setDestinationCluster E net h =
        Inr (hm_addReference ?H ?g ClusterHeader (cluster_name net (v = ''http2'')))"
      using dbg by (auto simp: setDestinationCluster_def lower_header_constants [OF laws] Let_def Cons)
    moreover have "ClusterHeader \<notin> hm_keys ?H ?g" using abs keys_after_remove [OF laws] by simp
    ultimately show ?thesis
      using add cluster_name_expected [of net ?vs] header_map_lawsD(6) [OF laws] Cons by simp
  qed
qed

lemma setDestinationCluster_refuses:
  assumes "header_map_laws (headers_api E)"
    and "hm_get (headers_api E) h H2UpstreamHeader \<notin> {[], [''http1''], [''http2'']}" "asserts_enabled E"
  shows "\<exists>msg. setDestinationCluster E net h = Inl (AssertFailure msg)"
proof -
  obtain v vs where "hm_get (headers_api E) h H2UpstreamHeader = v # vs"
    using assms(2) by (cases "hm_get (headers_api E) h H2UpstreamHeader") auto
  with assms show ?thesis
    by (auto simp: setDestinationCluster_def lower_header_constants [OF assms(1)] Let_def bindE_eq_Inl ASSERT_def)
qed

text \<open>C22. The destination cluster is \<open>base\<close>, \<open>base_wlan\<close> or \<open>base_wwan\<close> after the preferred
  network, with the suffix \<open>_h2\<close> exactly if the application asked for \<open>http2\<close>; the header that asks
  for the protocol is removed and every other header is kept. A debug build stops on any other
  protocol value; a release build falls back to HTTP/1.\<close>

theorem setDestinationCluster_correct:
  assumes "header_map_laws (headers_api E)" "ClusterHeader \<notin> hm_keys (headers_api E) h"
  shows "(hm_get (headers_api E) h H2UpstreamHeader \<in> {[], [''http1''], [''http2'']} \<or> \<not> asserts_enabled E \<longrightarrow>
      (\<exists>h'. setDestinationCluster E net h = Inr h' \<and>
        mset (hm_iterate (headers_api E) h') =
          add_mset (ClusterHeader, expected_cluster net (hm_get (headers_api E) h H2UpstreamHeader))
            (filter_mset (\<lambda>(k, _). k \<noteq> H2UpstreamHeader) (mset (hm_iterate (headers_api E) h))))) \<and>
    (hm_get (headers_api E) h H2UpstreamHeader \<notin> {[], [''http1''], [''http2'']} \<and> asserts_enabled E \<longrightarrow>
      (\<exists>msg. setDestinationCluster E net h = Inl (AssertFailure msg)))"
proof (intro conjI impI)
  assume "hm_get (headers_api E) h H2UpstreamHeader \<in> {[], [''http1''], [''http2'']} \<or> \<not> asserts_enabled E"
  then show "\<exists>h'. setDestinationCluster E net h = Inr h' \<and>
        mset (hm_iterate (headers_api E) h') =
          add_mset (ClusterHeader, expected_cluster net (hm_get (headers_api E) h H2UpstreamHeader))
            (filter_mset (\<lambda>(k, _). k \<noteq> H2UpstreamHeader) (mset (hm_iterate (headers_api E) h)))"
    using setDestinationCluster_entries [OF assms] by blast
next
  assume "hm_get (headers_api E) h H2UpstreamHeader \<notin> {[], [''http1''], [''http2'']} \<and> asserts_enabled E"
  then show "\<exists>msg. setDestinationCluster E net h = Inl (AssertFailure msg)"
    using setDestinationCluster_refuses [OF assms(1)] by blast
qed

theorem setDestinationCluster_correct_witness:
  "\<exists>h'. setDestinationCluster (list_envoy True) ENVOY_NET_WWAN
      [(''a'', ''b''), (''x-envoy-mobile-upstream-protocol'', ''http2'')] = Inr h' \<and>
    mset (hm_iterate list_header_map h') = {#(''x-envoy-mobile-cluster'', ''base_wwan_h2''), (''a'', ''b'')#}"
proof -
  let ?h = "[(''a'', ''b''), (''x-envoy-mobile-upstream-protocol'', ''http2'')]"
  have it: "hm_iterate list_header_map ?h = ?h"
    using lower_constants(2) by (simp add: list_header_map_def ascii_lower_def)
  have get: "hm_get list_header_map ?h H2UpstreamHeader = [''http2'']"
    by (simp only: header_map_lawsD(3) [OF list_header_map_laws] it) (simp add: H2UpstreamHeader_def)
  have api: "headers_api (list_envoy True) = list_header_map" by (simp add: list_envoy_def)
  from setDestinationCluster_correct [of "list_envoy True" ?h ENVOY_NET_WWAN]
  show ?thesis
    by (simp add: api list_header_map_laws it get)
      (simp add: ClusterHeader_def H2UpstreamHeader_def expected_cluster_def)
qed

section \<open>Requests\<close>

lemma toRequestHeaders_owned:
  assumes "owned_headers m hs kvs fp"
  shows "toRequestHeaders H m hs = Inr (add_all H (strings_of_pairs kvs) (hm_create H),
      drop_blocks m fp (pairs_size kvs + (if hs_headers hs = NULL then 0 else sizeof_envoy_header * length kvs)))"
    and "toRequestTrailers H m hs = toRequestHeaders H m hs"
  by (simp_all add: toRequestHeaders_def toRequestTrailers_def addCopy_loop_owned [OF assms]
      release_owned_headers [OF assms])

lemma get_of_entries:
  assumes "header_map_laws H" "mset (hm_iterate H h) = mset kvs" "distinct (map fst kvs)"
  shows "hm_get H h k = map snd (filter (\<lambda>(k', _). k' = k) kvs)"
proof -
  have m: "mset (hm_get H h k) = mset (map snd (filter (\<lambda>(k', _). k' = k) kvs))"
    by (simp only: hm_get_mset [OF assms(1)] assms(2) mset_map mset_filter)
  have "length (filter (\<lambda>(k', _). k' = k) kvs) \<le> 1"
    using assms(3) by (induction kvs) (force simp: filter_empty_conv)+
  then consider "filter (\<lambda>(k', _). k' = k) kvs = []" | x where "filter (\<lambda>(k', _). k' = k) kvs = [x]"
    by (cases "filter (\<lambda>(k', _). k' = k) kvs") auto
  then show ?thesis using m by cases auto
qed

definition request_entries ::
  "('h, 'b) envoy \<Rightarrow> envoy_network_t \<Rightarrow> (string \<times> string) list \<Rightarrow> (string \<times> string) multiset" where
  "request_entries E net kvs =
     add_mset (''x-forwarded-proto'', SchemeValues_Https E)
       (add_mset (ClusterHeader, expected_cluster net (map snd (filter (\<lambda>(k, _). k = H2UpstreamHeader) kvs)))
         (filter_mset (\<lambda>(k, _). k \<noteq> H2UpstreamHeader \<and> k \<noteq> ''x-forwarded-proto'') (mset kvs)))"

text \<open>C21. The callback of \<open>sendHeaders\<close> on an open stream hands Envoy exactly the headers of the
  application, keys in lower case, with the protocol header replaced by the cluster header and
  \<open>x-forwarded-proto\<close> set to https, and releases every block of the C struct; nothing else of the
  dispatcher changes.\<close>

theorem sendHeaders_decodes:
  assumes op: "open_stream E s i ds st" and dec: "request_decoder ds = Some d" and laws: "envoy_laws E"
    and own: "owned_headers (mem s) hs kvs fp"
    and dist: "distinct (map fst (lowered kvs))" and clu: "ClusterHeader \<notin> fst ` set (lowered kvs)"
    and proto: "asserts_enabled E \<longrightarrow>
      map snd (filter (\<lambda>(k, _). k = H2UpstreamHeader) (lowered kvs)) \<in> {[], [''http1''], [''http2'']}"
  shows "\<exists>internal. run_callback E s (SendHeadersCb (stream_handle ds) hs es) =
      Inr (emit (s\<lparr>mem := drop_blocks (mem s) fp (pairs_size kvs +
        (if hs_headers hs = NULL then 0 else sizeof_envoy_header * length kvs))\<rparr>) (DecodeHeaders d internal es)) \<and>
    mset (hm_iterate (headers_api E) internal) = request_entries E (preferred_network s) (lowered kvs)"
proof -
  let ?H = "headers_api E"
  let ?h = "add_all ?H (strings_of_pairs kvs) (hm_create ?H)"
  note L = envoy_lawsD(1) [OF laws] and o = open_streamD [OF op]
  have ms: "mset (hm_iterate ?H ?h) = mset (lowered kvs)" using add_all_create [OF L dist] .
  have get: "hm_get ?H ?h k = map snd (filter (\<lambda>(k', _). k' = k) (lowered kvs))" for k
    using get_of_entries [OF L ms dist] .
  have keys: "hm_keys ?H ?h = fst ` set (lowered kvs)" by (metis ms mset_eq_setD)
  obtain h' where h': "setDestinationCluster E (preferred_network s) ?h = Inr h'"
    "mset (hm_iterate ?H h') = add_mset (ClusterHeader, expected_cluster (preferred_network s)
        (hm_get ?H ?h H2UpstreamHeader))
      (filter_mset (\<lambda>(k, _). k \<noteq> H2UpstreamHeader) (mset (hm_iterate ?H ?h)))"
    using setDestinationCluster_entries [OF L, of ?h "preferred_network s"] clu proto
    unfolding keys get by blast
  have "mset (hm_iterate ?H (hm_setReferenceForwardedProto ?H h' (SchemeValues_Https E))) =
      request_entries E (preferred_network s) (lowered kvs)"
    unfolding request_entries_def header_map_lawsD(8) [OF L] h'(2) get ms
    using cluster_header_differs(2)
    by (auto simp: filter_filter_mset case_prod_unfold conj_commute intro!: filter_mset_cong)
  moreover have "run_sendHeaders E s (stream_handle ds) hs es =
      Inr (emit (s\<lparr>mem := drop_blocks (mem s) fp (pairs_size kvs +
        (if hs_headers hs = NULL then 0 else sizeof_envoy_header * length kvs))\<rparr>)
        (DecodeHeaders d (hm_setReferenceForwardedProto ?H h' (SchemeValues_Https E)) es))"
    using o dec by (simp add: run_sendHeaders_def getStream_def toRequestHeaders_owned [OF own] h'(1))
  ultimately show ?thesis by auto
qed

theorem sendHeaders_decodes_witness:
  "\<exists>internal t. run_callback (list_envoy True) sample_open (SendHeadersCb 1 sample_headers True) = Inr t \<and>
     new_effects sample_open t = [DecodeHeaders 0 internal True] \<and>
     mset (hm_iterate list_header_map internal) = {#(''x-forwarded-proto'', ''https''),
       (''x-envoy-mobile-cluster'', ''base_wlan''), (''a'', ''bc'')#}"
proof -
  have low: "lowered [([97], [98, 99])] = [(''a'', ''bc'')]"
    by (simp add: string_of_bytes_def char_of_byte_def ascii_lower_def char_of_eq_iff)
  have own: "owned_headers (mem sample_open) sample_headers [([97], [98, 99])] {1, 2, 3}"
    using sample_headers_owned by simp
  have api: "headers_api (list_envoy True) = list_header_map" "preferred_network sample_open = ENVOY_NET_WLAN"
    "SchemeValues_Https (list_envoy True) = ''https''"
    by (simp_all add: list_envoy_def sample_open_def new_dispatcher_def)
  from sendHeaders_decodes [OF sample_open_stream [of True] _ list_envoy_laws own, of 0 True,
      unfolded low api]
  show ?thesis
    by (simp add: sample_stream_def ClusterHeader_def H2UpstreamHeader_def request_entries_def
        expected_cluster_def api) fastforce
qed



end
