(* ===== verification/Engine.thy ===== *)
theory Engine
  imports DispatcherRequests
begin

text \<open>
  \<open>Envoy::Engine\<close> (\<open>src/library/common/engine.h\<close>, \<open>engine.cc\<close>) over \<open>MobileMainCommon\<close>
  (\<open>envoy_mobile_main_common.h\<close>, \<open>.cc\<close>): the life of the server on its own thread.

  Two threads act on an engine: the main thread, which executes \<open>Engine::run\<close>, and the platform's
  threads, which call the accessors and at the end the destructor. \<open>run_pc\<close> and \<open>dtor_pc\<close> are the
  places of the two; a block under \<open>mutex_\<close> is one step, \<open>cv_.wait\<close> and \<open>join\<close> are places where a
  thread stays until its guard holds, and the three \<open>reset\<close>s after the loop are steps of their own,
  because the accessors read the pointers without the mutex.

  The server (Envoy) is a parameter: what the parser of its options and its constructor do, whether its
  listener is an HTTP API listener, the counters it hands to \<open>generateStats\<close>, and
  \<open>sanitizeStatsName\<close>. The queue of its event dispatcher is \<open>loop_queue\<close> for the lambdas of this
  file; those of \<open>Http::Dispatcher\<close> are in its own state.
\<close>

section \<open>State\<close>

text \<open>A function pointer of the platform is null or a number.\<close>

record envoy_engine_callbacks =
  on_engine_running_fn :: "nat option"
  on_exit_fn :: "nat option"
  ec_context :: ptr

text \<open>\<open>MobileMainCommon\<close>: its options are parsed first, then the server is built from them, and then the
  body of the constructor turns signal handling off. Whether there is a \<open>Server::Instance\<close> is what
  \<open>server()\<close> returns.\<close>

datatype startup_exception =
  NoServingException | MalformedArgvException | EnvoyException | OtherException string

record OptionsImpl =
  option_args :: "string list"
  signal_handling :: bool

record MobileMainCommon =
  mmc_options :: OptionsImpl
  mmc_server :: bool

datatype startup =
    Constructed
  | ConstructedWithoutServer
  | ThrowsNoServingException
  | ThrowsMalformedArgvException
  | ThrowsEnvoyException
  | ThrowsOther string

datatype listener_lookup = NoApiListener | NotHttpListener | HttpListener

record server_api =
  OptionsImpl_ctor :: "string list \<Rightarrow> startup_exception option"
  MainCommonBase_ctor :: "OptionsImpl \<Rightarrow> startup_exception + bool"
  apiListener :: listener_lookup
  generateStats :: DispatcherStats
  sanitizeStatsName :: "string \<Rightarrow> string"

definition new_MobileMainCommon ::
  "server_api \<Rightarrow> string list \<Rightarrow> startup_exception + MobileMainCommon" where
  "new_MobileMainCommon V argv = (case OptionsImpl_ctor V argv of
     Some ex \<Rightarrow> Inl ex
   | None \<Rightarrow>
       (let options = \<lparr>option_args = argv, signal_handling = True\<rparr>
        in bindE (MainCommonBase_ctor V options) (\<lambda>has_server.
           Inr \<lparr>mmc_options = options\<lparr>signal_handling := False\<rparr>, mmc_server = has_server\<rparr>)))"

definition mmc_server_of :: "MobileMainCommon \<Rightarrow> bool" where
  "mmc_server_of c = mmc_server c"

text \<open>What \<open>Engine::run\<close> sees of the construction.\<close>

definition MobileMainCommon_ctor :: "server_api \<Rightarrow> string list \<Rightarrow> startup" where
  "MobileMainCommon_ctor V argv = (case new_MobileMainCommon V argv of
     Inr c \<Rightarrow> if mmc_server_of c then Constructed else ConstructedWithoutServer
   | Inl NoServingException \<Rightarrow> ThrowsNoServingException
   | Inl MalformedArgvException \<Rightarrow> ThrowsMalformedArgvException
   | Inl EnvoyException \<Rightarrow> ThrowsEnvoyException
   | Inl (OtherException msg) \<Rightarrow> ThrowsOther msg)"

datatype run_pc =
    RunStarting
  | RunLooping
  | RunLoopExited bool
  | RunScopeReset bool
  | RunMainReset bool
  | RunReturned envoy_status_t

datatype dtor_pc = NotDestroyed | DtorWaiting bool | DtorJoining | DtorDone

datatype metric_cb =
    CounterAdd string "64 word"
  | GaugeSet string "64 word"
  | GaugeAdd string "64 word"
  | GaugeSub string "64 word"

datatype engine_effect =
    OnEngineRunning nat ptr
  | OnExit nat ptr
  | Recorded metric_cb

text \<open>\<open>server_\<close> and \<open>event_dispatcher_\<close> are raw pointers into what \<open>main_common_\<close> owns: the model keeps
  whether they were set, and a use after \<open>main_common_\<close> is gone is \<open>UseAfterFree\<close>.
  \<open>event_dispatcher_\<close> has no initialiser.\<close>

record ('h, 'b) engine =
  client_scope :: bool
  engine_callbacks :: envoy_engine_callbacks
  http_dispatcher_obj :: "('h, 'b) http_dispatcher"
  main_common :: bool
  server :: bool
  postinit_callback_handler :: bool
  engine_event_dispatcher :: bool
  main_thread_joinable :: bool
  run_config :: string
  run_log_level :: string
  run_pc :: run_pc
  dtor_pc :: dtor_pc
  loop_queue :: "metric_cb list"
  exit_requested :: bool
  engine_trace :: "engine_effect list"

section \<open>Construction and the main thread\<close>

definition new_engine ::
  "envoy_engine_callbacks \<Rightarrow> string \<Rightarrow> string \<Rightarrow> envoy_network_t \<Rightarrow> memory \<Rightarrow> ('h, 'b) engine" where
  "new_engine cbs config log_level net m =
     \<lparr>client_scope = False, engine_callbacks = cbs, http_dispatcher_obj = new_dispatcher net m,
      main_common = False, server = False, postinit_callback_handler = False,
      engine_event_dispatcher = False, main_thread_joinable = True, run_config = config,
      run_log_level = log_level, run_pc = RunStarting, dtor_pc = NotDestroyed, loop_queue = [],
      exit_requested = False, engine_trace = []\<rparr>"

definition envoy_argv :: "string \<Rightarrow> string \<Rightarrow> string list" where
  "envoy_argv config log_level = [''envoy'', ''--config-yaml'', config, ''-l'', log_level]"

definition notifyAll :: "dtor_pc \<Rightarrow> dtor_pc" where
  "notifyAll pc = (case pc of DtorWaiting _ \<Rightarrow> DtorWaiting True | _ \<Rightarrow> pc)"

text \<open>The block under \<open>mutex_\<close>. A server without \<open>Server::Instance\<close> is what \<open>server()\<close> documents for
  validation mode. The early returns of the handlers skip the notification.\<close>

definition run_init :: "server_api \<Rightarrow> ('h, 'b) engine \<Rightarrow> abort + ('h, 'b) engine" where
  "run_init V s = (case MobileMainCommon_ctor V (envoy_argv (run_config s) (run_log_level s)) of
     Constructed \<Rightarrow> Inr (s\<lparr>main_common := True, engine_event_dispatcher := True,
       dtor_pc := notifyAll (dtor_pc s), postinit_callback_handler := True, run_pc := RunLooping\<rparr>)
   | ConstructedWithoutServer \<Rightarrow> Inl NullDereference
   | ThrowsNoServingException \<Rightarrow> Inr (s\<lparr>run_pc := RunReturned ENVOY_FAILURE\<rparr>)
   | ThrowsMalformedArgvException \<Rightarrow> Inr (s\<lparr>run_pc := RunReturned ENVOY_FAILURE\<rparr>)
   | ThrowsEnvoyException \<Rightarrow> Inr (s\<lparr>run_pc := RunReturned ENVOY_FAILURE\<rparr>)
   | ThrowsOther msg \<Rightarrow> Inl (UncaughtException msg))"

text \<open>The \<open>PostInit\<close> callback. Dereferencing the empty optional of \<open>apiListener()\<close> is undefined;
  \<open>value()\<close> of the empty one of \<open>http()\<close> throws.\<close>

definition run_postinit ::
  "('h, 'b) envoy \<Rightarrow> server_api \<Rightarrow> ('h, 'b) engine \<Rightarrow> abort + ('h, 'b) engine" where
  "run_postinit E V s =
     (let s1 = s\<lparr>server := True, client_scope := True\<rparr> in
      case apiListener V of
        NoApiListener \<Rightarrow> Inl InvalidAccess
      | NotHttpListener \<Rightarrow>
          bindE (ASSERT (asserts_enabled E) False ''api_listener.has_value()'') (\<lambda>_.
          Inl (UncaughtException ''bad_optional_access''))
      | HttpListener \<Rightarrow>
          let s2 = s1\<lparr>http_dispatcher_obj := ready (http_dispatcher_obj s1) (generateStats V)\<rparr> in
          Inr (case on_engine_running_fn (engine_callbacks s2) of
                 None \<Rightarrow> s2
               | Some f \<Rightarrow> s2\<lparr>engine_trace := engine_trace s2 @
                   [OnEngineRunning f (ec_context (engine_callbacks s2))]\<rparr>))"

text \<open>A lambda of the \<open>record\<close> functions, run by the event loop.\<close>

definition run_metric :: "('h, 'b) engine \<Rightarrow> abort + ('h, 'b) engine" where
  "run_metric s = (case loop_queue s of
     [] \<Rightarrow> Inr s
   | cb # rest \<Rightarrow>
       if \<not> client_scope s then Inl NullDereference
       else Inr (s\<lparr>loop_queue := rest, engine_trace := engine_trace s @ [Recorded cb]\<rparr>))"

text \<open>\<open>main_common_->run()\<close> returns; then the resets, in the order of the source. What the destroyed
  event dispatcher had queued is dropped.\<close>

definition run_loop_exit :: "('h, 'b) engine \<Rightarrow> bool \<Rightarrow> ('h, 'b) engine" where
  "run_loop_exit s run_success = s\<lparr>run_pc := RunLoopExited run_success\<rparr>"

definition run_reset_scope :: "('h, 'b) engine \<Rightarrow> bool \<Rightarrow> ('h, 'b) engine" where
  "run_reset_scope s run_success =
     s\<lparr>postinit_callback_handler := False, client_scope := False, run_pc := RunScopeReset run_success\<rparr>"

definition run_reset_main :: "('h, 'b) engine \<Rightarrow> bool \<Rightarrow> ('h, 'b) engine" where
  "run_reset_main s run_success =
     s\<lparr>main_common := False, loop_queue := [],
       http_dispatcher_obj := (http_dispatcher_obj s)\<lparr>posted := []\<rparr>, run_pc := RunMainReset run_success\<rparr>"

definition run_finish :: "('h, 'b) engine \<Rightarrow> bool \<Rightarrow> abort + ('h, 'b) engine" where
  "run_finish s run_success = (case on_exit_fn (engine_callbacks s) of
     None \<Rightarrow> Inl NullDereference
   | Some f \<Rightarrow> Inr (s\<lparr>
       engine_trace := engine_trace s @ [OnExit f (ec_context (engine_callbacks s))],
       run_pc := RunReturned (if run_success then ENVOY_SUCCESS else ENVOY_FAILURE)\<rparr>))"

section \<open>The destructor\<close>

definition dtor_exit_loop :: "('h, 'b) envoy \<Rightarrow> ('h, 'b) engine \<Rightarrow> abort + ('h, 'b) engine" where
  "dtor_exit_loop E s =
     bindE (ASSERT (asserts_enabled E) (main_common s) ''main_common_'') (\<lambda>_.
     if \<not> engine_event_dispatcher s then Inl UninitialisedRead
     else if \<not> main_common s then Inl UseAfterFree
     else Inr (s\<lparr>exit_requested := True, dtor_pc := DtorJoining\<rparr>))"

definition dtor_enter :: "('h, 'b) envoy \<Rightarrow> ('h, 'b) engine \<Rightarrow> abort + ('h, 'b) engine" where
  "dtor_enter E s =
     (if \<not> main_thread_joinable s then Inr (s\<lparr>dtor_pc := DtorDone\<rparr>)
      else if \<not> main_common s then Inr (s\<lparr>dtor_pc := DtorWaiting False\<rparr>)
      else dtor_exit_loop E s)"

definition dtor_join :: "('h, 'b) engine \<Rightarrow> ('h, 'b) engine" where
  "dtor_join s = s\<lparr>main_thread_joinable := False, dtor_pc := DtorDone\<rparr>"

section \<open>The accessors\<close>

text \<open>The common shape of the four \<open>record\<close> functions: the guard, then a lambda posted to the server's
  dispatcher.\<close>

definition post_metric ::
  "('h, 'b) engine \<Rightarrow> metric_cb \<Rightarrow> abort + envoy_status_t \<times> ('h, 'b) engine" where
  "post_metric s cb =
     (if server s \<and> client_scope s
      then if main_common s then Inr (ENVOY_SUCCESS, s\<lparr>loop_queue := loop_queue s @ [cb]\<rparr>)
           else Inl UseAfterFree
      else Inr (ENVOY_FAILURE, s))"

definition recordCounterInc ::
  "server_api \<Rightarrow> ('h, 'b) engine \<Rightarrow> string \<Rightarrow> 64 word \<Rightarrow> abort + envoy_status_t \<times> ('h, 'b) engine" where
  "recordCounterInc V s elements cnt = post_metric s (CounterAdd (sanitizeStatsName V elements) cnt)"

definition recordGaugeSet ::
  "server_api \<Rightarrow> ('h, 'b) engine \<Rightarrow> string \<Rightarrow> 64 word \<Rightarrow> abort + envoy_status_t \<times> ('h, 'b) engine" where
  "recordGaugeSet V s elements value = post_metric s (GaugeSet (sanitizeStatsName V elements) value)"

definition recordGaugeAdd ::
  "server_api \<Rightarrow> ('h, 'b) engine \<Rightarrow> string \<Rightarrow> 64 word \<Rightarrow> abort + envoy_status_t \<times> ('h, 'b) engine" where
  "recordGaugeAdd V s elements amount = post_metric s (GaugeAdd (sanitizeStatsName V elements) amount)"

definition recordGaugeSub ::
  "server_api \<Rightarrow> ('h, 'b) engine \<Rightarrow> string \<Rightarrow> 64 word \<Rightarrow> abort + envoy_status_t \<times> ('h, 'b) engine" where
  "recordGaugeSub V s elements amount = post_metric s (GaugeSub (sanitizeStatsName V elements) amount)"

text \<open>A call on \<open>httpDispatcher()\<close>. Once \<open>ready\<close> has run, \<open>Dispatcher::post\<close> follows its own pointer to
  the server's event dispatcher.\<close>

definition httpDispatcher ::
  "('h, 'b) engine \<Rightarrow> (('h, 'b) http_dispatcher \<Rightarrow> 'r \<times> ('h, 'b) http_dispatcher) \<Rightarrow>
   abort + 'r \<times> ('h, 'b) engine" where
  "httpDispatcher s call =
     (if event_dispatcher (http_dispatcher_obj s) \<and> \<not> main_common s then Inl UseAfterFree
      else case call (http_dispatcher_obj s) of (r, d) \<Rightarrow> Inr (r, s\<lparr>http_dispatcher_obj := d\<rparr>))"

section \<open>The engine as a transition system\<close>

datatype metric_call =
    RecordCounterInc string "64 word"
  | RecordGaugeSet string "64 word"
  | RecordGaugeAdd string "64 word"
  | RecordGaugeSub string "64 word"

fun record_metric ::
  "server_api \<Rightarrow> ('h, 'b) engine \<Rightarrow> metric_call \<Rightarrow> abort + envoy_status_t \<times> ('h, 'b) engine" where
  "record_metric V s (RecordCounterInc e n) = recordCounterInc V s e n"
| "record_metric V s (RecordGaugeSet e n) = recordGaugeSet V s e n"
| "record_metric V s (RecordGaugeAdd e n) = recordGaugeAdd V s e n"
| "record_metric V s (RecordGaugeSub e n) = recordGaugeSub V s e n"

datatype ('h, 'b) engine_event =
    RunInit
  | PostInit
  | RunMetric
  | LoopExit bool
  | ResetScope bool
  | ResetMain bool
  | Finish bool
  | Platform "('h, 'b) event"
  | Loop "('h, 'b) event"
  | PreferredNetwork envoy_network_t
  | Record metric_call
  | DtorEnter
  | DtorWake
  | DtorJoin

fun platform_event :: "('h, 'b) event \<Rightarrow> bool" where
  "platform_event (StartStream h cbs) = True"
| "platform_event (SendHeaders h hs es) = True"
| "platform_event (SendData h d es) = True"
| "platform_event (SendTrailers h hs) = True"
| "platform_event (CancelStream h) = True"
| "platform_event _ = False"

fun loop_event :: "('h, 'b) event \<Rightarrow> bool" where
  "loop_event (Ready c) = False"
| "loop_event (SetPreferredNetwork net) = False"
| "loop_event ev = (\<not> platform_event ev)"

fun platform_call_of ::
  "('h, 'b) event \<Rightarrow> ('h, 'b) http_dispatcher \<Rightarrow> envoy_status_t \<times> ('h, 'b) http_dispatcher" where
  "platform_call_of (StartStream h cbs) d = startStream d h cbs"
| "platform_call_of (SendHeaders h hs es) d = sendHeaders d h hs es"
| "platform_call_of (SendData h b es) d = sendData d h b es"
| "platform_call_of (SendTrailers h hs) d = sendTrailers d h hs"
| "platform_call_of (CancelStream h) d = cancelStream d h"
| "platform_call_of _ d = (ENVOY_FAILURE, d)"

fun engine_step ::
  "('h, 'b) envoy \<Rightarrow> server_api \<Rightarrow> ('h, 'b) engine \<Rightarrow> ('h, 'b) engine_event \<Rightarrow> abort + ('h, 'b) engine" where
  "engine_step E V s RunInit = run_init V s"
| "engine_step E V s PostInit = run_postinit E V s"
| "engine_step E V s RunMetric = run_metric s"
| "engine_step E V s (LoopExit b) = Inr (run_loop_exit s b)"
| "engine_step E V s (ResetScope b) = Inr (run_reset_scope s b)"
| "engine_step E V s (ResetMain b) = Inr (run_reset_main s b)"
| "engine_step E V s (Finish b) = run_finish s b"
| "engine_step E V s (Platform ev) =
     bindE (httpDispatcher s (platform_call_of ev)) (\<lambda>(_, t). Inr t)"
| "engine_step E V s (Loop ev) =
     bindE (dispatcher_step E (http_dispatcher_obj s) ev) (\<lambda>d. Inr (s\<lparr>http_dispatcher_obj := d\<rparr>))"
| "engine_step E V s (PreferredNetwork net) =
     Inr (s\<lparr>http_dispatcher_obj := (http_dispatcher_obj s)\<lparr>preferred_network := net\<rparr>\<rparr>)"
| "engine_step E V s (Record c) = bindE (record_metric V s c) (\<lambda>(_, t). Inr t)"
| "engine_step E V s DtorEnter = dtor_enter E s"
| "engine_step E V s DtorWake = dtor_exit_loop E s"
| "engine_step E V s DtorJoin = Inr (dtor_join s)"

text \<open>
  When an event can happen. The engine's own steps follow the two places. The callbacks of the HTTP
  dispatcher keep its contract (\<open>env_ok\<close>) and run only in the loop; the platform calls an engine only
  while it holds a reference, so before the destructor. Two behaviours of the surroundings are
  parameters: \<open>spurious\<close>, whether \<open>cv_.wait\<close> may return without a notification, and \<open>early_exit\<close>,
  whether the loop may end although the destructor did not ask for it, which
  \<open>envoy_mobile_main_common.cc\<close> calls unlikely only.
\<close>

fun engine_allowed ::
  "bool \<Rightarrow> bool \<Rightarrow> server_api \<Rightarrow> ('h, 'b) engine \<Rightarrow> ('h, 'b) engine_event \<Rightarrow> bool" where
  "engine_allowed spurious early_exit V s RunInit = (run_pc s = RunStarting)"
| "engine_allowed spurious early_exit V s PostInit =
     (run_pc s = RunLooping \<and> postinit_callback_handler s \<and> \<not> server s)"
| "engine_allowed spurious early_exit V s RunMetric = (run_pc s = RunLooping \<and> loop_queue s \<noteq> [])"
| "engine_allowed spurious early_exit V s (LoopExit b) =
     (run_pc s = RunLooping \<and> (exit_requested s \<or> early_exit))"
| "engine_allowed spurious early_exit V s (ResetScope b) = (run_pc s = RunLoopExited b)"
| "engine_allowed spurious early_exit V s (ResetMain b) = (run_pc s = RunScopeReset b)"
| "engine_allowed spurious early_exit V s (Finish b) = (run_pc s = RunMainReset b)"
| "engine_allowed spurious early_exit V s (Platform ev) =
     (dtor_pc s = NotDestroyed \<and> platform_event ev \<and>
      env_ok (generateStats V) (http_dispatcher_obj s) ev)"
| "engine_allowed spurious early_exit V s (Loop ev) =
     (run_pc s = RunLooping \<and> loop_event ev \<and>
      env_ok (generateStats V) (http_dispatcher_obj s) ev)"
| "engine_allowed spurious early_exit V s (PreferredNetwork net) = True"
| "engine_allowed spurious early_exit V s (Record c) = (dtor_pc s = NotDestroyed)"
| "engine_allowed spurious early_exit V s DtorEnter = (dtor_pc s = NotDestroyed)"
| "engine_allowed spurious early_exit V s DtorWake =
     (dtor_pc s = DtorWaiting True \<or> spurious \<and> dtor_pc s = DtorWaiting False)"
| "engine_allowed spurious early_exit V s DtorJoin =
     (dtor_pc s = DtorJoining \<and> (\<exists>st. run_pc s = RunReturned st))"

definition engine_start ::
  "envoy_engine_callbacks \<Rightarrow> string \<Rightarrow> string \<Rightarrow> envoy_network_t \<Rightarrow> memory \<Rightarrow> ('h, 'b) engine \<Rightarrow> bool" where
  "engine_start cbs config log_level net m s \<longleftrightarrow> s = new_engine cbs config log_level net m"

interpretation eng: transition_system
  "engine_start cbs config log_level net m" "engine_allowed spurious early_exit V" "engine_step E V"
  for cbs config log_level net m spurious early_exit V E .

end
