(* ===== verification/EventLoop.thy ===== *)
theory EventLoop
  imports EngineProps
begin

text \<open>
  The event loop gets through the dispatcher's queue: a callback of \<open>dispatcher.cc\<close> never posts another,
  so the loop is done with a queue after as many callbacks as it holds.
\<close>

fun control_cb :: "post_cb \<Rightarrow> bool" where
  "control_cb (StartStreamCb h cbs) = True"
| "control_cb (CancelStreamCb h) = True"
| "control_cb _ = False"

lemma run_posted_step:
  assumes inv: "dispatcher_inv c0 s" and p: "posted s = cb # rest" and step: "dispatcher_step E s RunPosted = Inr t"
  shows "dispatcher_inv c0 t \<and> event_dispatcher t \<and> posted t = rest"
proof -
  have t: "dispatcher_inv c0 t" by (rule dispatcher_step_inv [OF inv _ step]) simp
  have "pending s @ [] = [cb] @ pending t"
    using pending_step [OF inv _ step] p by (simp add: executed_step_def)
  moreover have "event_dispatcher s" by (rule pop_inv(3) [OF inv p])
  moreover from this have "event_dispatcher t"
    using loop_step_ready [OF inv _ _ step] by simp
  ultimately show ?thesis using t p by (simp add: pending_def)
qed

lemma drain_returns:
  "dispatcher_inv c0 s \<Longrightarrow> event_dispatcher s \<Longrightarrow> length (posted s) = n \<Longrightarrow> disp.run E s (replicate n RunPosted) = Inr t \<Longrightarrow>
     pending t = [] \<and> executed E s (replicate n RunPosted) = posted s"
proof (induction n arbitrary: s)
  case 0
  then show ?case by (auto simp: pending_def)
next
  case (Suc n)
  then obtain cb rest where p: "posted s = cb # rest" by (cases "posted s") auto
  from Suc.prems(4) obtain u where u: "dispatcher_step E s RunPosted = Inr u"
    "disp.run E u (replicate n RunPosted) = Inr t" by auto
  from run_posted_step [OF Suc.prems(1) p u(1)] Suc.IH [OF _ _ _ u(2)] Suc.prems(3) p u(1)
  show ?case by (simp add: executed_step_def del: dispatcher_step.simps)
qed

lemma drain_control:
  "dispatcher_inv c0 s \<Longrightarrow> isThreadSafe E \<Longrightarrow> length (posted s) = n \<Longrightarrow> list_all control_cb (posted s) \<Longrightarrow>
     \<exists>t. disp.run E s (replicate n RunPosted) = Inr t"
proof (induction n arbitrary: s)
  case (Suc n)
  then obtain cb rest where p: "posted s = cb # rest" by (cases "posted s") auto
  note pop = pop_inv(1,3) [OF Suc.prems(1) p]
  have "(\<exists>h cbs. cb = StartStreamCb h cbs) \<or> (\<exists>h. cb = CancelStreamCb h)"
    using Suc.prems(4) p by (cases cb) auto
  then obtain u where u: "dispatcher_step E s RunPosted = Inr u"
    using run_callback_control_abort [OF pop(1) _ Suc.prems(2), of cb] pop(2) p by auto
  from run_posted_step [OF Suc.prems(1) p u] Suc.IH [of u] Suc.prems(2-4) p u
  show ?case by (auto simp del: dispatcher_step.simps)
qed simp

text \<open>C13. The event loop gets to the end of the queue. In every reachable state of a dispatcher that is
  ready, if as many callbacks are run as are queued and none stops the process, the queue is empty and
  exactly the queued callbacks have run, in order; and a queue of starts and cancellations, whatever they
  name, always runs to its end.\<close>

theorem queue_drains:
  assumes "disp.allowed_run c0 E (new_dispatcher net m) evs"
    and "disp.run E (new_dispatcher net m) evs = Inr s" and "event_dispatcher s" and "isThreadSafe E"
  shows "(\<forall>t. disp.run E s (replicate (length (pending s)) RunPosted) = Inr t \<longrightarrow>
      pending t = [] \<and> executed E s (replicate (length (pending s)) RunPosted) = pending s) \<and>
    (list_all control_cb (pending s) \<longrightarrow>
      (\<exists>t. disp.run E s (replicate (length (pending s)) RunPosted) = Inr t \<and> pending t = []))"
proof -
  have inv: "dispatcher_inv c0 s" by (rule run_inv [OF assms(1,2)])
  have pend: "pending s = posted s" using assms(3) by (simp add: pending_def)
  show ?thesis
    using drain_returns [OF inv assms(3) refl, of E] drain_control [OF inv assms(4) refl] unfolding pend by blast
qed

theorem queue_drains_witness:
  "\<exists>s t. disp.run (list_envoy True) (new_dispatcher ENVOY_NET_WLAN sample_memory) (take 4 sample_events) = Inr s \<and>
     disp.run (list_envoy True) s (replicate 3 RunPosted) = Inr t \<and> pending t = [] \<and>
     executed (list_envoy True) s (replicate 3 RunPosted) =
       [StartStreamCb 1 sample_callbacks, StartStreamCb 2 sample_callbacks, CancelStreamCb 1]"
proof -
  let ?E = "list_envoy True" and ?d = "new_dispatcher ENVOY_NET_WLAN sample_memory :: (list_headers, byte list) http_dispatcher"
  obtain s where s: "disp.run ?E ?d (take 4 sample_events) = Inr s" "event_dispatcher s"
    "pending s = [StartStreamCb 1 sample_callbacks, StartStreamCb 2 sample_callbacks, CancelStreamCb 1]"
    by (simp add: sample_events_def step_defs)
  have "disp.allowed_run sample_counters ?E ?d (take 4 sample_events)"
    by (simp add: sample_events_def step_defs)
  moreover have "isThreadSafe ?E" by (simp add: list_envoy_def)
  moreover have "length (pending s) = 3" "list_all control_cb (pending s)" using s(3) by simp_all
  ultimately show ?thesis using queue_drains [OF _ s(1,2)] s by metis
qed

end
