(* ===== verification/EngineMetrics.thy ===== *)
theory EngineMetrics
  imports EngineProps
begin

text \<open>
  The platform's metrics (\<open>recordCounterInc\<close>, \<open>recordGaugeSet\<close>, \<open>recordGaugeAdd\<close>,
  \<open>recordGaugeSub\<close>). A call the engine accepts is executed on the client scope in the order of the
  calls; what is still queued when the server is destroyed is dropped.
\<close>

fun metric_of :: "server_api \<Rightarrow> metric_call \<Rightarrow> metric_cb" where
  "metric_of V (RecordCounterInc e n) = CounterAdd (sanitizeStatsName V e) n"
| "metric_of V (RecordGaugeSet e n) = GaugeSet (sanitizeStatsName V e) n"
| "metric_of V (RecordGaugeAdd e n) = GaugeAdd (sanitizeStatsName V e) n"
| "metric_of V (RecordGaugeSub e n) = GaugeSub (sanitizeStatsName V e) n"

fun accepted_step :: "server_api \<Rightarrow> ('h, 'b) engine \<Rightarrow> ('h, 'b) engine_event \<Rightarrow> metric_cb list" where
  "accepted_step V s (Record c) =
     (case record_metric V s c of Inr (ENVOY_SUCCESS, _) \<Rightarrow> [metric_of V c] | _ \<Rightarrow> [])"
| "accepted_step V s _ = []"

text \<open>The calls of a run that returned \<open>ENVOY_SUCCESS\<close>.\<close>

fun accepted ::
  "('h, 'b) envoy \<Rightarrow> server_api \<Rightarrow> ('h, 'b) engine \<Rightarrow> ('h, 'b) engine_event list \<Rightarrow> metric_cb list" where
  "accepted E V s [] = []"
| "accepted E V s (ev # evs) = accepted_step V s ev @
     (case engine_step E V s ev of Inl a \<Rightarrow> [] | Inr t \<Rightarrow> accepted E V t evs)"

fun recorded :: "engine_effect list \<Rightarrow> metric_cb list" where
  "recorded [] = []"
| "recorded (Recorded cb # es) = cb # recorded es"
| "recorded (e # es) = recorded es"

lemma recorded_append [simp]: "recorded (xs @ ys) = recorded xs @ recorded ys"
  by (induction xs rule: recorded.induct) auto

lemma record_metric_of: "record_metric V s c = post_metric s (metric_of V c)"
  by (cases c) (simp_all add: recordCounterInc_def recordGaugeSet_def recordGaugeAdd_def recordGaugeSub_def)

text \<open>A state's metrics: those executed and those queued.\<close>

definition metrics :: "('h, 'b) engine \<Rightarrow> metric_cb list" where
  "metrics s = recorded (engine_trace s) @ loop_queue s"

text \<open>Until \<open>main_common_\<close> is reset nothing is lost; afterwards nothing is accepted.\<close>

lemma metrics_step:
  assumes "pointers_inv s" and "server_starts V (run_config s) (run_log_level s)"
    and "engine_allowed False False V s ev" and "engine_step E V s ev = Inr t" and "\<forall>b. ev \<noteq> ResetMain b"
  shows "metrics t = metrics s @ accepted_step V s ev"
proof (cases ev)
  case (Record c)
  then show ?thesis
    using assms(4) by (auto simp: metrics_def record_metric_of post_metric_def split: if_splits)
next
  case (Platform e)
  from platform_stepD [OF assms(4) [unfolded Platform]] show ?thesis using Platform by (simp add: metrics_def)
qed ((use assms in \<open>auto simp: metrics_def run_init_def run_postinit_def run_metric_def
    run_loop_exit_def run_reset_scope_def run_finish_def dtor_exit_loop_def dtor_enter_def dtor_join_def
    server_starts_def Let_def split: if_splits list.splits option.splits\<close>)[1])+

fun past_reset :: "run_pc \<Rightarrow> bool" where
  "past_reset (RunMainReset b) = True"
| "past_reset (RunReturned st) = True"
| "past_reset pc = False"

lemma past_reset_step:
  assumes "past_reset (run_pc s)" "engine_allowed False False V s ev" "engine_step E V s ev = Inr t"
  shows "past_reset (run_pc t)"
proof (cases ev)
  case (Record c)
  from assms(3) [unfolded Record] show ?thesis by (rule record_stepE) (use assms(1) in simp_all)
next
  case (Platform e)
  from platform_stepD [OF assms(3) [unfolded Platform]] show ?thesis using assms(1) by simp
qed ((use assms in \<open>auto simp: run_finish_def dtor_exit_loop_def dtor_enter_def dtor_join_def
    split: if_splits option.splits\<close>)[1])+

lemma run_past_reset:
  assumes "past_reset (run_pc s)" "eng.allowed_run False False V E s evs" "eng.run E V s evs = Inr t"
  shows "past_reset (run_pc t)"
  using assms
proof (induction evs arbitrary: s)
  case (Cons ev evs)
  then show ?case using past_reset_step by fastforce
qed simp

lemma accepted_after_reset:
  assumes "engine_inv cbs config log_level s" and "server_starts V config log_level"
    and "past_reset (run_pc s)" and "eng.allowed_run False False V E s evs"
  shows "accepted E V s evs = []"
  using assms(1,3,4)
proof (induction evs arbitrary: s)
  case Nil
  then show ?case by simp
next
  case (Cons ev evs)
  have ok: "engine_allowed False False V s ev" using Cons.prems(3) by simp
  have "\<not> client_scope s"
    using Cons.prems(1,2) by (cases "run_pc s") (auto simp: engine_inv_def pointers_inv_def)
  then have "accepted_step V s ev = []"
    by (cases ev) (auto simp: record_metric_of post_metric_def)
  moreover have "accepted E V t evs = []" if "engine_step E V s ev = Inr t" for t
    using Cons.prems(3) that
    by (intro Cons.IH engine_inv_step [OF Cons.prems(1) assms(2) ok that] past_reset_step [OF Cons.prems(2) ok that])
      simp
  ultimately show ?case by (simp split: sum.splits)
qed

lemma metrics_run:
  assumes "engine_inv cbs config log_level s" and "server_starts V config log_level"
    and "eng.allowed_run False False V E s evs" and "eng.run E V s evs = Inr t"
  shows "\<exists>dropped. metrics s @ accepted E V s evs = metrics t @ dropped \<and>
    (\<not> past_reset (run_pc t) \<or> past_reset (run_pc s) \<longrightarrow> dropped = [])"
  using assms(1,3,4)
proof (induction evs arbitrary: s)
  case Nil
  then show ?case by simp
next
  case (Cons ev evs)
  from Cons.prems(3) obtain u where u: "engine_step E V s ev = Inr u" "eng.run E V u evs = Inr t"
    by auto
  have ok: "engine_allowed False False V s ev" and run: "eng.allowed_run False False V E u evs"
    using Cons.prems(2) u(1) by auto
  have inv: "pointers_inv s" and starts: "server_starts V (run_config s) (run_log_level s)"
    using Cons.prems(1) assms(2) by (auto simp: engine_inv_def)
  have inv_u: "engine_inv cbs config log_level u"
    by (rule engine_inv_step [OF Cons.prems(1) assms(2) ok u(1)])
  from Cons.IH [OF inv_u run u(2)] obtain d where
    d: "metrics u @ accepted E V u evs = metrics t @ d"
      "\<not> past_reset (run_pc t) \<or> past_reset (run_pc u) \<longrightarrow> d = []"
    by blast
  show ?case
  proof (cases "\<exists>b. ev = ResetMain b")
    case False
    then have m: "metrics u = metrics s @ accepted_step V s ev" using metrics_step [OF inv starts ok u(1)] by blast
    have "past_reset (run_pc s) \<Longrightarrow> past_reset (run_pc u)" by (rule past_reset_step [OF _ ok u(1)])
    with d(2) have "\<not> past_reset (run_pc t) \<or> past_reset (run_pc s) \<longrightarrow> d = []" by blast
    moreover have "metrics s @ accepted E V s (ev # evs) = metrics t @ d" using d(1) m u(1) by simp
    ultimately show ?thesis by blast
  next
    case True
    then obtain b where ev: "ev = ResetMain b" by blast
    with ok u(1) have b: "run_pc s = RunScopeReset b" "u = run_reset_main s b" by simp_all
    have past: "past_reset (run_pc u)" using b by (simp add: run_reset_main_def)
    note none = accepted_after_reset [OF inv_u assms(2) past run]
    have "metrics u = recorded (engine_trace s)" by (simp add: metrics_def b(2) run_reset_main_def)
    with d past none have "metrics t = recorded (engine_trace s)" by simp
    then have "metrics s @ accepted E V s (ev # evs) = metrics t @ loop_queue s"
      using ev b(2) none by (simp add: metrics_def)
    moreover have "past_reset (run_pc t)" "\<not> past_reset (run_pc s)"
      using run_past_reset [OF past run u(2)] b(1) by simp_all
    ultimately show ?thesis by blast
  qed
qed

text \<open>C5. Metrics are executed in order. Along every run of an engine whose server starts, the metrics
  executed on the client scope, then those still queued, are the calls that returned
  \<open>ENVOY_SUCCESS\<close>, in the order of the calls, up to the ones that the destruction of the server drops; none
  is lost before that.\<close>

theorem metrics_recorded_in_order:
  assumes "server_starts V config log_level"
    and "eng.allowed_run False False V E (new_engine cbs config log_level net m) evs"
    and "eng.run E V (new_engine cbs config log_level net m) evs = Inr t"
  shows "\<exists>dropped. accepted E V (new_engine cbs config log_level net m) evs =
      recorded (engine_trace t) @ loop_queue t @ dropped \<and> (main_common t \<longrightarrow> dropped = [])"
proof -
  let ?s = "new_engine cbs config log_level net m :: ('a, 'b) engine"
  have inv: "engine_inv cbs config log_level t"
    by (rule engine_reach_inv [OF eng.reach_run [OF eng.reach_start assms(2,3)] assms(1)]) (simp add: engine_start_def)
  have "metrics ?s = []" "\<not> past_reset (run_pc ?s)" by (simp_all add: metrics_def new_engine_def)
  with metrics_run [OF engine_start_inv assms] obtain d where
    "accepted E V ?s evs = metrics t @ d" "\<not> past_reset (run_pc t) \<longrightarrow> d = []"
    by auto
  moreover have "main_common t \<longrightarrow> \<not> past_reset (run_pc t)"
    using inv by (cases "run_pc t") (auto simp: engine_inv_def pointers_inv_def)
  ultimately show ?thesis by (auto simp: metrics_def)
qed

theorem metrics_recorded_in_order_witness:
  "accepted (list_envoy True) sample_server sample_engine
     [Record (RecordCounterInc ''early'' 1), RunInit, PostInit, Record (RecordCounterInc ''a'' 2),
      Record (RecordGaugeSub ''g'' 3), RunMetric] = [CounterAdd ''a'' 2, GaugeSub ''g'' 3]"
proof -
  let ?evs = "[Record (RecordCounterInc ''early'' 1), RunInit, PostInit, Record (RecordCounterInc ''a'' 2),
      Record (RecordGaugeSub ''g'' 3), RunMetric] :: (list_headers, byte list) engine_event list"
  obtain t where t: "eng.run (list_envoy True) sample_server sample_engine ?evs = Inr t"
    "recorded (engine_trace t) = [CounterAdd ''a'' 2]" "loop_queue t = [GaugeSub ''g'' 3]" "main_common t"
    by (simp add: life_defs Let_def)
  have "eng.allowed_run False False sample_server (list_envoy True) sample_engine ?evs"
    by (simp add: life_defs Let_def)
  from metrics_recorded_in_order [OF sample_server_starts this t(1)] t(2-) show ?thesis by auto
qed

end
