(* ===== verification/EngineFaults.thy ===== *)
theory EngineFaults
  imports EngineMetrics
begin

text \<open>
  The engine in surroundings that misbehave: a server that cannot be constructed, and a loop that ends
  although nobody asked for it. In both the destructor waits for a notification that never comes,
  since \<open>cv_.notifyAll\<close> is called on a successful start only and the predicate \<open>main_common_\<close> also
  becomes false at the end of \<open>run\<close>.
\<close>

section \<open>The server does not start\<close>

definition startup_throws :: "server_api \<Rightarrow> string \<Rightarrow> string \<Rightarrow> bool" where
  "startup_throws V config log_level \<longleftrightarrow>
     MobileMainCommon_ctor V (envoy_argv config log_level) \<in>
       {ThrowsNoServingException, ThrowsMalformedArgvException, ThrowsEnvoyException}"

definition unstarted :: "string \<Rightarrow> string \<Rightarrow> ('h, 'b) engine \<Rightarrow> bool" where
  "unstarted config log_level s \<longleftrightarrow>
     run_config s = config \<and> run_log_level s = log_level \<and> \<not> main_common s \<and> \<not> server s \<and>
     \<not> engine_event_dispatcher s \<and> main_thread_joinable s \<and> engine_trace s = [] \<and>
     run_pc s \<in> {RunStarting, RunReturned ENVOY_FAILURE} \<and> dtor_pc s \<in> {NotDestroyed, DtorWaiting False}"

lemma unstarted_step:
  assumes inv: "unstarted config log_level s" and starts: "startup_throws V config log_level"
    and ok: "engine_allowed False early_exit V s ev" and step: "engine_step E V s ev = Inr t"
  shows "unstarted config log_level t"
proof (cases ev)
  case (Record c)
  from step [unfolded Record] show ?thesis
    by (rule record_stepE) (use inv in \<open>auto simp: unstarted_def\<close>)
next
  case (Platform e)
  from platform_stepD [OF step [unfolded Platform]] inv show ?thesis by (simp add: unstarted_def)
next
  case DtorEnter
  then show ?thesis using inv step by (auto simp: unstarted_def dtor_enter_def)
qed ((use inv step ok starts in \<open>auto simp: unstarted_def run_init_def startup_throws_def\<close>)[1])+

lemma unstarted_reach:
  assumes "eng.reach cbs config log_level net m False early_exit V E s" "startup_throws V config log_level"
  shows "unstarted config log_level s"
  by (rule eng.invariant_rule [OF assms(1)])
    (use assms(2) in \<open>auto simp: engine_start_def intro: unstarted_step, simp add: unstarted_def new_engine_def\<close>)

text \<open>C6. A server that does not start strands its owner. When the construction of the server throws
  one of the three exceptions that \<open>Engine::run\<close> catches, then in every reachable state no callback has
  been made, also not \<open>on_exit\<close>, every metric is refused, and the destructor has not got past its wait, which
  nothing will end; a wait that returned on its own would run into the \<open>ASSERT\<close>, or in a release build
  read the uninitialised \<open>event_dispatcher_\<close>.\<close>

theorem failed_startup_hangs_destructor:
  assumes "eng.reach cbs config log_level net m False early_exit V E s" and "startup_throws V config log_level"
  shows "engine_trace s = [] \<and> (dtor_pc s = NotDestroyed \<or> dtor_pc s = DtorWaiting False) \<and>
    record_metric V s c = Inr (ENVOY_FAILURE, s) \<and> \<not> engine_allowed False early_exit V s DtorWake \<and>
    engine_step E V s DtorWake =
      Inl (if asserts_enabled E then AssertFailure ''main_common_'' else UninitialisedRead)"
proof -
  have inv: "unstarted config log_level s" by (rule unstarted_reach [OF assms])
  then have "engine_trace s = []" "dtor_pc s = NotDestroyed \<or> dtor_pc s = DtorWaiting False"
    by (simp_all add: unstarted_def)
  moreover have "record_metric V s c = Inr (ENVOY_FAILURE, s)"
    using inv by (simp add: record_metric_of post_metric_def unstarted_def)
  moreover have "engine_step E V s DtorWake =
      Inl (if asserts_enabled E then AssertFailure ''main_common_'' else UninitialisedRead)"
    using inv by (simp add: dtor_exit_loop_def unstarted_def ASSERT_def)
  ultimately show ?thesis by auto
qed

definition broken_server :: server_api where
  "broken_server = sample_server\<lparr>MainCommonBase_ctor := (\<lambda>_. Inl EnvoyException)\<rparr>"

theorem failed_startup_hangs_destructor_witness:
  "\<exists>s. eng.run (list_envoy True) broken_server sample_engine [RunInit, DtorEnter] = Inr s \<and>
     run_pc s = RunReturned ENVOY_FAILURE \<and> dtor_pc s = DtorWaiting False \<and> engine_trace s = []"
proof -
  let ?evs = "[RunInit, DtorEnter] :: (list_headers, byte list) engine_event list"
  obtain s where s: "eng.run (list_envoy True) broken_server sample_engine ?evs = Inr s"
    "run_pc s = RunReturned ENVOY_FAILURE" "dtor_pc s \<noteq> NotDestroyed"
    by (simp add: life_defs broken_server_def Let_def)
  have "eng.allowed_run False False broken_server (list_envoy True) sample_engine ?evs"
    by (simp add: life_defs broken_server_def Let_def)
  moreover have "startup_throws broken_server ''config'' ''info''"
    by (simp add: startup_throws_def broken_server_def life_defs Let_def)
  ultimately show ?thesis
    using failed_startup_hangs_destructor [OF sample_engine_reach [OF _ s(1)]] s by blast
qed

section \<open>The loop ends by itself\<close>

lemma reach_pointers:
  assumes "eng.reach cbs config log_level net m spurious early_exit V E s" and "server_starts V config log_level"
  shows "pointers_inv s \<and> engine_args s = (cbs, config, log_level)"
proof (rule eng.invariant_rule [OF assms(1)])
  fix s :: "('a, 'b) engine"
  assume "engine_start cbs config log_level net m s"
  then show "pointers_inv s \<and> engine_args s = (cbs, config, log_level)"
    by (simp add: engine_start_def new_engine_def pointers_inv_def engine_args_def)
next
  fix s t :: "('a, 'b) engine" and ev
  assume inv: "pointers_inv s \<and> engine_args s = (cbs, config, log_level)"
    and ok: "engine_allowed spurious early_exit V s ev" and step: "engine_step E V s ev = Inr t"
  have "server_starts V (run_config s) (run_log_level s)" using inv assms(2) by (simp add: engine_args_def)
  with inv show "pointers_inv t \<and> engine_args t = (cbs, config, log_level)"
    using pointers_inv_step [OF _ _ ok step] engine_args_step [OF step] by simp
qed

lemma stranded_run:
  assumes "past_reset (run_pc s)" "dtor_pc s = DtorWaiting False"
    and "eng.allowed_run False early_exit V E s evs" "eng.run E V s evs = Inr t"
  shows "dtor_pc t = DtorWaiting False"
  using assms
proof (induction evs arbitrary: s)
  case (Cons ev evs)
  from Cons.prems(4) obtain u where u: "engine_step E V s ev = Inr u" "eng.run E V u evs = Inr t" by auto
  have ok: "engine_allowed False early_exit V s ev" using Cons.prems(3) by simp
  have "past_reset (run_pc u) \<and> dtor_pc u = DtorWaiting False"
    using Cons.prems(1,2) ok u(1) by (cases ev) (auto simp: run_finish_def split: option.splits)
  then show ?case using Cons.IH [of u] Cons.prems(3) u by simp
qed simp

text \<open>C7. A loop that ends by itself leaves the platform with dangling pointers. Once \<open>run\<close> has reset
  \<open>main_common_\<close> of a server that was initialised, while the engine is still held, every call on the HTTP
  dispatcher uses the destroyed event dispatcher, and a destructor that is entered then waits for
  ever.\<close>

theorem unsolicited_exit_strands_engine:
  assumes "eng.reach cbs config log_level net m False True V E s" and "server_starts V config log_level"
    and "past_reset (run_pc s)" and "server s" and "dtor_pc s = NotDestroyed" and "main_thread_joinable s"
  shows "(platform_event ev \<longrightarrow> engine_step E V s (Platform ev) = Inl UseAfterFree) \<and>
    (\<exists>u. engine_step E V s DtorEnter = Inr u \<and> (\<forall>evs t. eng.allowed_run False True V E u evs \<and>
       eng.run E V u evs = Inr t \<longrightarrow> dtor_pc t = DtorWaiting False))"
proof -
  have "\<not> main_common s"
    using reach_pointers [OF assms(1,2)] assms(3) by (cases "run_pc s") (auto simp: pointers_inv_def)
  moreover have "event_dispatcher (http_dispatcher_obj s)"
    using engine_reach_http [OF assms(1)] assms(4) by (simp add: http_inv_def)
  ultimately have "engine_step E V s (Platform ev) = Inl UseAfterFree"
    "engine_step E V s DtorEnter = Inr (s\<lparr>dtor_pc := DtorWaiting False\<rparr>)"
    using assms(6) by (simp_all add: httpDispatcher_def dtor_enter_def)
  moreover have "dtor_pc t = DtorWaiting False"
    if "eng.allowed_run False True V E (s\<lparr>dtor_pc := DtorWaiting False\<rparr>) evs"
      "eng.run E V (s\<lparr>dtor_pc := DtorWaiting False\<rparr>) evs = Inr t" for evs t
    using stranded_run [OF _ _ that] assms(3) by simp
  ultimately show ?thesis by auto
qed

theorem unsolicited_exit_strands_engine_witness:
  "\<exists>s. eng.run (list_envoy True) sample_server sample_engine
       [RunInit, PostInit, LoopExit False, ResetScope False, ResetMain False, Finish False] = Inr s \<and>
     engine_step (list_envoy True) sample_server s (Platform (CancelStream 1)) = Inl UseAfterFree"
proof -
  let ?evs = "[RunInit, PostInit, LoopExit False, ResetScope False, ResetMain False, Finish False]
    :: (list_headers, byte list) engine_event list"
  obtain s where s: "eng.run (list_envoy True) sample_server sample_engine ?evs = Inr s"
    "past_reset (run_pc s)" "server s" "dtor_pc s = NotDestroyed" "main_thread_joinable s"
    by (simp add: life_defs Let_def)
  have "eng.allowed_run False True sample_server (list_envoy True) sample_engine ?evs"
    by (simp add: life_defs Let_def)
  from unsolicited_exit_strands_engine [OF sample_engine_reach [OF this s(1)] sample_server_starts s(2-), of "CancelStream 1"] s(1)
  show ?thesis by auto
qed

end
