(* ===== verification/ExternalApi.thy ===== *)
theory ExternalApi
  imports Prelude
begin

text \<open>
  \<open>src/library/common/api/external.cc\<close>: the process-wide registry that maps names to the API
  pointers the platform registers. \<open>registry_[name]\<close> of \<open>absl::flat_hash_map\<close> inserts a null pointer
  under a name that is absent, so a failed lookup changes the map; \<open>lookup_insert\<close> models it.
\<close>

type_synonym registry = "string \<Rightarrow> ptr option"

definition lookup_insert :: "registry \<Rightarrow> string \<Rightarrow> ptr \<times> registry" where
  "lookup_insert r name = (case r name of Some p \<Rightarrow> (p, r) | None \<Rightarrow> (NULL, r(name \<mapsto> NULL)))"

definition registerApi :: "registry \<Rightarrow> string \<Rightarrow> ptr \<Rightarrow> registry" where
  "registerApi r name api = (snd (lookup_insert r name))(name \<mapsto> api)"

definition retrieveApi :: "bool \<Rightarrow> registry \<Rightarrow> string \<Rightarrow> abort + ptr \<times> registry" where
  "retrieveApi asserts r name =
     (let (api, r') = lookup_insert r name
      in bindE (ASSERT asserts (api \<noteq> NULL) ''api'') (\<lambda>_. Inr (api, r')))"

section \<open>The interface of a registry\<close>

text \<open>What the clients rely on: a state, an update and an observation of a name, where the
  observation of a name sees its last update and nothing else.\<close>

locale api_registry =
  fixes put :: "'r \<Rightarrow> string \<Rightarrow> ptr \<Rightarrow> 'r"
    and get :: "'r \<Rightarrow> string \<Rightarrow> ptr"
    and touch :: "'r \<Rightarrow> string \<Rightarrow> 'r"
  assumes get_put: "get (put r n p) n' = (if n' = n then p else get r n')"
    and get_touch: "get (touch r n) n' = get r n'"
begin

lemma get_put_all:
  "get (fold (\<lambda>(n, p) r. put r n p) regs r) n =
     (case map_of (rev regs) n of Some p \<Rightarrow> p | None \<Rightarrow> get r n)"
  by (induction regs arbitrary: r) (auto simp: get_put map_add_def split: option.splits)

lemma get_touch_all: "get (fold (\<lambda>n r. touch r n) ns r) n = get r n"
  by (induction ns arbitrary: r) (auto simp: get_touch)

end

interpretation ext: api_registry registerApi "\<lambda>r n. fst (lookup_insert r n)" "\<lambda>r n. snd (lookup_insert r n)"
  by unfold_locales (auto simp: registerApi_def lookup_insert_def split: option.splits)

text \<open>A retrieval returns what was last registered under the name, whatever other names were
  registered or looked up (also unsuccessfully) in between; a name that was never registered stops a
  debug build and gives a release build a null pointer.\<close>

theorem retrieve_last_registered:
  fixes regs :: "(string \<times> ptr) list" and looked :: "string list"
  shows "retrieveApi asserts (fold (\<lambda>n r. snd (lookup_insert r n)) looked
      (fold (\<lambda>(n, p) r. registerApi r n p) regs (\<lambda>_. None))) name =
    (case map_of (rev regs) name of
       Some p \<Rightarrow> if asserts \<and> p = NULL then Inl (AssertFailure ''api'')
         else Inr (p, snd (lookup_insert (fold (\<lambda>n r. snd (lookup_insert r n)) looked
           (fold (\<lambda>(n, p) r. registerApi r n p) regs (\<lambda>_. None))) name))
     | None \<Rightarrow> if asserts then Inl (AssertFailure ''api'')
         else Inr (NULL, snd (lookup_insert (fold (\<lambda>n r. snd (lookup_insert r n)) looked
           (fold (\<lambda>(n, p) r. registerApi r n p) regs (\<lambda>_. None))) name)))"
proof -
  let ?r = "fold (\<lambda>n r. snd (lookup_insert r n)) looked (fold (\<lambda>(n, p) r. registerApi r n p) regs (\<lambda>_. None))"
  have "fst (lookup_insert ?r name) = (case map_of (rev regs) name of Some p \<Rightarrow> p | None \<Rightarrow> NULL)"
    unfolding ext.get_touch_all ext.get_put_all by (simp add: lookup_insert_def split: option.splits)
  then show ?thesis
    by (auto simp: retrieveApi_def split_beta bindE_def ASSERT_def split: option.splits sum.splits)
qed

end
