(* ===== verification/MainInterface.thy ===== *)
theory MainInterface
  imports EngineFaults ExternalApi
begin

text \<open>
  \<open>src/library/common/main_interface.cc\<close>: the C functions the platform calls, over the process's
  statics.

  \<open>process\<close> holds the statics and the \<open>Engine\<close> objects that were created, by identity.
  \<open>strong_engine_\<close> is the owning pointer, \<open>engine_\<close> the weak one: \<open>lock_engine\<close> finds the object only
  while the strong pointer still owns it. Releasing an engine enters its destructor, whose further
  steps interleave with everything else; \<open>run_engine\<close> is split where its assignment destroys the previous
  engine. \<open>preferred_network_\<close> is shared by reference with the dispatchers, so a store is seen by all. The
  heap an engine works on is an argument of its construction.
\<close>

section \<open>State\<close>

record ('h, 'b) process =
  engines :: "nat \<Rightarrow> ('h, 'b) engine option"
  next_engine :: nat
  strong_engine :: "nat option"
  weak_engine :: "nat option"
  current_stream_handle :: envoy_stream_t
  process_network :: envoy_network_t
  platform_apis :: registry

definition process_start :: "('h, 'b) process" where
  "process_start = \<lparr>engines = (\<lambda>_. None), next_engine = 0, strong_engine = None, weak_engine = None,
     current_stream_handle = 0, process_network = ENVOY_NET_GENERIC, platform_apis = (\<lambda>_. None)\<rparr>"

definition lock_engine :: "('h, 'b) process \<Rightarrow> (nat \<times> ('h, 'b) engine) option" where
  "lock_engine p = (case weak_engine p of
     None \<Rightarrow> None
   | Some i \<Rightarrow> if strong_engine p = Some i then map_option (Pair i) (engines p i) else None)"

text \<open>The shape \<open>if (auto e = engine_.lock()) return e->...; return ENVOY_FAILURE;\<close>.\<close>

definition with_engine ::
  "('h, 'b) process \<Rightarrow> (('h, 'b) engine \<Rightarrow> abort + envoy_status_t \<times> ('h, 'b) engine) \<Rightarrow>
   abort + envoy_status_t \<times> ('h, 'b) process" where
  "with_engine p f = (case lock_engine p of
     None \<Rightarrow> Inr (ENVOY_FAILURE, p)
   | Some (i, e) \<Rightarrow> bindE (f e) (\<lambda>(st, e'). Inr (st, p\<lparr>engines := (engines p)(i \<mapsto> e')\<rparr>)))"

section \<open>Streams\<close>

definition init_stream :: "('h, 'b) process \<Rightarrow> envoy_stream_t \<times> ('h, 'b) process" where
  "init_stream p = (current_stream_handle p, p\<lparr>current_stream_handle := current_stream_handle p + 1\<rparr>)"

definition start_stream ::
  "('h, 'b) process \<Rightarrow> envoy_stream_t \<Rightarrow> envoy_http_callbacks \<Rightarrow> abort + envoy_status_t \<times> ('h, 'b) process" where
  "start_stream p stream cbs =
     with_engine p (\<lambda>e. httpDispatcher e (\<lambda>d. startStream d stream cbs))"

definition send_headers ::
  "('h, 'b) process \<Rightarrow> envoy_stream_t \<Rightarrow> envoy_headers \<Rightarrow> bool \<Rightarrow> abort + envoy_status_t \<times> ('h, 'b) process" where
  "send_headers p stream headers end_stream =
     with_engine p (\<lambda>e. httpDispatcher e (\<lambda>d. sendHeaders d stream headers end_stream))"

definition send_data ::
  "('h, 'b) process \<Rightarrow> envoy_stream_t \<Rightarrow> envoy_data \<Rightarrow> bool \<Rightarrow> abort + envoy_status_t \<times> ('h, 'b) process" where
  "send_data p stream data end_stream =
     with_engine p (\<lambda>e. httpDispatcher e (\<lambda>d. sendData d stream data end_stream))"

definition send_metadata ::
  "('h, 'b) process \<Rightarrow> envoy_stream_t \<Rightarrow> envoy_headers \<Rightarrow> abort + envoy_status_t \<times> ('h, 'b) process" where
  "send_metadata p stream metadata = Inr (ENVOY_FAILURE, p)"

definition send_trailers ::
  "('h, 'b) process \<Rightarrow> envoy_stream_t \<Rightarrow> envoy_headers \<Rightarrow> abort + envoy_status_t \<times> ('h, 'b) process" where
  "send_trailers p stream trailers =
     with_engine p (\<lambda>e. httpDispatcher e (\<lambda>d. sendTrailers d stream trailers))"

definition reset_stream ::
  "('h, 'b) process \<Rightarrow> envoy_stream_t \<Rightarrow> abort + envoy_status_t \<times> ('h, 'b) process" where
  "reset_stream p stream = with_engine p (\<lambda>e. httpDispatcher e (\<lambda>d. cancelStream d stream))"

section \<open>The engine and the process\<close>

definition init_engine :: envoy_engine_t where
  "init_engine = 1"

definition set_network :: "envoy_network_t \<Rightarrow> ('h, 'b) engine \<Rightarrow> ('h, 'b) engine" where
  "set_network net e = e\<lparr>http_dispatcher_obj := (http_dispatcher_obj e)\<lparr>preferred_network := net\<rparr>\<rparr>"

definition set_preferred_network ::
  "('h, 'b) process \<Rightarrow> envoy_network_t \<Rightarrow> envoy_status_t \<times> ('h, 'b) process" where
  "set_preferred_network p network =
     (ENVOY_SUCCESS, p\<lparr>process_network := network, engines := (\<lambda>i. map_option (set_network network) (engines p i))\<rparr>)"

definition record_counter ::
  "server_api \<Rightarrow> ('h, 'b) process \<Rightarrow> envoy_engine_t \<Rightarrow> string \<Rightarrow> 64 word \<Rightarrow>
   abort + envoy_status_t \<times> ('h, 'b) process" where
  "record_counter V p engine elements cnt = with_engine p (\<lambda>e. recordCounterInc V e elements cnt)"

definition record_gauge_set ::
  "server_api \<Rightarrow> ('h, 'b) process \<Rightarrow> envoy_engine_t \<Rightarrow> string \<Rightarrow> 64 word \<Rightarrow>
   abort + envoy_status_t \<times> ('h, 'b) process" where
  "record_gauge_set V p engine elements value = with_engine p (\<lambda>e. recordGaugeSet V e elements value)"

definition record_gauge_add ::
  "server_api \<Rightarrow> ('h, 'b) process \<Rightarrow> envoy_engine_t \<Rightarrow> string \<Rightarrow> 64 word \<Rightarrow>
   abort + envoy_status_t \<times> ('h, 'b) process" where
  "record_gauge_add V p engine elements amount = with_engine p (\<lambda>e. recordGaugeAdd V e elements amount)"

definition record_gauge_sub ::
  "server_api \<Rightarrow> ('h, 'b) process \<Rightarrow> envoy_engine_t \<Rightarrow> string \<Rightarrow> 64 word \<Rightarrow>
   abort + envoy_status_t \<times> ('h, 'b) process" where
  "record_gauge_sub V p engine elements amount = with_engine p (\<lambda>e. recordGaugeSub V e elements amount)"

definition register_platform_api ::
  "('h, 'b) process \<Rightarrow> string \<Rightarrow> ptr \<Rightarrow> envoy_status_t \<times> ('h, 'b) process" where
  "register_platform_api p name api =
     (ENVOY_SUCCESS, p\<lparr>platform_apis := registerApi (platform_apis p) name api\<rparr>)"

text \<open>The owner of an engine gives it up: the destructor starts.\<close>

definition release_engine ::
  "('h, 'b) envoy \<Rightarrow> ('h, 'b) process \<Rightarrow> nat option \<Rightarrow> abort + ('h, 'b) process" where
  "release_engine E p owner = (case owner of
     None \<Rightarrow> Inr p
   | Some i \<Rightarrow> (case engines p i of
       None \<Rightarrow> Inr p
     | Some e \<Rightarrow> bindE (dtor_enter E e) (\<lambda>e'. Inr (p\<lparr>engines := (engines p)(i \<mapsto> e')\<rparr>))))"

text \<open>The first statement of \<open>run_engine\<close>: the new object exists before the assignment releases the
  previous one. The caller stays in the assignment until that destructor is done.\<close>

definition run_engine_assign ::
  "('h, 'b) envoy \<Rightarrow> ('h, 'b) process \<Rightarrow> envoy_engine_callbacks \<Rightarrow> string \<Rightarrow> string \<Rightarrow> memory \<Rightarrow>
   abort + ('h, 'b) process" where
  "run_engine_assign E p cbs config log_level m =
     (let n = next_engine p;
          p1 = p\<lparr>engines := (engines p)(n \<mapsto> new_engine cbs config log_level (process_network p) m),
                next_engine := Suc n, strong_engine := Some n\<rparr>
      in release_engine E p1 (strong_engine p))"

text \<open>The second: the weak pointer is published and the call returns.\<close>

definition run_engine_publish :: "('h, 'b) process \<Rightarrow> envoy_status_t \<times> ('h, 'b) process" where
  "run_engine_publish p = (ENVOY_SUCCESS, p\<lparr>weak_engine := strong_engine p\<rparr>)"

definition terminate_engine ::
  "('h, 'b) envoy \<Rightarrow> ('h, 'b) process \<Rightarrow> envoy_engine_t \<Rightarrow> abort + ('h, 'b) process" where
  "terminate_engine E p engine = release_engine E (p\<lparr>strong_engine := None\<rparr>) (strong_engine p)"

section \<open>The process as a transition system\<close>

text \<open>\<open>OpenStream\<close> is how both platforms open a stream: \<open>start_stream\<close> with the handle that
  \<open>init_stream\<close> returned. \<open>EngineStep\<close> is a step of an engine's own threads.\<close>

datatype ('h, 'b) process_event =
    InitStream
  | OpenStream envoy_http_callbacks
  | SendHeadersCall envoy_stream_t envoy_headers bool
  | SendDataCall envoy_stream_t envoy_data bool
  | SendMetadataCall envoy_stream_t envoy_headers
  | SendTrailersCall envoy_stream_t envoy_headers
  | ResetStreamCall envoy_stream_t
  | SetPreferredNetworkCall envoy_network_t
  | RecordCall metric_call
  | RegisterApiCall string ptr
  | RunEngineAssign envoy_engine_callbacks string string memory
  | RunEnginePublish
  | TerminateEngineCall envoy_engine_t
  | EngineStep nat "('h, 'b) engine_event"

definition status_only ::
  "abort + envoy_status_t \<times> ('h, 'b) process \<Rightarrow> abort + ('h, 'b) process" where
  "status_only r = bindE r (\<lambda>(_, p). Inr p)"

fun record_call ::
  "server_api \<Rightarrow> ('h, 'b) process \<Rightarrow> metric_call \<Rightarrow> abort + envoy_status_t \<times> ('h, 'b) process" where
  "record_call V p (RecordCounterInc e n) = record_counter V p init_engine e n"
| "record_call V p (RecordGaugeSet e n) = record_gauge_set V p init_engine e n"
| "record_call V p (RecordGaugeAdd e n) = record_gauge_add V p init_engine e n"
| "record_call V p (RecordGaugeSub e n) = record_gauge_sub V p init_engine e n"

fun process_step ::
  "('h, 'b) envoy \<Rightarrow> server_api \<Rightarrow> ('h, 'b) process \<Rightarrow> ('h, 'b) process_event \<Rightarrow> abort + ('h, 'b) process" where
  "process_step E V p InitStream = Inr (snd (init_stream p))"
| "process_step E V p (OpenStream cbs) =
     (case init_stream p of (h, p') \<Rightarrow> status_only (start_stream p' h cbs))"
| "process_step E V p (SendHeadersCall h hs es) = status_only (send_headers p h hs es)"
| "process_step E V p (SendDataCall h d es) = status_only (send_data p h d es)"
| "process_step E V p (SendMetadataCall h hs) = status_only (send_metadata p h hs)"
| "process_step E V p (SendTrailersCall h hs) = status_only (send_trailers p h hs)"
| "process_step E V p (ResetStreamCall h) = status_only (reset_stream p h)"
| "process_step E V p (SetPreferredNetworkCall net) = Inr (snd (set_preferred_network p net))"
| "process_step E V p (RecordCall c) = status_only (record_call V p c)"
| "process_step E V p (RegisterApiCall name api) = Inr (snd (register_platform_api p name api))"
| "process_step E V p (RunEngineAssign cbs config log_level m) = run_engine_assign E p cbs config log_level m"
| "process_step E V p RunEnginePublish = Inr (snd (run_engine_publish p))"
| "process_step E V p (TerminateEngineCall h) = terminate_engine E p h"
| "process_step E V p (EngineStep i ev) = (case engines p i of
     None \<Rightarrow> Inr p
   | Some e \<Rightarrow> bindE (engine_step E V e ev) (\<lambda>e'. Inr (p\<lparr>engines := (engines p)(i \<mapsto> e')\<rparr>)))"

fun own_step :: "('h, 'b) engine_event \<Rightarrow> bool" where
  "own_step (Platform ev) = False"
| "own_step (Record c) = False"
| "own_step (PreferredNetwork net) = False"
| "own_step DtorEnter = False"
| "own_step _ = True"

fun process_allowed ::
  "bool \<Rightarrow> bool \<Rightarrow> server_api \<Rightarrow> ('h, 'b) process \<Rightarrow> ('h, 'b) process_event \<Rightarrow> bool" where
  "process_allowed spurious early_exit V p (EngineStep i ev) =
     (own_step ev \<and> (case engines p i of None \<Rightarrow> False | Some e \<Rightarrow> engine_allowed spurious early_exit V e ev))"
| "process_allowed spurious early_exit V p _ = True"

interpretation proc: transition_system
  "\<lambda>p. p = process_start" "process_allowed spurious early_exit V" "process_step E V"
  for spurious early_exit V E .

end
