(* ===== verification/MainInterfaceProps.thy ===== *)
theory MainInterfaceProps
  imports MainInterface
begin

text \<open>
  What the C interface promises: handles are distinct until the 64-bit counter has gone round, so the
  streams that the platform opens keep the dispatcher's contract, and its guarantees hold for every
  engine the process ever runs; a call reaches the dispatcher of the engine that is owned, and fails
  without effect when there is none.
\<close>

section \<open>The handles an engine has seen\<close>

lemma stream_step_started: "stream_step d i es t \<Longrightarrow> started (trace t) = started (trace d)"
  by (auto simp: stream_step_def)

lemma run_callback_started:
  assumes inv: "dispatcher_inv c0 d" and ed: "event_dispatcher d" and step: "run_callback E d cb = Inr t"
  shows "started (trace t) = started (trace d) @ start_handles [cb]"
proof -
  have idle: "started (trace u) = started (trace d)" if "idle_step d u \<and> pending u = pending d" for u
    using that by (auto simp: idle_step_def)
  show ?thesis
  proof (cases cb)
    case (StartStreamCb h cbs)
    then show ?thesis
      using step by (auto simp: run_startStream_def Let_def emit_def split: if_splits)
  next
    case (SendHeadersCb h hs es)
    then show ?thesis using idle [OF send_idle(1) [of E d h hs es t]] step ed by simp
  next
    case (SendDataCb h b es)
    then show ?thesis using idle [OF send_idle(2) [of E d h b es t]] step ed by simp
  next
    case (SendTrailersCb h hs)
    then show ?thesis using idle [OF send_idle(3) [of E d h hs t]] step ed by simp
  next
    case (CancelStreamCb h)
    have si: "streams_inv d" using inv by (simp add: dispatcher_inv_def)
    show ?thesis
    proof (cases "streams d h")
      case None
      then show ?thesis using step CancelStreamCb by (simp add: closed_handle_ignored)
    next
      case (Some i)
      have "stream_step d i (new_effects d t) t"
        using run_cancelStream_step [OF _ Some si] step CancelStreamCb by simp
      then show ?thesis using CancelStreamCb stream_step_started by auto
    qed
  qed
qed

lemma loop_step_started:
  assumes inv: "dispatcher_inv c0 d" and env: "env_ok c0 d ev" and loop: "loop_event ev"
    and step: "dispatcher_step E d ev = Inr t"
  shows "started (trace t) = started (trace d) @ start_handles (executed_step d ev)"
  using assms
proof (cases rule: loop_step_cases)
  case (on_stream i)
  then show ?thesis by (simp add: stream_step_started)
next
  case (callback cb rest)
  note pop = pop_inv(1,3) [OF inv callback(1)]
  show ?thesis using run_callback_started [OF pop(1) _ callback(3)] pop(2) callback(2) by simp
qed simp

lemma loop_handles:
  assumes inv: "dispatcher_inv c0 d" and env: "env_ok c0 d ev" and loop: "loop_event ev"
    and step: "dispatcher_step E d ev = Inr t"
  shows "set (handles_used t) = set (handles_used d)"
proof -
  have "api_call ev = []" using loop by (cases ev) simp_all
  with pending_step [OF inv env step] have "pending d = executed_step d ev @ pending t" by simp
  then show ?thesis using loop_step_started [OF assms] by (auto simp: handles_used_def)
qed

lemma platform_handles:
  "dispatcher_inv c0 d \<Longrightarrow> platform_event ev \<Longrightarrow>
     set (handles_used (snd (platform_call_of ev d))) = set (handles_used d) \<union> set (start_handles (api_call ev))"
  by (cases ev) (auto simp: startStream_def sendHeaders_def sendData_def sendTrailers_def cancelStream_def
      post_def handles_used_def pending_def)

fun opened_by :: "('h, 'b) engine_event \<Rightarrow> envoy_stream_t set" where
  "opened_by (Platform ev) = set (start_handles (api_call ev))"
| "opened_by _ = {}"

abbreviation engine_handles :: "('h, 'b) engine \<Rightarrow> envoy_stream_t set" where
  "engine_handles e \<equiv> set (handles_used (http_dispatcher_obj e))"

lemma engine_step_handles:
  assumes inv: "http_inv V s" and ok: "engine_allowed spurious early_exit V s ev"
    and step: "engine_step E V s ev = Inr t"
  shows "engine_handles t \<subseteq> engine_handles s \<union> opened_by ev"
proof (cases ev)
  case PostInit
  then have "queue_ok (http_dispatcher_obj s)" "\<not> event_dispatcher (http_dispatcher_obj s)"
    using inv ok by (auto simp: http_inv_def dispatcher_inv_def ready_inv_def queue_ok_def)
  then have "handles_used (ready (http_dispatcher_obj s) (generateStats V)) = handles_used (http_dispatcher_obj s)"
    by (simp add: handles_used_def ready_keeps_pending) (simp add: ready_def)
  then show ?thesis
    using step PostInit by (auto simp: run_postinit_def Let_def split: listener_lookup.splits option.splits)
next
  case (Platform e)
  from platform_stepD [OF step [unfolded Platform]] show ?thesis
    using inv ok Platform platform_handles [of "generateStats V" "http_dispatcher_obj s" e]
    by (simp add: http_inv_def)
next
  case (Loop e)
  then obtain d where "dispatcher_step E (http_dispatcher_obj s) e = Inr d" "t = s\<lparr>http_dispatcher_obj := d\<rparr>"
    using step by auto
  then show ?thesis
    using loop_handles [of "generateStats V" "http_dispatcher_obj s" e E d] inv ok Loop
    by (simp add: http_inv_def)
next
  case (Record c)
  from step [unfolded Record] show ?thesis by (rule record_stepE) simp_all
qed ((use step in \<open>auto simp: engine_defs handles_used_def pending_def
    split: startup.splits if_splits list.splits option.splits\<close>)[1])+

section \<open>The invariant of the process\<close>

text \<open>No engine has seen a handle that the counter had not passed after \<open>k\<close> calls of
  \<open>init_stream\<close>; each keeps its dispatcher's invariant; the owned one is not being destroyed.\<close>

definition engines_inv :: "server_api \<Rightarrow> nat \<Rightarrow> ('h, 'b) process \<Rightarrow> bool" where
  "engines_inv V k p \<longleftrightarrow>
     (\<forall>i e. engines p i = Some e \<longrightarrow>
        i < next_engine p \<and> http_inv V e \<and> (\<forall>h \<in> engine_handles e. unat h < k)) \<and>
     (\<forall>i. strong_engine p = Some i \<longrightarrow> (\<exists>e. engines p i = Some e \<and> dtor_pc e = NotDestroyed))"

definition process_inv :: "server_api \<Rightarrow> nat \<Rightarrow> ('h, 'b) process \<Rightarrow> bool" where
  "process_inv V k p \<longleftrightarrow> engines_inv V k p \<and> current_stream_handle p = of_nat k"

lemma engines_invD:
  assumes "engines_inv V k p"
  shows "engines p i = Some e \<Longrightarrow> http_inv V e"
    and "engines p i = Some e \<Longrightarrow> i < next_engine p"
    and "engines p i = Some e \<Longrightarrow> h \<in> engine_handles e \<Longrightarrow> unat h < k"
    and "strong_engine p = Some i \<Longrightarrow> \<exists>e. engines p i = Some e \<and> dtor_pc e = NotDestroyed"
  using assms by (auto simp: engines_inv_def)

lemma engines_inv_mono: "engines_inv V k p \<Longrightarrow> k \<le> k' \<Longrightarrow> engines_inv V k' p"
  by (fastforce simp: engines_inv_def)

lemma engines_inv_frame [simp]:
  "engines_inv V k (p\<lparr>current_stream_handle := h\<rparr>) = engines_inv V k p"
  "engines_inv V k (p\<lparr>platform_apis := r\<rparr>) = engines_inv V k p"
  "engines_inv V k (p\<lparr>process_network := net\<rparr>) = engines_inv V k p"
  "engines_inv V k (p\<lparr>weak_engine := w\<rparr>) = engines_inv V k p"
  by (simp_all add: engines_inv_def)

lemma process_start_inv: "process_inv V 0 process_start"
  by (simp add: process_inv_def engines_inv_def process_start_def)

text \<open>One engine makes one of its steps.\<close>

lemma engines_inv_step:
  assumes inv: "engines_inv V k p" and e: "engines p i = Some e"
    and ok: "engine_allowed spurious early_exit V e ev" and step: "engine_step E V e ev = Inr e'"
    and opened: "\<forall>h \<in> opened_by ev. unat h < k"
    and own: "strong_engine p = Some i \<longrightarrow> dtor_pc e' = NotDestroyed"
  shows "engines_inv V k (p\<lparr>engines := (engines p)(i \<mapsto> e')\<rparr>)"
proof -
  have "http_inv V e'" by (rule http_inv_step [OF engines_invD(1) [OF inv e] ok step])
  moreover have "unat h < k" if "h \<in> engine_handles e'" for h
    using engine_step_handles [OF engines_invD(1) [OF inv e] ok step] that opened
      engines_invD(3) [OF inv e, of h] by auto
  ultimately show ?thesis
    using inv e own by (auto simp: engines_inv_def)
qed

text \<open>A call through the weak pointer is a step of the engine that is owned, or none.\<close>

lemma lock_engineD:
  "lock_engine p = Some (i, e) \<Longrightarrow> strong_engine p = Some i \<and> engines p i = Some e"
  by (auto simp: lock_engine_def split: option.splits if_splits)

lemma with_engine_inv:
  assumes inv: "engines_inv V k p" and step: "with_engine p f = Inr (st, q)"
    and sim: "\<And>e e' st. f e = Inr (st, e') \<Longrightarrow> engine_step E V e ev = Inr e' \<and> dtor_pc e' = dtor_pc e"
    and ok: "\<And>i e. engines p i = Some e \<Longrightarrow> dtor_pc e = NotDestroyed \<Longrightarrow>
      engine_allowed spurious early_exit V e ev"
    and opened: "\<forall>h \<in> opened_by ev. unat h < k"
  shows "engines_inv V k q \<and> current_stream_handle q = current_stream_handle p"
proof (cases "lock_engine p")
  case None
  then show ?thesis using inv step by (simp add: with_engine_def)
next
  case (Some ie)
  then obtain i e where ie: "lock_engine p = Some (i, e)" by (cases ie) simp
  then have i: "strong_engine p = Some i" "engines p i = Some e" using lock_engineD by blast+
  then have live: "dtor_pc e = NotDestroyed" using engines_invD(4) [OF inv i(1)] by simp
  obtain e' where e': "f e = Inr (st, e')" "q = p\<lparr>engines := (engines p)(i \<mapsto> e')\<rparr>"
    using step ie by (auto simp: with_engine_def)
  show ?thesis
    using engines_inv_step [OF inv i(2) ok [OF i(2) live] conjunct1 [OF sim [OF e'(1)]] opened]
      sim [OF e'(1)] live e'(2) by simp
qed

lemma platform_sim:
  assumes "httpDispatcher e (platform_call_of ev) = Inr (st, e')"
  shows "engine_step E V e (Platform ev) = Inr e' \<and> dtor_pc e' = dtor_pc e"
  using assms platform_stepD [of E V e ev e'] by simp

lemma platform_call_inv:
  assumes inv: "engines_inv V k p" and ev: "platform_event ev"
    and step: "with_engine p (\<lambda>e. httpDispatcher e (platform_call_of ev)) = Inr (st, q)"
    and fresh: "\<And>i e. engines p i = Some e \<Longrightarrow> env_ok (generateStats V) (http_dispatcher_obj e) ev"
    and opened: "\<forall>h \<in> set (start_handles (api_call ev)). unat h < k"
  shows "engines_inv V k q \<and> current_stream_handle q = current_stream_handle p"
  by (rule with_engine_inv [OF inv step platform_sim]) (use ev fresh opened in auto)

lemma record_call_inv:
  assumes inv: "engines_inv V k p" and step: "record_call V p c = Inr (st, q)"
  shows "engines_inv V k q \<and> current_stream_handle q = current_stream_handle p"
proof -
  have "record_call V p c = with_engine p (\<lambda>e. record_metric V e c)"
    by (cases c) (simp_all add: record_counter_def record_gauge_set_def record_gauge_add_def record_gauge_sub_def)
  with step have "with_engine p (\<lambda>e. record_metric V e c) = Inr (st, q)" by simp
  then show ?thesis
  proof (rule with_engine_inv [OF inv, where ev = "Record c"])
    fix e e' :: "('a, 'b) engine" and st
    assume "record_metric V e c = Inr (st, e')"
    then show "engine_step E V e (Record c) = Inr e' \<and> dtor_pc e' = dtor_pc e"
      by (auto simp: record_metric_of post_metric_def split: if_splits)
  qed simp_all
qed

text \<open>Creation and release.\<close>

lemma release_engine_inv:
  assumes inv: "engines_inv V k p" and "owner \<noteq> strong_engine p \<or> owner = None"
    and "\<forall>i e. owner = Some i \<longrightarrow> engines p i = Some e \<longrightarrow> dtor_pc e = NotDestroyed"
    and "release_engine E p owner = Inr q"
  shows "engines_inv V k q \<and> current_stream_handle q = current_stream_handle p"
proof (cases owner)
  case None
  then show ?thesis using assms by (simp add: release_engine_def)
next
  case (Some i)
  show ?thesis
  proof (cases "engines p i")
    case None
    then show ?thesis using assms Some by (simp add: release_engine_def)
  next
    case e: (Some e)
    then obtain e' where e': "dtor_enter E e = Inr e'" "q = p\<lparr>engines := (engines p)(i \<mapsto> e')\<rparr>"
      using assms(4) Some by (auto simp: release_engine_def)
    have "engines_inv V k (p\<lparr>engines := (engines p)(i \<mapsto> e')\<rparr>)"
      by (rule engines_inv_step [where ev = DtorEnter and E = E, OF inv e]) (use assms Some e e' in auto)
    then show ?thesis using e' by simp
  qed
qed

lemma new_engine_http_inv: "http_inv V (new_engine cbs config log_level net m)"
  by (simp add: new_engine_def http_inv_def initial_inv) (simp add: new_dispatcher_def)

lemma new_engine_handles: "engine_handles (new_engine cbs config log_level net m) = {}"
  by (simp add: new_engine_def new_dispatcher_def handles_used_def pending_def)

lemma create_engine_inv:
  assumes "engines_inv V k p"
  shows "engines_inv V k (p\<lparr>engines := (engines p)(next_engine p \<mapsto> new_engine cbs config log_level net m),
    next_engine := Suc (next_engine p), strong_engine := Some (next_engine p)\<rparr>)"
  using assms
  by (auto simp: engines_inv_def new_engine_http_inv new_engine_handles less_Suc_eq)
    (simp add: new_engine_def)

lemma run_engine_assign_inv:
  assumes inv: "engines_inv V k p" and step: "run_engine_assign E p cbs config log_level m = Inr q"
  shows "engines_inv V k q \<and> current_stream_handle q = current_stream_handle p"
proof -
  let ?p = "p\<lparr>engines := (engines p)(next_engine p \<mapsto> new_engine cbs config log_level (process_network p) m),
    next_engine := Suc (next_engine p), strong_engine := Some (next_engine p)\<rparr>"
  have old: "\<exists>e. engines p i = Some e \<and> dtor_pc e = NotDestroyed \<and> i < next_engine p"
    if "strong_engine p = Some i" for i
    using engines_invD(2,4) [OF inv] that by blast
  have "engines_inv V k q \<and> current_stream_handle q = current_stream_handle ?p"
    by (rule release_engine_inv [OF create_engine_inv [OF inv]])
      (use old step in \<open>auto simp: run_engine_assign_def Let_def\<close>)
  then show ?thesis by simp
qed

lemma terminate_engine_inv:
  assumes inv: "engines_inv V k p" and step: "terminate_engine E p h = Inr q"
  shows "engines_inv V k q \<and> current_stream_handle q = current_stream_handle p"
proof -
  have "engines_inv V k (p\<lparr>strong_engine := None\<rparr>)" using inv by (simp add: engines_inv_def)
  then have "engines_inv V k q \<and> current_stream_handle q = current_stream_handle (p\<lparr>strong_engine := None\<rparr>)"
    by (rule release_engine_inv) (use engines_invD(4) [OF inv] step in \<open>auto simp: terminate_engine_def\<close>)
  then show ?thesis by simp
qed

lemma set_preferred_network_inv:
  assumes "engines_inv V k p"
  shows "engines_inv V k (snd (set_preferred_network p net))"
  using assms
  by (fastforce simp: engines_inv_def set_preferred_network_def set_network_def http_inv_def
      dispatcher_idle_inv handles_used_def pending_def)

fun inits :: "('h, 'b) process_event \<Rightarrow> nat" where
  "inits InitStream = 1"
| "inits (OpenStream cbs) = 1"
| "inits _ = 0"

lemma call_start_stream:
  "start_stream p h cbs = with_engine p (\<lambda>e. httpDispatcher e (platform_call_of (StartStream h cbs)))"
  "send_headers p h hs es = with_engine p (\<lambda>e. httpDispatcher e (platform_call_of (SendHeaders h hs es)))"
  "send_data p h d es = with_engine p (\<lambda>e. httpDispatcher e (platform_call_of (SendData h d es)))"
  "send_trailers p h hs = with_engine p (\<lambda>e. httpDispatcher e (platform_call_of (SendTrailers h hs)))"
  "reset_stream p h = with_engine p (\<lambda>e. httpDispatcher e (platform_call_of (CancelStream h)))"
  by (simp_all add: start_stream_def send_headers_def send_data_def send_trailers_def reset_stream_def
      platform_call_of.simps [abs_def])

lemma status_only_Inr [simp]: "status_only r = Inr q \<longleftrightarrow> (\<exists>st. r = Inr (st, q))"
  by (cases r) (auto simp: status_only_def)

lemma unat_of_nat_below: "k < 2 ^ 64 \<Longrightarrow> unat (of_nat k :: 64 word) = k"
  by (simp add: unat_of_nat take_bit_eq_mod)

lemma open_stream_inv:
  assumes inv: "process_inv V k p" and small: "Suc k < 2 ^ 64"
    and step: "process_step E V p (OpenStream cbs) = Inr q"
  shows "process_inv V (Suc k) q"
proof -
  let ?h = "of_nat k :: 64 word" and ?p = "p\<lparr>current_stream_handle := of_nat (Suc k)\<rparr>"
  have k: "unat ?h = k" using small by (intro unat_of_nat_below) simp
  have ei: "engines_inv V k p" using inv by (simp add: process_inv_def)
  then have "engines_inv V (Suc k) ?p" by (simp add: engines_inv_mono)
  moreover obtain st where "with_engine ?p (\<lambda>e. httpDispatcher e (platform_call_of (StartStream ?h cbs))) = Inr (st, q)"
    using step inv by (auto simp: init_stream_def process_inv_def call_start_stream add.commute)
  moreover have "env_ok (generateStats V) (http_dispatcher_obj e) (StartStream ?h cbs)"
    if "engines ?p i = Some e" for i e
    using engines_invD(3) [OF ei, of i e ?h] that k by auto
  ultimately have "engines_inv V (Suc k) q \<and> current_stream_handle q = current_stream_handle ?p"
    by (intro platform_call_inv [where ev = "StartStream ?h cbs"]) (simp_all add: k)
  then show ?thesis by (simp add: process_inv_def)
qed

lemma other_call_inv:
  assumes inv: "process_inv V k p" and ev: "platform_event ev" "api_call ev = [cb]" "start_handles [cb] = []"
    and step: "\<exists>st. with_engine p (\<lambda>e. httpDispatcher e (platform_call_of ev)) = Inr (st, q)"
  shows "process_inv V k q"
proof -
  have "env_ok c d ev" for c d using ev by (cases ev) auto
  with step show ?thesis
    using platform_call_inv [OF _ ev(1), of V k p _ q] inv ev(2,3) by (auto simp: process_inv_def)
qed

lemma own_step_keeps:
  assumes "engine_allowed spurious early_exit V f e" "engine_step E V f e = Inr f'" "own_step e"
    and "dtor_pc f = NotDestroyed"
  shows "dtor_pc f' = NotDestroyed"
  using assms
  by (cases e) (auto simp: run_init_def run_postinit_def run_metric_def run_loop_exit_def
      run_reset_scope_def run_reset_main_def run_finish_def notifyAll_def Let_def
      split: startup.splits listener_lookup.splits option.splits list.splits if_splits)

lemma engine_own_step_inv:
  assumes inv: "process_inv V k p" and ok: "process_allowed spurious early_exit V p (EngineStep i e)"
    and step: "process_step E V p (EngineStep i e) = Inr q"
  shows "process_inv V k q"
proof -
  obtain f where f: "engines p i = Some f" "engine_allowed spurious early_exit V f e" "own_step e"
    using ok by (auto split: option.splits)
  then obtain f' where f': "engine_step E V f e = Inr f'" "q = p\<lparr>engines := (engines p)(i \<mapsto> f')\<rparr>"
    using step by auto
  have ei: "engines_inv V k p" using inv by (simp add: process_inv_def)
  have "opened_by e = {}" using f(3) by (cases e) simp_all
  moreover have "dtor_pc f' = NotDestroyed" if "strong_engine p = Some i"
    using own_step_keeps [OF f(2) f'(1) f(3)] engines_invD(4) [OF ei that] f(1) by simp
  ultimately have "engines_inv V k q"
    unfolding f'(2) by (intro engines_inv_step [OF ei f(1,2) f'(1)]) simp_all
  then show ?thesis using inv f'(2) by (simp add: process_inv_def)
qed

lemma process_step_inv:
  assumes inv: "process_inv V k p" and ok: "process_allowed spurious early_exit V p ev"
    and step: "process_step E V p ev = Inr q" and small: "k + inits ev < 2 ^ 64"
  shows "process_inv V (k + inits ev) q"
proof (cases ev)
  case (OpenStream cbs)
  then show ?thesis using open_stream_inv [OF inv] small step by simp
next
  case (SendHeadersCall h hs es)
  then show ?thesis
    using other_call_inv [OF inv, of "SendHeaders h hs es"] step by (simp add: call_start_stream)
next
  case (SendDataCall h d es)
  then show ?thesis
    using other_call_inv [OF inv, of "SendData h d es"] step by (simp add: call_start_stream)
next
  case (SendTrailersCall h hs)
  then show ?thesis
    using other_call_inv [OF inv, of "SendTrailers h hs"] step by (simp add: call_start_stream)
next
  case (ResetStreamCall h)
  then show ?thesis
    using other_call_inv [OF inv, of "CancelStream h"] step by (simp add: call_start_stream)
next
  case (EngineStep i e)
  then show ?thesis using engine_own_step_inv [OF inv] ok step by simp
next
  case (RecordCall c)
  then show ?thesis using inv step record_call_inv [of V k p c _ q] by (auto simp: process_inv_def)
next
  case InitStream
  then show ?thesis
    using inv step engines_inv_mono [of V k p "Suc k"] by (auto simp: process_inv_def init_stream_def add.commute)
next
  case (RunEngineAssign cbs config log_level m)
  then show ?thesis using inv step run_engine_assign_inv [of V k p E cbs config log_level m q]
    by (simp add: process_inv_def)
next
  case (TerminateEngineCall h)
  then show ?thesis using inv step terminate_engine_inv [of V k p E h q] by (simp add: process_inv_def)
next
  case (SetPreferredNetworkCall net)
  then show ?thesis using inv step set_preferred_network_inv [of V k p net]
    by (auto simp: process_inv_def set_preferred_network_def)
qed (use inv step in \<open>auto simp: process_inv_def send_metadata_def register_platform_api_def run_engine_publish_def\<close>)

lemma process_run_inv:
  assumes "process_inv V k p" and "proc.allowed_run spurious early_exit V E p evs"
    and "proc.run E V p evs = Inr q" and "k + sum_list (map inits evs) < 2 ^ 64"
  shows "process_inv V (k + sum_list (map inits evs)) q"
  using assms
proof (induction evs arbitrary: k p)
  case Nil
  then show ?case by simp
next
  case (Cons ev evs)
  from Cons.prems(3) obtain u where u: "process_step E V p ev = Inr u" "proc.run E V u evs = Inr q" by auto
  have "process_inv V (k + inits ev) u"
    by (rule process_step_inv [OF Cons.prems(1) _ u(1)]) (use Cons.prems(2,4) in auto)
  from Cons.IH [OF this _ u(2)] show ?case
    using Cons.prems(2,4) u(1) by (simp add: add.assoc)
qed

section \<open>The properties\<close>

fun stream_handles :: "nat \<Rightarrow> ('h, 'b) process \<Rightarrow> envoy_stream_t list" where
  "stream_handles 0 p = []"
| "stream_handles (Suc n) p = (case init_stream p of (h, p') \<Rightarrow> h # stream_handles n p')"

lemma stream_handles_nth:
  "stream_handles n p = map (\<lambda>i. current_stream_handle p + of_nat i) [0..<n]"
proof (induction n arbitrary: p)
  case (Suc n)
  show ?case
    by (subst upt_conv_Cons) (simp_all add: init_stream_def Suc map_Suc_upt [symmetric] comp_def algebra_simps
        del: upt_Suc map_Suc_upt)
qed simp




text \<open>An engine runs, two streams are opened, one is reset, and the engine is replaced.\<close>

definition sample_process_events :: "(list_headers, byte list) process_event list" where
  "sample_process_events =
     [OpenStream sample_callbacks, RunEngineAssign sample_engine_callbacks ''config'' ''info'' sample_memory,
      RunEnginePublish, OpenStream sample_callbacks, OpenStream sample_callbacks, ResetStreamCall 1,
      EngineStep 0 RunInit, EngineStep 0 PostInit, EngineStep 0 (Loop RunPosted), EngineStep 0 (Loop RunPosted),
      EngineStep 0 (Loop RunPosted),
      RunEngineAssign sample_engine_callbacks ''config'' ''info'' sample_memory, OpenStream sample_callbacks,
      EngineStep 0 (LoopExit True)]"

lemmas process_defs =
  process_start_def init_stream_def start_stream_def reset_stream_def with_engine_def lock_engine_def
  run_engine_assign_def run_engine_publish_def release_engine_def status_only_def

lemma sample_process:
  "proc.allowed_run False False sample_server (list_envoy True) process_start sample_process_events"
  "\<exists>p e. proc.run (list_envoy True) sample_server process_start sample_process_events = Inr p \<and>
     engines p 0 = Some e \<and> next_oid (http_dispatcher_obj e) = 2 \<and> \<not> live (http_dispatcher_obj e) 0 \<and>
     live (http_dispatcher_obj e) 1 \<and> dtor_pc e = DtorJoining \<and> strong_engine p = Some 1"
  by (simp_all add: sample_process_events_def process_defs life_defs step_defs Let_def list_envoy_def)


section \<open>Calls and the engine\<close>

text \<open>The five stream calls with the callback each should post.\<close>

definition stream_calls ::
  "('h, 'b) process \<Rightarrow> envoy_stream_t \<Rightarrow> envoy_http_callbacks \<Rightarrow> envoy_headers \<Rightarrow> envoy_data \<Rightarrow> bool \<Rightarrow>
   ((abort + envoy_status_t \<times> ('h, 'b) process) \<times> post_cb) list" where
  "stream_calls p h cbs hs d es =
     [(start_stream p h cbs, StartStreamCb h cbs), (send_headers p h hs es, SendHeadersCb h hs es),
      (send_data p h d es, SendDataCb h d es), (send_trailers p h hs, SendTrailersCb h hs),
      (reset_stream p h, CancelStreamCb h)]"

lemma with_engine_None: "lock_engine p = None \<Longrightarrow> with_engine p f = Inr (ENVOY_FAILURE, p)"
  by (simp add: with_engine_def)

lemma http_call_posts:
  assumes "lock_engine p = Some (i, e)" "queue_ok (http_dispatcher_obj e)"
    and "main_common e \<or> \<not> event_dispatcher (http_dispatcher_obj e)"
    and "\<And>d. call d = (ENVOY_SUCCESS, post d cb)"
  shows "\<exists>q e'. with_engine p (\<lambda>e. httpDispatcher e call) = Inr (ENVOY_SUCCESS, q) \<and>
    q = p\<lparr>engines := (engines p)(i \<mapsto> e')\<rparr> \<and>
    pending (http_dispatcher_obj e') = pending (http_dispatcher_obj e) @ [cb]"
  using assms postq.abs_enq [OF assms(2), of cb]
  by (auto simp: with_engine_def httpDispatcher_def intro!: exI)

lemma released_lock: "terminate_engine E p0 h = Inr p \<Longrightarrow> lock_engine p = None"
  by (auto simp: terminate_engine_def release_engine_def lock_engine_def split: option.splits)


definition sample_process_1 :: "(list_headers, byte list) process" where
  "sample_process_1 = process_start\<lparr>engines := [0 \<mapsto> sample_engine], next_engine := 1,
     strong_engine := Some 0, weak_engine := Some 0\<rparr>"


end
