(* ===== verification/HeapInvariant.thy ===== *)
theory HeapInvariant
  imports MainInterfaceProps
begin

text \<open>
  The well-formedness of the C heap and the accounting of its memory, as a type that every operation
  keeps: the allocated addresses are below the next fresh one and not null, and the bytes of the blocks
  together with the bytes still available are the size of the heap. It holds of every operation that
  returns, whatever structs it was given, and so along every run of the C interface.
\<close>

section \<open>The invariant\<close>

definition memory_size :: "memory \<Rightarrow> nat" where
  "memory_size m = (\<Sum>p \<in> dom (blocks m). block_size (the (blocks m p)))"

definition heap_ok :: "nat \<Rightarrow> memory \<Rightarrow> bool" where
  "heap_ok n m \<longleftrightarrow> wf_memory m \<and> finite (dom (blocks m)) \<and> avail m + memory_size m = n"

named_theorems heap_keep

section \<open>The primitives\<close>

lemma heap_ok_put [heap_keep]:
  assumes "heap_ok n m" "blocks m p = Some b0" "block_size b = block_size b0"
  shows "heap_ok n (put_block m p b)"
proof -
  have d: "dom (blocks (put_block m p b)) = dom (blocks m)"
    using assms(2) by (auto simp: put_block_def)
  have "memory_size (put_block m p b) = memory_size m"
    unfolding memory_size_def d using assms(2,3) by (intro sum.cong) (auto simp: put_block_def)
  with assms(1) d show ?thesis by (simp add: heap_ok_def wf_memory_def) (simp add: put_block_def)
qed

lemma heap_ok_new:
  assumes ok: "heap_ok n m" and le: "block_size b \<le> avail m"
  shows "heap_ok n (m\<lparr>blocks := (blocks m)(next_ptr m \<mapsto> b), next_ptr := Suc (next_ptr m),
    avail := avail m - block_size b\<rparr>)" (is "heap_ok n ?m")
proof -
  have fresh: "next_ptr m \<notin> dom (blocks m)" and fin: "finite (dom (blocks m))"
    using ok wf_memory_fresh [of m] by (auto simp: heap_ok_def)
  have "(\<Sum>p \<in> dom (blocks m). block_size (the (blocks ?m p))) = memory_size m"
    unfolding memory_size_def using fresh by (intro sum.cong) auto
  then have "memory_size ?m = block_size b + memory_size m"
    using fresh fin by (simp add: memory_size_def)
  with ok le show ?thesis by (auto simp: heap_ok_def wf_memory_def dest: less_SucI)
qed

lemma heap_ok_malloc [heap_keep]: "heap_ok n m \<Longrightarrow> malloc m k = (p, m') \<Longrightarrow> heap_ok n m'"
  using heap_ok_new [of n m "ByteBlock (replicate k None)"] by (auto simp: malloc_def split: if_splits)

lemma heap_ok_free [heap_keep]:
  assumes ok: "heap_ok n m" and step: "c_free m p = Inr m'"
  shows "heap_ok n m'"
proof (cases "p = 0")
  case True
  then show ?thesis using assms by (simp add: c_free_def)
next
  case False
  then obtain b where b: "blocks m p = Some b"
    and m': "m' = m\<lparr>blocks := (blocks m)(p := None), avail := avail m + block_size b\<rparr>"
    using step by (auto simp: c_free_def split: option.splits)
  have "memory_size m = block_size b + (\<Sum>q \<in> dom (blocks m) - {p}. block_size (the (blocks m q)))"
    unfolding memory_size_def using ok b by (subst sum.remove [of _ p]) (auto simp: heap_ok_def)
  also have "(\<Sum>q \<in> dom (blocks m) - {p}. block_size (the (blocks m q))) = memory_size m'"
    unfolding memory_size_def m' by (intro sum.cong) auto
  finally show ?thesis using ok m' by (auto simp: heap_ok_def wf_memory_def)
qed

lemma heap_ok_store_bytes [heap_keep]: "heap_ok n m \<Longrightarrow> store_bytes m p bs = Inr m' \<Longrightarrow> heap_ok n m'"
  by (auto simp: store_bytes_def split: if_splits option.splits block.splits intro!: heap_ok_put)

lemma heap_ok_store_header [heap_keep]: "heap_ok n m \<Longrightarrow> store_header m p i h = Inr m' \<Longrightarrow> heap_ok n m'"
  by (auto simp: store_header_def Let_def split: if_splits option.splits block.splits intro!: heap_ok_put)

lemma heap_ok_log [simp]: "heap_ok n (m\<lparr>release_log := l\<rparr>) = heap_ok n m"
  by (simp add: heap_ok_def wf_memory_def memory_size_def)

section \<open>The functions of \<open>c_types.cc\<close>\<close>

lemma heap_ok_call_release [heap_keep]: "heap_ok n m \<Longrightarrow> call_release m f c = Inr m' \<Longrightarrow> heap_ok n m'"
  by (cases f) (auto dest: heap_ok_free)

lemma heap_ok_safe_malloc [heap_keep]: "heap_ok n m \<Longrightarrow> safe_malloc m k = Inr (p, m') \<Longrightarrow> heap_ok n m'"
  by (auto simp: safe_malloc_def split: prod.splits if_splits dest: heap_ok_malloc)

lemma heap_ok_safe_calloc [heap_keep]:
  assumes ok: "heap_ok n m" and step: "safe_calloc m c k = Inr (p, m')"
  shows "heap_ok n m'"
proof -
  obtain q m1 where q: "malloc m (c * k) = (q, m1)" by fastforce
  note ok1 = heap_ok_malloc [OF ok q]
  have "blocks m1 q = Some (ByteBlock (replicate (c * k) None))" if "q \<noteq> 0"
    using q that by (auto simp: malloc_def split: if_splits)
  then have "heap_ok n (put_block m1 q (ByteBlock (replicate (c * k) (Some 0))))" if "q \<noteq> 0"
    using that by (auto intro!: heap_ok_put [OF ok1])
  then show ?thesis
    using ok ok1 q step by (auto simp: safe_calloc_def calloc_def split: if_splits)
qed

lemma heap_ok_release_data [heap_keep]: "heap_ok n m \<Longrightarrow> release_envoy_data m d = Inr m' \<Longrightarrow> heap_ok n m'"
  by (auto simp: release_envoy_data_def dest: heap_ok_call_release)

lemma heap_ok_release_loop [heap_keep]:
  "heap_ok n m \<Longrightarrow> release_headers_loop m p i k = Inr m' \<Longrightarrow> heap_ok n m'"
proof (induction k arbitrary: m i)
  case (Suc k)
  then show ?case by (clarsimp) (meson heap_ok_release_data)
qed simp

lemma heap_ok_release_headers [heap_keep]:
  "heap_ok n m \<Longrightarrow> release_envoy_headers m hs = Inr m' \<Longrightarrow> heap_ok n m'"
  by (auto simp: release_envoy_headers_def dest: heap_ok_release_loop heap_ok_free)

lemma heap_ok_copy_data [heap_keep]:
  "heap_ok n m \<Longrightarrow> copy_envoy_data m k src = Inr (d, m') \<Longrightarrow> heap_ok n m'"
  by (clarsimp simp: copy_envoy_data_def) (meson heap_ok_safe_malloc heap_ok_store_bytes)

lemma heap_ok_copy_loop [heap_keep]:
  "heap_ok n m \<Longrightarrow> copy_headers_loop m src dst i k = Inr m' \<Longrightarrow> heap_ok n m'"
proof (induction k arbitrary: m i)
  case (Suc k)
  then show ?case by (clarsimp) (meson heap_ok_copy_data heap_ok_store_header)
qed simp

lemma heap_ok_copy_headers [heap_keep]:
  "heap_ok n m \<Longrightarrow> copy_envoy_headers m src = Inr (hs, m') \<Longrightarrow> heap_ok n m'"
  by (auto simp: copy_envoy_headers_def dest: heap_ok_safe_malloc heap_ok_copy_loop)

section \<open>The conversions\<close>

lemma heap_ok_toRequestHeaders [heap_keep]:
  "heap_ok n m \<Longrightarrow> toRequestHeaders H m hs = Inr (r, m') \<Longrightarrow> heap_ok n m'"
  by (auto simp: toRequestHeaders_def dest: heap_ok_release_headers)

lemma heap_ok_toRequestTrailers [heap_keep]:
  "heap_ok n m \<Longrightarrow> toRequestTrailers H m hs = Inr (r, m') \<Longrightarrow> heap_ok n m'"
  by (auto simp: toRequestTrailers_def dest: heap_ok_release_headers)

lemma heap_ok_iterate [heap_keep]:
  "heap_ok n m \<Longrightarrow> toBridgeHeaders_iterate m p i kvs = Inr (k, m') \<Longrightarrow> heap_ok n m'"
proof (induction kvs arbitrary: m i)
  case (Cons kv kvs)
  then show ?case by (cases kv, clarsimp) (meson heap_ok_copy_data heap_ok_store_header)
qed simp

lemma heap_ok_toBridgeHeaders [heap_keep]:
  "heap_ok n m \<Longrightarrow> toBridgeHeaders H m h = Inr (hs, m') \<Longrightarrow> heap_ok n m'"
  by (auto simp: toBridgeHeaders_def dest: heap_ok_safe_malloc heap_ok_iterate)

lemma heap_ok_toBridgeData [heap_keep]:
  "heap_ok n m \<Longrightarrow> toBridgeData B m b = Inr (d, b', m') \<Longrightarrow> heap_ok n m'"
  by (auto simp: toBridgeData_def Let_def dest: heap_ok_safe_malloc heap_ok_store_bytes)

lemma heap_ok_copyToBridgeData [heap_keep]:
  "heap_ok n m \<Longrightarrow> copyToBridgeData B m b = Inr (d, m') \<Longrightarrow> heap_ok n m'"
  by (auto simp: copyToBridgeData_def Let_def dest: heap_ok_safe_malloc heap_ok_store_bytes)

lemma heap_ok_fragment_done [heap_keep]: "heap_ok n m \<Longrightarrow> fragment_done m f = Inr m' \<Longrightarrow> heap_ok n m'"
  by (auto simp: fragment_done_def dest: heap_ok_call_release)

section \<open>The dispatcher\<close>

lemma mem_simps [simp]:
  "mem (emit s e) = mem s" "mem (update_callbacks s i f) = mem s" "mem (setResponseDetails s i d) = mem s"
  "mem (post s cb) = mem s" "mem (ready s c) = mem s" "mem (clearDeferredDeleteList s) = mem s"
  by (simp_all add: emit_def update_callbacks_def setResponseDetails_def post_def ready_def
      clearDeferredDeleteList_def)

lemma mem_removeStream: "removeStream E s h = Inr t \<Longrightarrow> mem t = mem s"
  by (auto simp: removeStream_def split: option.split_asm if_split_asm)

lemma mem_closeStream: "closeStream E s i = Inr t \<Longrightarrow> mem t = mem s"
  by (auto simp: closeStream_def with_stream_def split: option.split_asm dest: mem_removeStream)

lemma mem_update_stats: "update_stats E s f = Inr t \<Longrightarrow> mem t = mem s"
  by (auto simp: update_stats_def)

lemma mem_onComplete: "onComplete E s i = Inr t \<Longrightarrow> mem t = mem s"
  by (auto simp: onComplete_def with_stream_def split: option.split_asm if_split_asm dest!: mem_update_stats)

lemma mem_onError: "onError E s i = Inr t \<Longrightarrow> mem t = mem s"
  by (auto simp: onError_def with_stream_def Let_def split: option.split_asm if_split_asm dest!: mem_update_stats)

lemma mem_onCancel: "onCancel E s i = Inr t \<Longrightarrow> mem t = mem s"
  by (auto simp: onCancel_def with_stream_def split: option.split_asm if_split_asm dest!: mem_update_stats)

lemma mem_mapLocal: "mapLocalResponseToError E s i h = Inr t \<Longrightarrow> mem t = mem s"
  by (cases "EnvoyAttemptCount E h"; cases "SimpleAtoi E (the (EnvoyAttemptCount E h))")
    (auto simp: mapLocalResponseToError_def Let_def)

lemmas mem_frames = mem_removeStream mem_closeStream mem_onComplete mem_onError mem_onCancel mem_mapLocal

lemma heap_ok_encodeHeaders:
  "heap_ok n (mem s) \<Longrightarrow> encodeHeaders E s i h es = Inr t \<Longrightarrow> heap_ok n (mem t)"
  by (auto simp: encodeHeaders_def with_stream_def Let_def split: option.split_asm if_split_asm
      dest!: mem_frames dest: heap_ok_toBridgeHeaders)

lemma heap_ok_encodeData:
  "heap_ok n (mem s) \<Longrightarrow> encodeData E s i b es = Inr (b', t) \<Longrightarrow> heap_ok n (mem t)"
  by (auto simp: encodeData_def with_stream_def Let_def split: option.split_asm if_split_asm
      dest!: mem_frames dest: heap_ok_toBridgeData)

lemma heap_ok_encodeTrailers:
  "heap_ok n (mem s) \<Longrightarrow> encodeTrailers E s i h = Inr t \<Longrightarrow> heap_ok n (mem t)"
  by (auto simp: encodeTrailers_def with_stream_def split: option.split_asm
      dest!: mem_frames dest: heap_ok_toBridgeHeaders)

lemma decoder_ofD: "decoder_of s i f = Inr x \<Longrightarrow> \<exists>d. f d = Inr x"
  by (auto simp: decoder_of_def with_stream_def split: option.split_asm)

lemma heap_ok_run_callback:
  "heap_ok n (mem s) \<Longrightarrow> run_callback E s cb = Inr t \<Longrightarrow> heap_ok n (mem t)"
proof (cases cb)
  case (SendHeadersCb h hs es)
  assume "heap_ok n (mem s)" "run_callback E s cb = Inr t"
  with SendHeadersCb show ?thesis
    by (auto simp: run_sendHeaders_def split: option.split_asm
        dest!: decoder_ofD dest: heap_ok_toRequestHeaders)
next
  case (SendTrailersCb h hs)
  assume "heap_ok n (mem s)" "run_callback E s cb = Inr t"
  with SendTrailersCb show ?thesis
    by (auto simp: run_sendTrailers_def split: option.split_asm
        dest!: decoder_ofD dest: heap_ok_toRequestTrailers)
qed (auto simp: run_startStream_def run_sendData_def run_cancelStream_def with_stream_def
    Let_def split: option.split_asm if_split_asm dest!: decoder_ofD mem_frames)

lemma heap_ok_dispatcher_step [heap_keep]:
  assumes "heap_ok n (mem s)" "dispatcher_step E s ev = Inr t"
  shows "heap_ok n (mem t)"
proof (cases ev)
  case RunPosted
  then show ?thesis
    using assms heap_ok_run_callback [of n "s\<lparr>posted := tl (posted s)\<rparr>"] by (auto split: list.splits)
next
  case (ResetStream i r)
  then show ?thesis
    using assms by (auto simp: resetStream_def with_stream_def Let_def split: option.split_asm dest!: mem_frames)
next
  case (FragmentDone k)
  then show ?thesis using assms by (auto split: if_splits dest: heap_ok_fragment_done)
qed (use assms in \<open>auto simp: startStream_def sendHeaders_def sendData_def sendTrailers_def cancelStream_def
    dest: heap_ok_encodeHeaders heap_ok_encodeData heap_ok_encodeTrailers\<close>)

section \<open>The engine and the C interface\<close>

abbreviation engine_heap :: "('h, 'b) engine \<Rightarrow> memory" where
  "engine_heap e \<equiv> mem (http_dispatcher_obj e)"

lemma mem_platform_call: "mem (snd (platform_call_of ev d)) = mem d"
  by (cases ev) (simp_all add: startStream_def sendHeaders_def sendData_def sendTrailers_def cancelStream_def)

lemma heap_ok_engine_step [heap_keep]:
  assumes "heap_ok n (engine_heap s)" "engine_step E V s ev = Inr t"
  shows "heap_ok n (engine_heap t)"
proof (cases ev)
  case (Platform e)
  then show ?thesis
    using assms mem_platform_call [of e "http_dispatcher_obj s"]
    by (auto simp: httpDispatcher_def split_beta split: if_splits)
next
  case (Loop e)
  then show ?thesis using assms by (auto dest: heap_ok_dispatcher_step)
next
  case (Record c)
  from assms(2) [unfolded Record] show ?thesis
    by (rule record_stepE) (use assms in simp_all)
next
  case PostInit
  then show ?thesis
    using assms by (auto simp: run_postinit_def Let_def split: listener_lookup.splits option.splits)
qed (use assms in \<open>auto simp: engine_defs Let_def split: startup.splits if_splits list.splits option.splits\<close>)

definition heaps_ok :: "nat \<Rightarrow> ('h, 'b) process \<Rightarrow> bool" where
  "heaps_ok n p \<longleftrightarrow> (\<forall>i e. engines p i = Some e \<longrightarrow> heap_ok n (engine_heap e))"

lemma heaps_okD: "heaps_ok n p \<Longrightarrow> engines p i = Some e \<Longrightarrow> heap_ok n (engine_heap e)"
  by (simp add: heaps_ok_def)

lemma heaps_ok_frame [simp]:
  "heaps_ok n (p\<lparr>current_stream_handle := h\<rparr>) = heaps_ok n p"
  "heaps_ok n (p\<lparr>platform_apis := r\<rparr>) = heaps_ok n p"
  "heaps_ok n (p\<lparr>strong_engine := w\<rparr>) = heaps_ok n p"
  "heaps_ok n (p\<lparr>weak_engine := w\<rparr>) = heaps_ok n p"
  by (simp_all add: heaps_ok_def)

lemma heaps_ok_update:
  "heaps_ok n p \<Longrightarrow> heap_ok n (engine_heap e) \<Longrightarrow> heaps_ok n (p\<lparr>engines := (engines p)(i \<mapsto> e)\<rparr>)"
  by (simp add: heaps_ok_def)

lemma heaps_ok_with_engine:
  assumes ok: "heaps_ok n p" and step: "with_engine p f = Inr (st, q)"
    and f: "\<And>e st e'. f e = Inr (st, e') \<Longrightarrow> engine_heap e' = engine_heap e"
  shows "heaps_ok n q"
proof (cases "lock_engine p")
  case None
  then show ?thesis using ok step by (simp add: with_engine_def)
next
  case (Some ie)
  then obtain i e where ie: "lock_engine p = Some (i, e)" by (cases ie) simp
  then obtain e' where e': "f e = Inr (st, e')" "q = p\<lparr>engines := (engines p)(i \<mapsto> e')\<rparr>"
    using step by (auto simp: with_engine_def)
  have "heap_ok n (engine_heap e)" using heaps_okD [OF ok] lock_engineD [OF ie] by blast
  then show ?thesis using heaps_ok_update [OF ok] f [OF e'(1)] e'(2) by simp
qed

lemma heaps_ok_call:
  "heaps_ok n p \<Longrightarrow> with_engine p (\<lambda>e. httpDispatcher e (platform_call_of ev)) = Inr (st, q) \<Longrightarrow> heaps_ok n q"
  by (rule heaps_ok_with_engine)
    (auto simp: httpDispatcher_def mem_platform_call split_beta split: if_splits)

lemma heaps_ok_record: "heaps_ok n p \<Longrightarrow> record_call V p c = Inr (st, q) \<Longrightarrow> heaps_ok n q"
  by (cases c) (auto simp: record_counter_def record_gauge_set_def record_gauge_add_def record_gauge_sub_def
      engine_defs split: if_splits elim!: heaps_ok_with_engine)

lemma heaps_ok_release: "heaps_ok n p \<Longrightarrow> release_engine E p owner = Inr q \<Longrightarrow> heaps_ok n q"
  using heap_ok_engine_step [of n _ E undefined DtorEnter]
  by (auto simp: release_engine_def split: option.split_asm dest: heaps_okD intro!: heaps_ok_update)

fun supplied_heap_ok :: "nat \<Rightarrow> ('h, 'b) process_event \<Rightarrow> bool" where
  "supplied_heap_ok n (RunEngineAssign cbs config log_level m) = heap_ok n m"
| "supplied_heap_ok n _ = True"

lemma heaps_ok_assign:
  assumes "heaps_ok n p" "heap_ok n m" "run_engine_assign E p cbs config log_level m = Inr q"
  shows "heaps_ok n q"
  using assms(3) unfolding run_engine_assign_def Let_def
  by (rule heaps_ok_release [rotated])
    (use assms(1,2) in \<open>auto simp: heaps_ok_def new_engine_def new_dispatcher_def\<close>)

lemma heaps_ok_step:
  assumes ok: "heaps_ok n p" and sup: "supplied_heap_ok n ev" and step: "process_step E V p ev = Inr q"
  shows "heaps_ok n q"
proof (cases ev)
  case (EngineStep i e)
  then show ?thesis
    using ok step by (auto split: option.split_asm dest: heaps_okD heap_ok_engine_step intro!: heaps_ok_update)
next
  case (RunEngineAssign cbs config log_level m)
  then show ?thesis using ok sup step heaps_ok_assign by auto
next
  case (TerminateEngineCall h)
  then show ?thesis
    using ok step heaps_ok_release [of n "p\<lparr>strong_engine := None\<rparr>"] by (simp add: terminate_engine_def)
next
  case (SetPreferredNetworkCall net)
  then show ?thesis using ok step by (auto simp: heaps_ok_def set_preferred_network_def set_network_def)
next
  case (RecordCall c)
  then show ?thesis using ok step heaps_ok_record by auto
next
  case (OpenStream cbs)
  then show ?thesis
    using ok step heaps_ok_call [of n "snd (init_stream p)"] by (auto simp: call_start_stream init_stream_def)
qed (use ok step in \<open>auto simp: call_start_stream init_stream_def send_metadata_def register_platform_api_def
    run_engine_publish_def intro: heaps_ok_call\<close>)

lemma heaps_ok_run:
  "heaps_ok n p \<Longrightarrow> list_all (supplied_heap_ok n) evs \<Longrightarrow> proc.run E V p evs = Inr q \<Longrightarrow> heaps_ok n q"
  by (induction evs arbitrary: p) (auto dest: heaps_ok_step)


text \<open>A stream is opened and Envoy answers it, on an engine with the heap \<open>m\<close>.\<close>

definition answer_events :: "memory \<Rightarrow> (list_headers, byte list) process_event list" where
  "answer_events m =
     [RunEngineAssign sample_engine_callbacks ''config'' ''info'' m, RunEnginePublish,
      OpenStream sample_callbacks, EngineStep 0 RunInit, EngineStep 0 PostInit, EngineStep 0 (Loop RunPosted)]"

definition answer_headers :: "(list_headers, byte list) process_event" where
  "answer_headers = EngineStep 0 (Loop (EncodeHeaders 0 ok_headers False))"

lemma sample_memory_ok: "heap_ok 1067 sample_memory"
  by (simp add: heap_ok_def wf_memory_def memory_size_def sample_memory_def)

lemma answer_run:
  "proc.allowed_run False False sample_server (list_envoy True) process_start (answer_events m)"
  "\<exists>p e. proc.run (list_envoy True) sample_server process_start (answer_events m) = Inr p \<and>
     engines p 0 = Some e \<and> engine_heap e = m"
  by (simp_all add: answer_events_def process_defs life_defs step_defs Let_def list_envoy_def)

lemmas answer_defs =
  answer_events_def answer_headers_def process_defs life_defs step_defs Let_def list_envoy_def
  encodeHeaders_def update_callbacks_def toBridgeHeaders_def safe_malloc_def malloc_def copy_envoy_data_def
  store_bytes_def store_header_def put_block_def ok_headers_def list_header_map_def sizeof_envoy_header_def

lemma answer_run_headers:
  "\<exists>p e. proc.run (list_envoy True) sample_server process_start (answer_events sample_memory @ [answer_headers]) =
     Inr p \<and> engines p 0 = Some e \<and> avail (engine_heap e) = 860"
  by (simp add: answer_defs sample_memory_def ascii_lower_def)


section \<open>Aborts in every reachable state\<close>

text \<open>C15. In a process whose engines were given well-formed heaps, nothing the connection manager does, and
  no start or cancellation of a stream by the event loop, can abort an engine for a reason of the
  dispatcher's own: no assertion on streams fails, and no null or destroyed object is used. The process
  stops there only if the C heap is exhausted or the status of a response cannot be parsed.\<close>

theorem process_aborts_only_for_memory:
  assumes run: "proc.allowed_run spurious early_exit V E process_start evs"
    "proc.run E V process_start evs = Inr p" "sum_list (map inits evs) < 2 ^ 64"
    and heaps: "list_all (supplied_heap_ok n) evs" and laws: "envoy_laws E"
    and e: "engines p i = Some e" "engine_allowed spurious early_exit V e (Loop ev)"
    and ctl: "control_event E (http_dispatcher_obj e) ev"
    and ab: "process_step E V p (EngineStep i (Loop ev)) = Inl a"
  shows "a = malloc_failure \<or> (\<exists>j h es. ev = EncodeHeaders j h es \<and> getResponseStatus E h = Inl a)"
proof -
  have "process_inv V (0 + sum_list (map inits evs)) p"
    by (rule process_run_inv [OF process_start_inv run(1,2)]) (use run(3) in simp)
  then have inv: "dispatcher_inv (generateStats V) (http_dispatcher_obj e)"
    using engines_invD(1) [OF _ e(1)] by (auto simp: process_inv_def http_inv_def)
  have "heaps_ok n p"
    by (rule heaps_ok_run [OF _ heaps run(2)]) (simp add: heaps_ok_def process_start_def)
  then have wf: "wf_memory (engine_heap e)" using heaps_okD e(1) by (auto simp: heap_ok_def)
  have "dispatcher_step E (http_dispatcher_obj e) ev = Inl a"
    using ab e(1) by (simp add: bindE_eq_Inl)
  with control_events_abort_only_for_memory [OF inv _ laws wf ctl] e(2) show ?thesis by simp
qed

text \<open>The same answer on an engine whose heap is full.\<close>

definition full_memory :: memory where
  "full_memory = sample_memory\<lparr>avail := 0\<rparr>"

lemma full_answer:
  "\<exists>p e. proc.run (list_envoy True) sample_server process_start (answer_events full_memory) = Inr p \<and>
     engines p 0 = Some e \<and>
     engine_allowed False False sample_server e (Loop (EncodeHeaders 0 ok_headers False)) \<and>
     (\<exists>a. process_step (list_envoy True) sample_server p answer_headers = Inl a)"
  by (simp add: answer_defs full_memory_def sample_memory_def ascii_lower_def RELEASE_ASSERT_def)

theorem process_aborts_only_for_memory_witness:
  "\<exists>p. proc.run (list_envoy True) sample_server process_start (answer_events full_memory) = Inr p \<and>
     process_step (list_envoy True) sample_server p answer_headers = Inl malloc_failure"
proof -
  obtain p e a where p: "proc.run (list_envoy True) sample_server process_start (answer_events full_memory) = Inr p"
    and e: "engines p 0 = Some e"
      "engine_allowed False False sample_server e (Loop (EncodeHeaders 0 ok_headers False))"
    and a: "process_step (list_envoy True) sample_server p answer_headers = Inl a"
    using full_answer by blast
  have inits: "sum_list (map inits (answer_events full_memory)) < 2 ^ 64" by (simp add: answer_events_def)
  have heap: "list_all (supplied_heap_ok 67) (answer_events full_memory)"
    by (simp add: answer_events_def full_memory_def heap_ok_def wf_memory_def memory_size_def sample_memory_def)
  have ctl: "control_event (list_envoy True) (http_dispatcher_obj e) (EncodeHeaders 0 ok_headers False)"
    by (simp add: ok_headers_size)
  from process_aborts_only_for_memory [OF answer_run(1) p inits heap list_envoy_laws e ctl
      a [unfolded answer_headers_def]] p a
  show ?thesis by (auto simp: sample_status(1))
qed

end
