(* ===== verification/JniUtility.thy ===== *)
theory JniUtility
  imports BufferUtility
begin

text \<open>
  \<open>src/library/common/jni/jni_utility.cc\<close> and the part of the JVM it talks to.

  A Java value is what the native code can see of an object: the contents of a byte array, the address and
  capacity of a direct buffer, the elements of an object array, the number in an \<open>Integer\<close>, or an
  application object with an identity. \<open>jni_state\<close> is the process seen from a native thread: the JVM that
  loaded the library, if any, the C heap, the global references (a \<open>void*\<close> context is the number of one), the local references of the thread, as
  the number held in each frame, whether the thread is attached and its thread-local \<open>local_env\<close>, the
  strings borrowed with \<open>GetStringUTFChars\<close>, and the Java methods called so far. What a Java method
  returns is a parameter, a function of the calls so far.

  A use of a reference that was deleted, of the environment of a detached thread or of a null reference is
  undefined behaviour.
\<close>

section \<open>The JVM\<close>

datatype jvalue =
    JNull
  | JByteArray "byte list"
  | JDirectBuffer ptr nat
  | JArrayBuffer "byte list"
  | JObjectArray "jvalue list"
  | JInteger int
  | JObject nat

datatype jarg = JBytes "byte list" | JLong int | JBool bool | JInt int

record jcall =
  jc_object :: jvalue
  jc_method :: string
  jc_args :: "jarg list"

type_synonym java = "jcall list \<Rightarrow> jvalue"

record jni_state =
  static_jvm :: "nat option"
  jni_mem :: memory
  global_refs :: "ptr \<Rightarrow> jvalue option"
  next_global :: ptr
  local_refs :: "nat list"
  attached :: bool
  local_env :: bool
  utf_chars :: nat
  jcalls :: "jcall list"

definition new_local :: "jni_state \<Rightarrow> jni_state" where
  "new_local s = s\<lparr>local_refs := (case local_refs s of [] \<Rightarrow> [1] | n # fs \<Rightarrow> Suc n # fs)\<rparr>"

definition DeleteLocalRef :: "jni_state \<Rightarrow> jni_state" where
  "DeleteLocalRef s = s\<lparr>local_refs := (case local_refs s of [] \<Rightarrow> [] | n # fs \<Rightarrow> (n - 1) # fs)\<rparr>"

definition PushLocalFrame :: "jni_state \<Rightarrow> jni_state" where
  "PushLocalFrame s = s\<lparr>local_refs := 0 # local_refs s\<rparr>"

definition PopLocalFrame :: "jni_state \<Rightarrow> jni_state" where
  "PopLocalFrame s = s\<lparr>local_refs := tl (local_refs s)\<rparr>"

definition NewGlobalRef :: "jni_state \<Rightarrow> jvalue \<Rightarrow> ptr \<times> jni_state" where
  "NewGlobalRef s v = (next_global s,
     s\<lparr>global_refs := (global_refs s)(next_global s \<mapsto> v), next_global := Suc (next_global s)\<rparr>)"

definition DeleteGlobalRef :: "jni_state \<Rightarrow> ptr \<Rightarrow> abort + jni_state" where
  "DeleteGlobalRef s r = (case global_refs s r of
     None \<Rightarrow> Inl InvalidFree | Some _ \<Rightarrow> Inr (s\<lparr>global_refs := (global_refs s)(r := None)\<rparr>))"

definition deref_global :: "jni_state \<Rightarrow> ptr \<Rightarrow> abort + jvalue" where
  "deref_global s r = (case global_refs s r of None \<Rightarrow> Inl UseAfterFree | Some v \<Rightarrow> Inr v)"

text \<open>A method that returns an object gives the caller a local reference unless it returns null; a
  void method gives none.\<close>

definition log_call :: "jni_state \<Rightarrow> jvalue \<Rightarrow> string \<Rightarrow> jarg list \<Rightarrow> jni_state" where
  "log_call s obj method args = s\<lparr>jcalls := jcalls s @ [\<lparr>jc_object = obj, jc_method = method, jc_args = args\<rparr>]\<rparr>"

definition CallObjectMethod ::
  "java \<Rightarrow> jni_state \<Rightarrow> jvalue \<Rightarrow> string \<Rightarrow> jarg list \<Rightarrow> jvalue \<times> jni_state" where
  "CallObjectMethod J s obj method args =
     (let s' = log_call s obj method args; r = J (jcalls s')
      in (r, if r = JNull then s' else new_local s'))"

text \<open>\<open>GetObjectArrayElement\<close>: an index out of range throws and gives null.\<close>

definition GetObjectArrayElement :: "jni_state \<Rightarrow> jvalue \<Rightarrow> nat \<Rightarrow> abort + jvalue \<times> jni_state" where
  "GetObjectArrayElement s arr i = (case arr of
     JObjectArray vs \<Rightarrow>
       if i < length vs \<and> vs ! i \<noteq> JNull then Inr (vs ! i, new_local s) else Inr (JNull, s)
   | _ \<Rightarrow> Inl InvalidAccess)"

definition byte_array :: "jvalue \<Rightarrow> abort + byte list" where
  "byte_array v = (case v of JByteArray bs \<Rightarrow> Inr bs | _ \<Rightarrow> Inl InvalidAccess)"

section \<open>\<open>jni_utility.cc\<close>\<close>

definition set_vm :: "jni_state \<Rightarrow> nat option \<Rightarrow> jni_state" where
  "set_vm s vm = s\<lparr>static_jvm := vm\<rparr>"

definition get_vm :: "jni_state \<Rightarrow> nat option" where
  "get_vm s = static_jvm s"

definition get_env :: "jni_state \<Rightarrow> abort + jni_state" where
  "get_env s =
     (if local_env s then if attached s then Inr s else Inl UseAfterFree
      else if static_jvm s = None then Inl NullDereference
      else Inr (s\<lparr>attached := True, local_env := True\<rparr>))"

text \<open>\<open>local_env\<close> keeps its value.\<close>

definition jvm_detach_thread :: "jni_state \<Rightarrow> abort + jni_state" where
  "jvm_detach_thread s =
     (if static_jvm s = None then Inl NullDereference else Inr (s\<lparr>attached := False\<rparr>))"

definition jni_delete_global_ref :: "jni_state \<Rightarrow> ptr \<Rightarrow> abort + jni_state" where
  "jni_delete_global_ref s context = bindE (get_env s) (\<lambda>s1. DeleteGlobalRef s1 context)"

definition jni_delete_const_global_ref :: "jni_state \<Rightarrow> ptr \<Rightarrow> abort + jni_state" where
  "jni_delete_const_global_ref s context = jni_delete_global_ref s context"

text \<open>\<open>FindClass\<close> gives a local reference, which is not deleted.\<close>

definition unbox_integer :: "jni_state \<Rightarrow> jvalue \<Rightarrow> abort + int \<times> jni_state" where
  "unbox_integer s boxed = (case boxed of JInteger i \<Rightarrow> Inr (i, new_local s) | _ \<Rightarrow> Inl InvalidAccess)"

definition array_to_native_data :: "jni_state \<Rightarrow> jvalue \<Rightarrow> abort + envoy_data \<times> jni_state" where
  "array_to_native_data s j_data =
     bindE (byte_array j_data) (\<lambda>bs.
     bindE (safe_malloc (jni_mem s) (length bs)) (\<lambda>(native_bytes, m1).
     bindE (store_bytes m1 native_bytes bs) (\<lambda>m2.
     Inr (\<lparr>ed_length = length bs, ed_bytes = native_bytes, ed_release = free_release,
           ed_context = native_bytes\<rparr>, s\<lparr>jni_mem := m2\<rparr>))))"

text \<open>The release function of a direct buffer is \<open>jni_delete_global_ref\<close>.\<close>

definition jni_release :: envoy_release_f where
  "jni_release = foreign_release 1"

definition buffer_to_native_data :: "jni_state \<Rightarrow> jvalue \<Rightarrow> abort + envoy_data \<times> jni_state" where
  "buffer_to_native_data s j_data = (case j_data of
     JDirectBuffer direct_address capacity \<Rightarrow>
       if direct_address = NULL then Inl InvalidAccess
       else (case NewGlobalRef s j_data of (r, s') \<Rightarrow>
         Inr (\<lparr>ed_length = capacity, ed_bytes = direct_address, ed_release = jni_release, ed_context = r\<rparr>, s'))
   | JArrayBuffer bs \<Rightarrow> array_to_native_data (new_local (new_local s)) (JByteArray bs)
   | _ \<Rightarrow> Inl InvalidAccess)"

text \<open>The loop of \<open>to_native_headers\<close> over the elements that are left; a key without a value makes it
  read past the end of the array.\<close>

fun to_native_loop :: "jni_state \<Rightarrow> ptr \<Rightarrow> nat \<Rightarrow> jvalue list \<Rightarrow> abort + jni_state" where
  "to_native_loop s arr n [] = Inr s"
| "to_native_loop s arr n [j_key] =
     bindE (array_to_native_data (new_local s) j_key) (\<lambda>_. Inl InvalidAccess)"
| "to_native_loop s arr n (j_key # j_value # rest) =
     bindE (array_to_native_data (new_local s) j_key) (\<lambda>(header_key, s1).
     bindE (array_to_native_data (new_local s1) j_value) (\<lambda>(header_value, s2).
     bindE (store_header (jni_mem s2) arr n \<lparr>eh_key = header_key, eh_value = header_value\<rparr>) (\<lambda>m3.
     to_native_loop (s2\<lparr>jni_mem := m3\<rparr>) arr (Suc n) rest)))"

definition to_native_headers :: "jni_state \<Rightarrow> jvalue \<Rightarrow> abort + envoy_headers \<times> jni_state" where
  "to_native_headers s headers = (case headers of
     JObjectArray elements \<Rightarrow>
       bindE (safe_malloc (jni_mem s) (sizeof_envoy_header * length elements div 2)) (\<lambda>(arr, m1).
       bindE (to_native_loop (s\<lparr>jni_mem := m1\<rparr>) arr 0 elements) (\<lambda>s2.
       Inr (\<lparr>hs_length = int (length elements) div 2, hs_headers = arr\<rparr>, s2)))
   | _ \<Rightarrow> Inl InvalidAccess)"

section \<open>Native copies\<close>

text \<open>A byte array becomes a fresh \<open>envoy_data\<close>, and an array of keys and values fresh headers: the
  interfaces \<open>data_copier\<close> and \<open>headers_copier\<close> of the other conversions.\<close>

lemma array_to_native_place:
  "wf_memory (jni_mem s) \<Longrightarrow> array_to_native_data s (JByteArray bs) =
     bindE (place (jni_mem s) bs) (\<lambda>(d, m). Inr (d, s\<lparr>jni_mem := m\<rparr>))"
  using copy_envoy_data_place [of "jni_mem s" "AtView bs" "length bs" bs]
  by (auto simp: array_to_native_data_def byte_array_def copy_envoy_data_def bindE_def split: sum.splits prod.splits)

interpretation arrayd: data_copier "\<lambda>(s, v) bs. v = JByteArray bs"
  "\<lambda>m (s, v). bindE (array_to_native_data (s\<lparr>jni_mem := m\<rparr>) v) (\<lambda>(d, s'). Inr (d, jni_mem s'))"
  by unfold_locales (auto simp: array_to_native_place bindE_def split: sum.splits prod.splits)

fun flat :: "(byte list \<times> byte list) list \<Rightarrow> jvalue list" where
  "flat [] = []"
| "flat ((k, v) # kvs) = JByteArray k # JByteArray v # flat kvs"

lemma length_flat [simp]: "length (flat kvs) = 2 * length kvs"
  by (induction kvs rule: flat.induct) auto

text \<open>The thread's local references after \<open>n\<close> more were made in the current frame.\<close>

definition more_locals :: "nat \<Rightarrow> jni_state \<Rightarrow> jni_state" where
  "more_locals n s = (new_local ^^ n) s"

lemma new_local_mem [simp]:
  "jni_mem (new_local s) = jni_mem s" "new_local (s\<lparr>jni_mem := m\<rparr>) = (new_local s)\<lparr>jni_mem := m\<rparr>"
  by (simp_all add: new_local_def)

lemma more_locals_simps [simp]:
  "more_locals 0 s = s" "more_locals (Suc n) s = more_locals n (new_local s)"
  "jni_mem (more_locals n s) = jni_mem s"
  "more_locals n (s\<lparr>jni_mem := m\<rparr>) = (more_locals n s)\<lparr>jni_mem := m\<rparr>"
proof -
  show "more_locals 0 s = s" "more_locals (Suc n) s = more_locals n (new_local s)" for s n
    by (simp_all add: more_locals_def funpow_swap1)
  then show "jni_mem (more_locals n s) = jni_mem s"
    "more_locals n (s\<lparr>jni_mem := m\<rparr>) = (more_locals n s)\<lparr>jni_mem := m\<rparr>"
    by (induction n arbitrary: s) auto
qed

lemma store_header_wf: "wf_memory m \<Longrightarrow> store_header m p i h = Inr m' \<Longrightarrow> wf_memory m'"
  by (auto simp: store_header_def Let_def intro: wf_put_block split: option.splits block.splits if_splits)

lemma place_wf: "wf_memory m \<Longrightarrow> place m bs = Inr (d, m') \<Longrightarrow> wf_memory m'"
  by (auto simp: place_def wf_memory_def less_Suc_eq split: if_splits)

lemma to_native_loop_place:
  "wf_memory (jni_mem s) \<Longrightarrow> to_native_loop s p n (flat kvs) =
     bindE (place_pairs (jni_mem s) p n kvs) (\<lambda>m. Inr ((more_locals (2 * length kvs) s)\<lparr>jni_mem := m\<rparr>))"
proof (induction kvs arbitrary: s n rule: flat.induct)
  case 1
  show ?case by simp
next
  case (2 k v kvs)
  have "to_native_loop s p n (flat ((k, v) # kvs)) =
      bindE (place (jni_mem s) k) (\<lambda>(key, m1). bindE (place m1 v) (\<lambda>(val, m2).
      bindE (store_header m2 p n \<lparr>eh_key = key, eh_value = val\<rparr>) (\<lambda>m3.
      to_native_loop ((new_local (new_local s))\<lparr>jni_mem := m3\<rparr>) p (Suc n) (flat kvs))))"
    using 2(2)
    by (cases "place (jni_mem s) k")
      (auto simp: array_to_native_place bindE_assoc split_beta cong: bindE_cong dest: place_wf)
  also have "\<dots> = bindE (place_pairs (jni_mem s) p n ((k, v) # kvs)) (\<lambda>m.
      Inr ((more_locals (2 * length kvs) (new_local (new_local s)))\<lparr>jni_mem := m\<rparr>))"
  proof -
    have "to_native_loop ((new_local (new_local s))\<lparr>jni_mem := m3\<rparr>) p (Suc n) (flat kvs) =
        bindE (place_pairs m3 p (Suc n) kvs) (\<lambda>m.
          Inr ((more_locals (2 * length kvs) (new_local (new_local s)))\<lparr>jni_mem := m\<rparr>))"
      if "place (jni_mem s) k = Inr (key, m1)" "place m1 v = Inr (val, m2)" "store_header m2 p n h = Inr m3"
      for key m1 val m2 m3 h
      using 2(1) [of "(new_local (new_local s))\<lparr>jni_mem := m3\<rparr>"]
        store_header_wf [OF place_wf [OF place_wf [OF 2(2) that(1)] that(2)] that(3)] by simp
    then show ?thesis by (auto simp: bindE_assoc split_beta intro!: bindE_cong)
  qed
  finally show ?case by simp
qed

lemma to_native_headers_place:
  assumes "wf_memory (jni_mem s)"
  shows "to_native_headers s (JObjectArray (flat kvs)) =
    bindE (safe_malloc (jni_mem s) (sizeof_envoy_header * length kvs)) (\<lambda>(p, m1).
    bindE (place_pairs m1 p 0 kvs) (\<lambda>m2.
    Inr (\<lparr>hs_length = int (length kvs), hs_headers = p\<rparr>, (more_locals (2 * length kvs) s)\<lparr>jni_mem := m2\<rparr>)))"
  unfolding to_native_headers_def
  by (auto simp: to_native_loop_place bindE_assoc split_beta intro!: bindE_cong
      dest: wf_safe_malloc [OF assms])

interpretation nativeh: headers_copier "\<lambda>m (s, v) kvs. v = JObjectArray (flat kvs)"
  "\<lambda>m (s, v). bindE (to_native_headers (s\<lparr>jni_mem := m\<rparr>) v) (\<lambda>(hs, s'). Inr (hs, jni_mem s'))"
  by unfold_locales (auto simp: to_native_headers_place bindE_assoc split_beta intro!: bindE_cong)

end
