(* ===== verification/PlatformBridge.thy ===== *)
theory PlatformBridge
  imports HeaderUtility BufferUtility ExternalApi
begin

text \<open>
  The platform bridge filter
  (\<open>src/library/common/extensions/filters/http/platform_bridge/filter.cc\<close>, \<open>filter.h\<close>, \<open>c_types.h\<close>,
  \<open>c_type_definitions.h\<close>): it hands the headers, data and trailers of a stream to a filter written
  for the platform and applies what that filter returns.

  The functions of the platform filter belong to the platform: they are fields of \<open>envoy_http_filter\<close>,
  functions over the platform's own state \<open>'p\<close> and the C heap. Envoy's status enums are parameters
  (\<open>filter_enums\<close>). A pointer to a struct that the platform allocated (\<open>envoy_headers*\<close>,
  \<open>envoy_data*\<close>) is the address with the struct it holds. Header maps live in Envoy; the filter keeps
  pointers to them (\<open>hid\<close>). The buffer the filter manager keeps for a direction may be absent
  (\<open>decodingBuffer()\<close> null). \<open>weak_from_this()\<close> refers to the filter only once a \<open>shared_ptr\<close> owns
  it; \<open>owned\<close> records that.
\<close>

section \<open>Types of the C interface\<close>

text \<open>The integer values of Envoy's enumerators.\<close>

record filter_enums =
  FilterHeadersStatus_Continue :: int
  FilterHeadersStatus_StopIteration :: int
  FilterHeadersStatus_StopAllIterationAndBuffer :: int
  FilterDataStatus_Continue :: int
  FilterDataStatus_StopIterationAndBuffer :: int
  FilterDataStatus_StopIterationNoBuffer :: int
  FilterTrailersStatus_Continue :: int
  FilterTrailersStatus_StopIteration :: int

text \<open>What the source relies on: \<open>Continue\<close> is the first enumerator, the others follow it and
  differ.\<close>

definition filter_enums_laws :: "('z) filter_enums_scheme \<Rightarrow> bool" where
  "filter_enums_laws F \<longleftrightarrow>
     FilterHeadersStatus_Continue F < FilterHeadersStatus_StopIteration F \<and>
     FilterDataStatus_Continue F < FilterDataStatus_StopIterationAndBuffer F \<and>
     FilterDataStatus_Continue F < FilterDataStatus_StopIterationNoBuffer F \<and>
     FilterDataStatus_StopIterationAndBuffer F \<noteq> FilterDataStatus_StopIterationNoBuffer F \<and>
     FilterTrailersStatus_Continue F < FilterTrailersStatus_StopIteration F"

definition kEnvoyFilterHeadersStatusContinue :: "'z filter_enums_scheme \<Rightarrow> int" where
  "kEnvoyFilterHeadersStatusContinue F = FilterHeadersStatus_Continue F"
definition kEnvoyFilterHeadersStatusStopIteration :: "'z filter_enums_scheme \<Rightarrow> int" where
  "kEnvoyFilterHeadersStatusStopIteration F = FilterHeadersStatus_StopIteration F"
definition kEnvoyFilterHeadersStatusStopAllIterationAndBuffer :: "'z filter_enums_scheme \<Rightarrow> int" where
  "kEnvoyFilterHeadersStatusStopAllIterationAndBuffer F = FilterHeadersStatus_StopAllIterationAndBuffer F"
definition kEnvoyFilterHeadersStatusResumeIteration :: "'z filter_enums_scheme \<Rightarrow> int" where
  "kEnvoyFilterHeadersStatusResumeIteration F = kEnvoyFilterHeadersStatusContinue F - 1"
definition kEnvoyFilterDataStatusContinue :: "'z filter_enums_scheme \<Rightarrow> int" where
  "kEnvoyFilterDataStatusContinue F = FilterDataStatus_Continue F"
definition kEnvoyFilterDataStatusStopIterationAndBuffer :: "'z filter_enums_scheme \<Rightarrow> int" where
  "kEnvoyFilterDataStatusStopIterationAndBuffer F = FilterDataStatus_StopIterationAndBuffer F"
definition kEnvoyFilterDataStatusStopIterationNoBuffer :: "'z filter_enums_scheme \<Rightarrow> int" where
  "kEnvoyFilterDataStatusStopIterationNoBuffer F = FilterDataStatus_StopIterationNoBuffer F"
definition kEnvoyFilterDataStatusResumeIteration :: "'z filter_enums_scheme \<Rightarrow> int" where
  "kEnvoyFilterDataStatusResumeIteration F = kEnvoyFilterDataStatusContinue F - 1"
definition kEnvoyFilterTrailersStatusContinue :: "'z filter_enums_scheme \<Rightarrow> int" where
  "kEnvoyFilterTrailersStatusContinue F = FilterTrailersStatus_Continue F"
definition kEnvoyFilterTrailersStatusStopIteration :: "'z filter_enums_scheme \<Rightarrow> int" where
  "kEnvoyFilterTrailersStatusStopIteration F = FilterTrailersStatus_StopIteration F"
definition kEnvoyFilterTrailersStatusResumeIteration :: "'z filter_enums_scheme \<Rightarrow> int" where
  "kEnvoyFilterTrailersStatusResumeIteration F = kEnvoyFilterTrailersStatusContinue F - 1"
definition kEnvoyFilterResumeStatusStopIteration :: int where
  "kEnvoyFilterResumeStatusStopIteration = 1"
definition kEnvoyFilterResumeStatusResumeIteration :: int where
  "kEnvoyFilterResumeStatusResumeIteration = -1"

type_synonym 'a boxed = "ptr \<times> 'a"

record envoy_filter_headers_status =
  fh_status :: int
  fh_headers :: envoy_headers

record envoy_filter_data_status =
  fd_status :: int
  fd_data :: envoy_data
  fd_pending_headers :: "envoy_headers boxed option"

record envoy_filter_trailers_status =
  ft_status :: int
  ft_trailers :: envoy_headers
  ft_pending_headers :: "envoy_headers boxed option"
  ft_pending_data :: "envoy_data boxed option"

record envoy_filter_resume_status =
  fr_status :: int
  fr_pending_headers :: "envoy_headers boxed option"
  fr_pending_data :: "envoy_data boxed option"
  fr_pending_trailers :: "envoy_headers boxed option"

type_synonym 'p init_f = "ptr \<Rightarrow> 'p \<times> memory \<Rightarrow> ptr \<times> 'p \<times> memory"
type_synonym 'p on_headers_f = "envoy_headers \<Rightarrow> bool \<Rightarrow> ptr \<Rightarrow> 'p \<times> memory \<Rightarrow>
  envoy_filter_headers_status \<times> 'p \<times> memory"
type_synonym 'p on_data_f = "envoy_data \<Rightarrow> bool \<Rightarrow> ptr \<Rightarrow> 'p \<times> memory \<Rightarrow>
  envoy_filter_data_status \<times> 'p \<times> memory"
type_synonym 'p on_trailers_f = "envoy_headers \<Rightarrow> ptr \<Rightarrow> 'p \<times> memory \<Rightarrow>
  envoy_filter_trailers_status \<times> 'p \<times> memory"
type_synonym 'p on_resume_f = "envoy_headers option \<Rightarrow> envoy_data option \<Rightarrow> envoy_headers option \<Rightarrow> bool \<Rightarrow>
  ptr \<Rightarrow> 'p \<times> memory \<Rightarrow> envoy_filter_resume_status \<times> 'p \<times> memory"
type_synonym 'p release_f = "ptr \<Rightarrow> 'p \<times> memory \<Rightarrow> 'p \<times> memory"

text \<open>\<open>envoy_http_filter_callbacks\<close>: the resume function, by direction, and the heap-allocated
  \<open>weak_ptr\<close> that is its context.\<close>

datatype resume_function = envoy_filter_callback_resume_decoding | envoy_filter_callback_resume_encoding

record envoy_http_filter_callbacks =
  resume_iteration :: resume_function
  callback_context :: nat

type_synonym 'p set_callbacks_f = "envoy_http_filter_callbacks \<Rightarrow> ptr \<Rightarrow> 'p \<times> memory \<Rightarrow> 'p \<times> memory"

record 'p envoy_http_filter =
  init_filter :: "'p init_f option"
  on_request_headers :: "'p on_headers_f option"
  on_request_data :: "'p on_data_f option"
  on_request_trailers :: "'p on_trailers_f option"
  on_response_headers :: "'p on_headers_f option"
  on_response_data :: "'p on_data_f option"
  on_response_trailers :: "'p on_trailers_f option"
  set_request_callbacks :: "'p set_callbacks_f option"
  on_resume_request :: "'p on_resume_f option"
  set_response_callbacks :: "'p set_callbacks_f option"
  on_resume_response :: "'p on_resume_f option"
  release_filter :: "'p release_f option"
  static_context :: ptr
  instance_context :: ptr

definition empty_http_filter :: "'p envoy_http_filter" where
  "empty_http_filter =
     \<lparr>init_filter = None, on_request_headers = None, on_request_data = None, on_request_trailers = None,
      on_response_headers = None, on_response_data = None, on_response_trailers = None,
      set_request_callbacks = None, on_resume_request = None, set_response_callbacks = None,
      on_resume_response = None, release_filter = None, static_context = NULL, instance_context = NULL\<rparr>"

section \<open>State of a filter\<close>

datatype IterationState = Ongoing | Stopped

datatype FilterHeadersStatus = HeadersContinue | HeadersStopIteration
datatype FilterDataStatus = DataContinue | DataStopIterationAndBuffer | DataStopIterationNoBuffer
datatype FilterTrailersStatus = TrailersContinue | TrailersStopIteration

type_synonym hid = nat

datatype weak_ptr = EmptyWeak | WeakSelf

datatype resume_cb = ResumeDecodingCb weak_ptr | ResumeEncodingCb weak_ptr

datatype 'b bridge_effect =
    ContinueDecoding
  | ContinueEncoding
  | AddDecodedData 'b bool
  | AddEncodedData 'b bool

record ('h, 'b, 'p) bridge_filter =
  pending_request_headers :: "hid option"
  pending_response_headers :: "hid option"
  pending_request_trailers :: "hid option"
  pending_response_trailers :: "hid option"
  iteration_state :: "IterationState option"
  filter_name :: string
  platform_filter :: "'p envoy_http_filter"
  request_complete :: bool
  response_complete :: bool
  owned :: bool
  header_maps :: "hid \<Rightarrow> 'h option"
  decoding_buffer :: "'b option"
  encoding_buffer :: "'b option"
  platform :: 'p
  bmem :: memory
  bfragments :: "BridgeFragment list"
  weak_ptrs :: "nat \<Rightarrow> weak_ptr option"
  next_weak :: nat
  resume_posted :: "resume_cb list"
  btrace :: "'b bridge_effect list"

text \<open>The two containers of Envoy, its enums, and whether \<open>ASSERT\<close> is compiled in.\<close>

record ('h, 'b) bridge_env =
  be_headers :: "'h header_map_api"
  be_buffers :: "'b buffer_api"
  be_enums :: filter_enums
  be_asserts :: bool

definition weak_from_this :: "('h, 'b, 'p) bridge_filter \<Rightarrow> weak_ptr" where
  "weak_from_this s = (if owned s then WeakSelf else EmptyWeak)"

text \<open>\<open>weak_ptr::lock\<close>: does it find the filter?\<close>

definition locks :: "('h, 'b, 'p) bridge_filter \<Rightarrow> weak_ptr \<Rightarrow> bool" where
  "locks s w \<longleftrightarrow> w = WeakSelf \<and> owned s"

definition header_map ::
  "('h, 'b, 'p) bridge_filter \<Rightarrow> hid \<Rightarrow> abort + 'h" where
  "header_map s i = (case header_maps s i of None \<Rightarrow> Inl UseAfterFree | Some h \<Rightarrow> Inr h)"

definition set_header_map :: "('h, 'b, 'p) bridge_filter \<Rightarrow> hid \<Rightarrow> 'h \<Rightarrow> ('h, 'b, 'p) bridge_filter" where
  "set_header_map s i h = s\<lparr>header_maps := (header_maps s)(i \<mapsto> h)\<rparr>"

definition read_iteration_state :: "('h, 'b, 'p) bridge_filter \<Rightarrow> abort + IterationState" where
  "read_iteration_state s = (case iteration_state s of None \<Rightarrow> Inl UninitialisedRead | Some st \<Rightarrow> Inr st)"

section \<open>Construction and destruction\<close>

text \<open>\<open>PlatformBridgeFilterConfig\<close> looks the filter up in the registry; \<open>structs\<close> is what lies at the
  registered addresses. The constructor dereferences the pointer.\<close>

record bridge_config =
  bc_filter_name :: string
  bc_platform_filter :: ptr

definition new_bridge_config :: "bool \<Rightarrow> registry \<Rightarrow> string \<Rightarrow> abort + bridge_config \<times> registry" where
  "new_bridge_config asserts r platform_filter_name =
     bindE (retrieveApi asserts r platform_filter_name) (\<lambda>(p, r').
     Inr (\<lparr>bc_filter_name = platform_filter_name, bc_platform_filter = p\<rparr>, r'))"

definition new_weak ::
  "('h, 'b, 'p) bridge_filter \<Rightarrow> nat \<times> ('h, 'b, 'p) bridge_filter" where
  "new_weak s = (next_weak s,
     s\<lparr>weak_ptrs := (weak_ptrs s)(next_weak s \<mapsto> weak_from_this s), next_weak := Suc (next_weak s)\<rparr>)"

definition give_callbacks ::
  "('h, 'b, 'p) bridge_filter \<Rightarrow> resume_function \<Rightarrow> 'p set_callbacks_f option \<Rightarrow> ('h, 'b, 'p) bridge_filter" where
  "give_callbacks s rf set_callbacks = (case set_callbacks of
     None \<Rightarrow> s
   | Some f \<Rightarrow>
       (let (w, s1) = new_weak s;
            (p', m') = f \<lparr>resume_iteration = rf, callback_context = w\<rparr>
              (instance_context (platform_filter s1)) (platform s1, bmem s1)
        in s1\<lparr>platform := p', bmem := m'\<rparr>))"

definition initial_filter ::
  "string \<Rightarrow> 'p envoy_http_filter \<Rightarrow> 'p \<Rightarrow> memory \<Rightarrow> ('h, 'b, 'p) bridge_filter" where
  "initial_filter name f p m =
     \<lparr>pending_request_headers = None, pending_response_headers = None, pending_request_trailers = None,
      pending_response_trailers = None, iteration_state = None, filter_name = name,
      platform_filter = f, request_complete = False, response_complete = False, owned = False,
      header_maps = (\<lambda>_. None), decoding_buffer = None, encoding_buffer = None,
      platform = p, bmem = m, bfragments = [], weak_ptrs = (\<lambda>_. None), next_weak = 0,
      resume_posted = [], btrace = []\<rparr>"

definition construct ::
  "bool \<Rightarrow> string \<Rightarrow> 'p envoy_http_filter \<Rightarrow> 'p \<Rightarrow> memory \<Rightarrow> abort + ('h, 'b, 'p) bridge_filter" where
  "construct asserts name f p m =
     (let s = initial_filter name f p m
      in case init_filter f of
           None \<Rightarrow> Inr (s\<lparr>platform_filter := empty_http_filter\<rparr>)
         | Some init \<Rightarrow>
             (let (ctx, p1, m1) = init (static_context f) (p, m);
                  s1 = s\<lparr>platform_filter := f\<lparr>instance_context := ctx\<rparr>, platform := p1, bmem := m1\<rparr>
              in bindE (ASSERT asserts (ctx \<noteq> NULL) (''init_filter unsuccessful for '' @ name)) (\<lambda>_.
                 let s2 = s1\<lparr>iteration_state := Some Ongoing\<rparr>;
                     s3 = give_callbacks s2 envoy_filter_callback_resume_decoding (set_request_callbacks f)
                 in Inr (give_callbacks s3 envoy_filter_callback_resume_encoding (set_response_callbacks f)))))"

text \<open>The factory of \<open>config.cc\<close>: \<open>make_shared\<close> runs the constructor and then owns the filter.\<close>

definition make_filter ::
  "bool \<Rightarrow> bridge_config \<Rightarrow> (ptr \<Rightarrow> 'p envoy_http_filter option) \<Rightarrow> 'p \<Rightarrow> memory \<Rightarrow>
   abort + ('h, 'b, 'p) bridge_filter" where
  "make_filter asserts config structs p m = (if bc_platform_filter config = NULL then Inl NullDereference
     else case structs (bc_platform_filter config) of
     None \<Rightarrow> Inl InvalidAccess
   | Some f \<Rightarrow> bindE (construct asserts (bc_filter_name config) f p m) (\<lambda>s. Inr (s\<lparr>owned := True\<rparr>)))"

definition onDestroy :: "bool \<Rightarrow> ('h, 'b, 'p) bridge_filter \<Rightarrow> abort + ('h, 'b, 'p) bridge_filter" where
  "onDestroy asserts s = (case release_filter (platform_filter s) of
     None \<Rightarrow>
       bindE (ASSERT asserts (instance_context (platform_filter s) = NULL)
         (''release_filter required for '' @ filter_name s)) (\<lambda>_. Inr s)
   | Some release \<Rightarrow>
       (let (p', m') = release (instance_context (platform_filter s)) (platform s, bmem s)
        in Inr (s\<lparr>platform := p', bmem := m',
             platform_filter := (platform_filter s)\<lparr>instance_context := NULL\<rparr>\<rparr>)))"

section \<open>Applying what the platform returns\<close>

definition replaceHeaders ::
  "('h, 'b) bridge_env \<Rightarrow> memory \<Rightarrow> 'h \<Rightarrow> envoy_headers \<Rightarrow> abort + 'h \<times> memory" where
  "replaceHeaders E m headers c_headers =
     bindE (addCopy_loop (be_headers E) m (hs_headers c_headers) 0 (nat (hs_length c_headers))
       (hm_clear (be_headers E) headers)) (\<lambda>headers'.
     bindE (release_envoy_headers m c_headers) (\<lambda>m'. Inr (headers', m')))"

text \<open>\<open>replaceHeaders(*headers, *boxed); free(boxed)\<close> on the header map behind a pointer.\<close>

definition replace_and_free ::
  "('h, 'b) bridge_env \<Rightarrow> ('h, 'b, 'p) bridge_filter \<Rightarrow> hid \<Rightarrow> envoy_headers boxed \<Rightarrow>
   abort + ('h, 'b, 'p) bridge_filter" where
  "replace_and_free E s i boxed =
     bindE (header_map s i) (\<lambda>h.
     bindE (replaceHeaders E (bmem s) h (snd boxed)) (\<lambda>(h', m1).
     bindE (c_free m1 (fst boxed)) (\<lambda>m2.
     Inr (set_header_map (s\<lparr>bmem := m2\<rparr>) i h'))))"

text \<open>\<open>drain\<close> and \<open>addBufferFragment(*createBridgeFragment(data))\<close>.\<close>

definition add_fragment ::
  "('h, 'b) bridge_env \<Rightarrow> ('h, 'b, 'p) bridge_filter \<Rightarrow> 'b \<Rightarrow> envoy_data \<Rightarrow>
   abort + 'b \<times> ('h, 'b, 'p) bridge_filter" where
  "add_fragment E s b d =
     (let fragment = createBridgeFragment d
      in bindE (addFragment (be_buffers E) (bmem s) b fragment) (\<lambda>b'.
         Inr (b', s\<lparr>bfragments := bfragments s @ [fragment]\<rparr>)))"

definition drain_all :: "('h, 'b) bridge_env \<Rightarrow> 'b \<Rightarrow> 'b" where
  "drain_all E b = buf_drain (be_buffers E) b (buf_length (be_buffers E) b)"

section \<open>Headers, data, trailers\<close>

definition unsupported_status :: abort where
  "unsupported_status = Panic ''invalid filter state: unsupported status for platform filters''"

definition onHeaders ::
  "('h, 'b) bridge_env \<Rightarrow> ('h, 'b, 'p) bridge_filter \<Rightarrow> hid \<Rightarrow> bool \<Rightarrow> 'p on_headers_f option \<Rightarrow>
   abort + FilterHeadersStatus \<times> ('h, 'b, 'p) bridge_filter" where
  "onHeaders E s i end_stream on_headers_fn = (case on_headers_fn of
     None \<Rightarrow> Inr (HeadersContinue, s)
   | Some f \<Rightarrow>
       bindE (header_map s i) (\<lambda>headers.
       bindE (toBridgeHeaders (be_headers E) (bmem s) headers) (\<lambda>(in_headers, m1).
       let (result, p', m2) = f in_headers end_stream (instance_context (platform_filter s)) (platform s, m1);
           s1 = s\<lparr>platform := p', bmem := m2\<rparr>
       in if fh_status result = kEnvoyFilterHeadersStatusContinue (be_enums E)
          then bindE (replaceHeaders E m2 headers (fh_headers result)) (\<lambda>(headers', m3).
               Inr (HeadersContinue, set_header_map (s1\<lparr>bmem := m3\<rparr>) i headers'))
          else if fh_status result = kEnvoyFilterHeadersStatusStopIteration (be_enums E)
          then Inr (HeadersStopIteration, s1\<lparr>iteration_state := Some Stopped\<rparr>)
          else Inl unsupported_status)))"

text \<open>\<open>pending_headers\<close> is the pointer the argument \<open>HeaderMap**\<close> points to; the result carries its
  new value, like the two buffers, which the source takes by reference.\<close>

definition take_pending_headers ::
  "('h, 'b) bridge_env \<Rightarrow> ('h, 'b, 'p) bridge_filter \<Rightarrow> hid option \<Rightarrow> envoy_headers boxed option \<Rightarrow>
   abort + hid option \<times> ('h, 'b, 'p) bridge_filter" where
  "take_pending_headers E s pending returned = (case returned of
     None \<Rightarrow> Inr (pending, s)
   | Some boxed \<Rightarrow> (case pending of
       None \<Rightarrow> Inl NullDereference
     | Some i \<Rightarrow> bindE (replace_and_free E s i boxed) (\<lambda>s1. Inr (None, s1))))"

definition onData ::
  "('h, 'b) bridge_env \<Rightarrow> ('h, 'b, 'p) bridge_filter \<Rightarrow> 'b \<Rightarrow> bool \<Rightarrow> 'b option \<Rightarrow> hid option \<Rightarrow>
   'p on_data_f option \<Rightarrow>
   abort + FilterDataStatus \<times> 'b \<times> 'b option \<times> hid option \<times> ('h, 'b, 'p) bridge_filter" where
  "onData E s data end_stream internal_buffer pending_headers on_data_fn = (case on_data_fn of
     None \<Rightarrow> Inr (DataContinue, data, internal_buffer, pending_headers, s)
   | Some f \<Rightarrow>
       bindE (read_iteration_state s) (\<lambda>st.
       let B = be_buffers E;
           already_buffering = (st = Stopped \<and>
             (case internal_buffer of None \<Rightarrow> False | Some ib \<Rightarrow> buf_length B ib > 0));
           (internal1, data1, presented) = (case internal_buffer of
               Some ib \<Rightarrow>
                 if already_buffering
                 then (let (ib', data') = buf_move B ib data in (Some ib', data', ib'))
                 else (internal_buffer, data, data)
             | None \<Rightarrow> (None, data, data))
       in bindE (copyToBridgeData B (bmem s) presented) (\<lambda>(in_data, m1).
       let (result, p', m2) = f in_data end_stream (instance_context (platform_filter s)) (platform s, m1);
           s1 = s\<lparr>platform := p', bmem := m2\<rparr>
       in if fd_status result = kEnvoyFilterDataStatusContinue (be_enums E)
          then bindE (RELEASE_ASSERT (st \<noteq> Stopped)
                 ''invalid filter state: filter iteration must be resumed with ResumeIteration'') (\<lambda>_.
               bindE (add_fragment E s1 (drain_all E data1) (fd_data result)) (\<lambda>(data2, s2).
               Inr (DataContinue, data2, internal1, pending_headers, s2)))
          else if fd_status result = kEnvoyFilterDataStatusStopIterationAndBuffer (be_enums E)
          then (if already_buffering
                then Inr (DataStopIterationNoBuffer, data1, internal1, pending_headers, s1)
                else Inr (DataStopIterationAndBuffer, data1, internal1, pending_headers,
                       s1\<lparr>iteration_state := Some Stopped\<rparr>))
          else if fd_status result = kEnvoyFilterDataStatusStopIterationNoBuffer (be_enums E)
          then Inr (DataStopIterationNoBuffer, data1, map_option (drain_all E) internal1, pending_headers,
                 s1\<lparr>iteration_state := Some Stopped\<rparr>)
          else if fd_status result = kEnvoyFilterDataStatusResumeIteration (be_enums E)
          then bindE (RELEASE_ASSERT (st = Stopped)
                 ''invalid filter state: ResumeIteration may only be used when filter iteration is stopped'') (\<lambda>_.
               bindE (take_pending_headers E s1 pending_headers (fd_pending_headers result)) (\<lambda>(pending', s2).
               case internal1 of
                 Some ib \<Rightarrow> bindE (add_fragment E s2 (drain_all E ib) (fd_data result)) (\<lambda>(ib', s3).
                   Inr (DataContinue, data1, Some ib', pending', s3\<lparr>iteration_state := Some Ongoing\<rparr>))
               | None \<Rightarrow> bindE (add_fragment E s2 (drain_all E data1) (fd_data result)) (\<lambda>(data2, s3).
                   Inr (DataContinue, data2, None, pending', s3\<lparr>iteration_state := Some Ongoing\<rparr>))))
          else Inl unsupported_status)))"

definition onTrailers ::
  "('h, 'b) bridge_env \<Rightarrow> ('h, 'b, 'p) bridge_filter \<Rightarrow> hid \<Rightarrow> 'b option \<Rightarrow> hid option \<Rightarrow>
   'p on_trailers_f option \<Rightarrow>
   abort + FilterTrailersStatus \<times> 'b option \<times> hid option \<times> ('h, 'b, 'p) bridge_filter" where
  "onTrailers E s i internal_buffer pending_headers on_trailers_fn = (case on_trailers_fn of
     None \<Rightarrow> Inr (TrailersContinue, internal_buffer, pending_headers, s)
   | Some f \<Rightarrow>
       bindE (header_map s i) (\<lambda>trailers.
       bindE (toBridgeHeaders (be_headers E) (bmem s) trailers) (\<lambda>(in_trailers, m1).
       let (result, p', m2) = f in_trailers (instance_context (platform_filter s)) (platform s, m1);
           s1 = s\<lparr>platform := p', bmem := m2\<rparr>
       in if ft_status result = kEnvoyFilterTrailersStatusContinue (be_enums E)
          then bindE (read_iteration_state s1) (\<lambda>st.
               bindE (RELEASE_ASSERT (st \<noteq> Stopped)
                 ''invalid filter state: ResumeIteration may only be used when filter iteration is stopped'') (\<lambda>_.
               bindE (replaceHeaders E m2 trailers (ft_trailers result)) (\<lambda>(trailers', m3).
               Inr (TrailersContinue, internal_buffer, pending_headers,
                 set_header_map (s1\<lparr>bmem := m3\<rparr>) i trailers'))))
          else if ft_status result = kEnvoyFilterTrailersStatusStopIteration (be_enums E)
          then Inr (TrailersStopIteration, internal_buffer, pending_headers,
                 s1\<lparr>iteration_state := Some Stopped\<rparr>)
          else if ft_status result = kEnvoyFilterTrailersStatusResumeIteration (be_enums E)
          then bindE (read_iteration_state s1) (\<lambda>st.
               bindE (RELEASE_ASSERT (st = Stopped)
                 ''invalid filter state: ResumeIteration may only be used when filter iteration is stopped'') (\<lambda>_.
               bindE (take_pending_headers E s1 pending_headers (ft_pending_headers result)) (\<lambda>(pending', s2).
               bindE (case ft_pending_data result of
                   None \<Rightarrow> Inr (internal_buffer, s2)
                 | Some (q, d) \<Rightarrow> (case internal_buffer of
                     None \<Rightarrow> Inl NullDereference
                   | Some ib \<Rightarrow> bindE (add_fragment E s2 (drain_all E ib) d) (\<lambda>(ib', s3).
                       bindE (c_free (bmem s3) q) (\<lambda>m3. Inr (Some ib', s3\<lparr>bmem := m3\<rparr>))))) (\<lambda>(internal', s4).
               bindE (header_map s4 i) (\<lambda>trailers2.
               bindE (replaceHeaders E (bmem s4) trailers2 (ft_trailers result)) (\<lambda>(trailers', m5).
               Inr (TrailersContinue, internal', pending',
                 set_header_map (s4\<lparr>bmem := m5, iteration_state := Some Ongoing\<rparr>) i trailers')))))))
          else Inl unsupported_status)))"

section \<open>The two directions\<close>

definition decodeHeaders ::
  "('h, 'b) bridge_env \<Rightarrow> ('h, 'b, 'p) bridge_filter \<Rightarrow> hid \<Rightarrow> bool \<Rightarrow>
   abort + FilterHeadersStatus \<times> ('h, 'b, 'p) bridge_filter" where
  "decodeHeaders E s i end_stream =
     bindE (onHeaders E s i end_stream (on_request_headers (platform_filter s))) (\<lambda>(status, s1).
     let s2 = (if status = HeadersStopIteration then s1\<lparr>pending_request_headers := Some i\<rparr> else s1)
     in Inr (status, s2\<lparr>request_complete := end_stream\<rparr>))"

definition encodeHeaders ::
  "('h, 'b) bridge_env \<Rightarrow> ('h, 'b, 'p) bridge_filter \<Rightarrow> hid \<Rightarrow> bool \<Rightarrow>
   abort + FilterHeadersStatus \<times> ('h, 'b, 'p) bridge_filter" where
  "encodeHeaders E s i end_stream =
     bindE (onHeaders E s i end_stream (on_response_headers (platform_filter s))) (\<lambda>(status, s1).
     let s2 = (if status = HeadersStopIteration then s1\<lparr>pending_response_headers := Some i\<rparr> else s1)
     in Inr (status, s2\<lparr>response_complete := end_stream\<rparr>))"

definition decodeData ::
  "('h, 'b) bridge_env \<Rightarrow> ('h, 'b, 'p) bridge_filter \<Rightarrow> 'b \<Rightarrow> bool \<Rightarrow>
   abort + FilterDataStatus \<times> 'b \<times> ('h, 'b, 'p) bridge_filter" where
  "decodeData E s data end_stream =
     bindE (onData E s data end_stream (decoding_buffer s) (pending_request_headers s)
       (on_request_data (platform_filter s))) (\<lambda>(status, data', internal', pending', s1).
     Inr (status, data', s1\<lparr>decoding_buffer := internal', pending_request_headers := pending',
       request_complete := end_stream\<rparr>))"

definition encodeData ::
  "('h, 'b) bridge_env \<Rightarrow> ('h, 'b, 'p) bridge_filter \<Rightarrow> 'b \<Rightarrow> bool \<Rightarrow>
   abort + FilterDataStatus \<times> 'b \<times> ('h, 'b, 'p) bridge_filter" where
  "encodeData E s data end_stream =
     bindE (onData E s data end_stream (encoding_buffer s) (pending_response_headers s)
       (on_response_data (platform_filter s))) (\<lambda>(status, data', internal', pending', s1).
     Inr (status, data', s1\<lparr>encoding_buffer := internal', pending_response_headers := pending',
       response_complete := end_stream\<rparr>))"

definition decodeTrailers ::
  "('h, 'b) bridge_env \<Rightarrow> ('h, 'b, 'p) bridge_filter \<Rightarrow> hid \<Rightarrow>
   abort + FilterTrailersStatus \<times> ('h, 'b, 'p) bridge_filter" where
  "decodeTrailers E s i =
     bindE (onTrailers E s i (decoding_buffer s) (pending_request_headers s)
       (on_request_trailers (platform_filter s))) (\<lambda>(status, internal', pending', s1).
     let s2 = s1\<lparr>decoding_buffer := internal', pending_request_headers := pending'\<rparr>;
         s3 = (if status = TrailersStopIteration then s2\<lparr>pending_request_trailers := Some i\<rparr> else s2)
     in Inr (status, s3\<lparr>request_complete := True\<rparr>))"

definition encodeTrailers ::
  "('h, 'b) bridge_env \<Rightarrow> ('h, 'b, 'p) bridge_filter \<Rightarrow> hid \<Rightarrow>
   abort + FilterTrailersStatus \<times> ('h, 'b, 'p) bridge_filter" where
  "encodeTrailers E s i =
     bindE (onTrailers E s i (encoding_buffer s) (pending_response_headers s)
       (on_response_trailers (platform_filter s))) (\<lambda>(status, internal', pending', s1).
     let s2 = s1\<lparr>encoding_buffer := internal', pending_response_headers := pending'\<rparr>;
         s3 = (if status = TrailersStopIteration then s2\<lparr>pending_response_trailers := Some i\<rparr> else s2)
     in Inr (status, s3\<lparr>response_complete := True\<rparr>))"

section \<open>Asynchronous resumption\<close>

text \<open>The snapshot of the pending entities that is handed to the platform.\<close>

definition bridge_pending_headers ::
  "('h, 'b) bridge_env \<Rightarrow> ('h, 'b, 'p) bridge_filter \<Rightarrow> memory \<Rightarrow> hid option \<Rightarrow>
   abort + envoy_headers option \<times> memory" where
  "bridge_pending_headers E s m pending = (case pending of
     None \<Rightarrow> Inr (None, m)
   | Some i \<Rightarrow> bindE (header_map s i) (\<lambda>h.
       bindE (toBridgeHeaders (be_headers E) m h) (\<lambda>(c, m'). Inr (Some c, m'))))"

definition bridge_pending_data ::
  "('h, 'b) bridge_env \<Rightarrow> memory \<Rightarrow> 'b option \<Rightarrow> abort + envoy_data option \<times> memory" where
  "bridge_pending_data E m internal_buffer = (case internal_buffer of
     None \<Rightarrow> Inr (None, m)
   | Some b \<Rightarrow> bindE (copyToBridgeData (be_buffers E) m b) (\<lambda>(d, m'). Inr (Some d, m')))"

text \<open>Putting back what the platform returns; a pending entity must be returned.\<close>

definition restore_headers ::
  "('h, 'b) bridge_env \<Rightarrow> ('h, 'b, 'p) bridge_filter \<Rightarrow> hid option \<Rightarrow> envoy_headers boxed option \<Rightarrow> string \<Rightarrow>
   abort + ('h, 'b, 'p) bridge_filter" where
  "restore_headers E s pending returned what = (case pending of
     None \<Rightarrow> Inr s
   | Some i \<Rightarrow> (case returned of
       None \<Rightarrow> Inl (ReleaseAssertFailure (''invalid filter state: '' @ what @
         '' are pending and must be returned to resume filter iteration''))
     | Some boxed \<Rightarrow> replace_and_free E s i boxed))"

definition restore_data ::
  "('h, 'b) bridge_env \<Rightarrow> ('h, 'b, 'p) bridge_filter \<Rightarrow> 'b option \<Rightarrow> envoy_data boxed option \<Rightarrow>
   ('b \<Rightarrow> bool \<Rightarrow> 'b bridge_effect) \<Rightarrow> abort + 'b option \<times> ('h, 'b, 'p) bridge_filter" where
  "restore_data E s internal_buffer returned inject = (case internal_buffer of
     Some ib \<Rightarrow> (case returned of
       None \<Rightarrow> Inl (ReleaseAssertFailure
         ''invalid filter state: data is pending and must be returned to resume filter iteration'')
     | Some (q, d) \<Rightarrow> bindE (add_fragment E s (drain_all E ib) d) (\<lambda>(ib', s1).
         bindE (c_free (bmem s1) q) (\<lambda>m'. Inr (Some ib', s1\<lparr>bmem := m'\<rparr>))))
   | None \<Rightarrow> (case returned of
       None \<Rightarrow> Inr (None, s)
     | Some (q, d) \<Rightarrow> bindE (add_fragment E s (buf_create (be_buffers E)) d) (\<lambda>(b, s1).
         bindE (c_free (bmem s1) q) (\<lambda>m'.
         Inr (None, s1\<lparr>btrace := btrace s1 @ [inject b False], bmem := m'\<rparr>)))))"

definition call_on_resume ::
  "'p on_resume_f option \<Rightarrow> envoy_headers option \<Rightarrow> envoy_data option \<Rightarrow> envoy_headers option \<Rightarrow> bool \<Rightarrow>
   ('h, 'b, 'p) bridge_filter \<Rightarrow> memory \<Rightarrow>
   abort + envoy_filter_resume_status \<times> ('h, 'b, 'p) bridge_filter" where
  "call_on_resume fn hs d ts complete s m = (case fn of
     None \<Rightarrow> Inl NullDereference
   | Some f \<Rightarrow>
       (let (result, p', m') = f hs d ts complete (instance_context (platform_filter s)) (platform s, m)
        in Inr (result, s\<lparr>platform := p', bmem := m'\<rparr>)))"

definition onResumeDecoding ::
  "('h, 'b) bridge_env \<Rightarrow> ('h, 'b, 'p) bridge_filter \<Rightarrow> abort + ('h, 'b, 'p) bridge_filter" where
  "onResumeDecoding E s =
     bindE (read_iteration_state s) (\<lambda>st.
     if st = Ongoing then Inr s
     else
       bindE (bridge_pending_headers E s (bmem s) (pending_request_headers s)) (\<lambda>(pending_headers, m1).
       bindE (bridge_pending_data E m1 (decoding_buffer s)) (\<lambda>(pending_data, m2).
       bindE (bridge_pending_headers E s m2 (pending_request_trailers s)) (\<lambda>(pending_trailers, m3).
       bindE (call_on_resume (on_resume_request (platform_filter s)) pending_headers pending_data
         pending_trailers (request_complete s) s m3) (\<lambda>(result, s1).
       if fr_status result = kEnvoyFilterResumeStatusStopIteration then Inr s1
       else
         bindE (restore_headers E s1 (pending_request_headers s1) (fr_pending_headers result) ''headers'') (\<lambda>s2.
         bindE (restore_data E (s2\<lparr>pending_request_headers := None\<rparr>) (decoding_buffer s2)
           (fr_pending_data result) AddDecodedData) (\<lambda>(internal', s3).
         bindE (restore_headers E (s3\<lparr>decoding_buffer := internal'\<rparr>) (pending_request_trailers s3)
           (fr_pending_trailers result) ''trailers'') (\<lambda>s4.
         Inr (s4\<lparr>pending_request_trailers := None, iteration_state := Some Ongoing,
           btrace := btrace s4 @ [ContinueDecoding]\<rparr>)))))))))"

definition onResumeEncoding ::
  "('h, 'b) bridge_env \<Rightarrow> ('h, 'b, 'p) bridge_filter \<Rightarrow> abort + ('h, 'b, 'p) bridge_filter" where
  "onResumeEncoding E s =
     bindE (read_iteration_state s) (\<lambda>st.
     if st = Ongoing then Inr s
     else
       bindE (bridge_pending_headers E s (bmem s) (pending_response_headers s)) (\<lambda>(pending_headers, m1).
       bindE (bridge_pending_data E m1 (encoding_buffer s)) (\<lambda>(pending_data, m2).
       bindE (bridge_pending_headers E s m2 (pending_response_trailers s)) (\<lambda>(pending_trailers, m3).
       bindE (call_on_resume (on_resume_response (platform_filter s)) pending_headers pending_data
         pending_trailers (response_complete s) s m3) (\<lambda>(result, s1).
       bindE (restore_headers E s1 (pending_response_headers s1) (fr_pending_headers result) ''headers'') (\<lambda>s2.
       bindE (restore_data E (s2\<lparr>pending_response_headers := None\<rparr>) (encoding_buffer s2)
         (fr_pending_data result) AddEncodedData) (\<lambda>(internal', s3).
       bindE (restore_headers E (s3\<lparr>encoding_buffer := internal'\<rparr>) (pending_response_trailers s3)
         (fr_pending_trailers result) ''trailers'') (\<lambda>s4.
       Inr (s4\<lparr>pending_response_trailers := None, iteration_state := Some Ongoing,
         btrace := btrace s4 @ [ContinueEncoding]\<rparr>)))))))))"

definition resumeDecoding :: "('h, 'b, 'p) bridge_filter \<Rightarrow> ('h, 'b, 'p) bridge_filter" where
  "resumeDecoding s = s\<lparr>resume_posted := resume_posted s @ [ResumeDecodingCb (weak_from_this s)]\<rparr>"

definition resumeEncoding :: "('h, 'b, 'p) bridge_filter \<Rightarrow> ('h, 'b, 'p) bridge_filter" where
  "resumeEncoding s = s\<lparr>resume_posted := resume_posted s @ [ResumeEncodingCb (weak_from_this s)]\<rparr>"

text \<open>The posted lambda: nothing happens once the filter is gone.\<close>

fun run_resume ::
  "('h, 'b) bridge_env \<Rightarrow> ('h, 'b, 'p) bridge_filter \<Rightarrow> resume_cb \<Rightarrow> abort + ('h, 'b, 'p) bridge_filter" where
  "run_resume E s (ResumeDecodingCb w) = (if locks s w then onResumeDecoding E s else Inr s)"
| "run_resume E s (ResumeEncodingCb w) = (if locks s w then onResumeEncoding E s else Inr s)"

text \<open>The C functions the platform holds: they find the filter through the \<open>weak_ptr\<close> in their
  context.\<close>

definition call_resume_function ::
  "('h, 'b, 'p) bridge_filter \<Rightarrow> envoy_http_filter_callbacks \<Rightarrow> abort + ('h, 'b, 'p) bridge_filter" where
  "call_resume_function s cbs = (case weak_ptrs s (callback_context cbs) of
     None \<Rightarrow> Inl UseAfterFree
   | Some w \<Rightarrow> Inr (if locks s w
       then (case resume_iteration cbs of
           envoy_filter_callback_resume_decoding \<Rightarrow> resumeDecoding s
         | envoy_filter_callback_resume_encoding \<Rightarrow> resumeEncoding s)
       else s))"

definition envoy_filter_release_callbacks ::
  "('h, 'b, 'p) bridge_filter \<Rightarrow> nat \<Rightarrow> abort + ('h, 'b, 'p) bridge_filter" where
  "envoy_filter_release_callbacks s context = (case weak_ptrs s context of
     None \<Rightarrow> Inl InvalidFree
   | Some w \<Rightarrow> Inr (s\<lparr>weak_ptrs := (weak_ptrs s)(context := None)\<rparr>))"

end
