(* ===== verification/ConfigTemplate.thy ===== *)
theory ConfigTemplate
  imports DispatcherRequests
begin

text \<open>
  \<open>src/library/common/config_template.cc\<close>: the configuration with which an engine runs, as the list of
  its lines. \<open>certificates.inc\<close>, which the C++ text includes between two raw strings, is an argument.
  \<open>template_clusters\<close> reads the names of the top-level clusters off the lines, as the YAML structure
  gives them: the items of \<open>clusters:\<close> under \<open>static_resources\<close>.

  The point of contact with the code is the routing: the template's only route takes the cluster from
  the header \<open>x-envoy-mobile-cluster\<close>, which \<open>Dispatcher::setDestinationCluster\<close> sets.
\<close>

section \<open>The text\<close>

definition quote :: char where "quote = CHR 0x27"
definition backslash :: char where "backslash = CHR 0x5C"
definition dquote :: char where "dquote = CHR 0x22"

definition platform_filter_template :: "string list" where
  "platform_filter_template =
    [''          - name: envoy.filters.http.platform_bridge'',
     ''            typed_config:'',
     ''              '' @ [dquote] @ ''@type'' @ [dquote] @ '': type.googleapis.com/envoymobile.extensions.filters.http.platform_bridge.PlatformBridge'',
     ''              platform_filter_name: {{ platform_filter_name }}'']"

definition listener_lines :: "string list" where
  "listener_lines =
    [''static_resources:'',
     ''  listeners:'',
     ''  - name: base_api_listener'',
     ''    address:'',
     ''      socket_address:'',
     ''        protocol: TCP'',
     ''        address: 0.0.0.0'',
     ''        port_value: 10000'',
     ''    api_listener:'',
     ''      api_listener:'',
     ''        '' @ [dquote] @ ''@type'' @ [dquote] @ '': type.googleapis.com/envoy.extensions.filters.network.http_connection_manager.v3.HttpConnectionManager'',
     ''        stat_prefix: hcm'',
     ''        route_config:'',
     ''          name: api_router'',
     ''          virtual_hosts:'',
     ''            - name: api'',
     ''              include_attempt_count_in_response: true'',
     ''              virtual_clusters: {{ virtual_clusters }}'',
     ''              domains:'',
     ''                - '' @ [dquote] @ ''*'' @ [dquote],
     ''              routes:'',
     ''                - match:'',
     ''                    prefix: '' @ [dquote] @ ''/'' @ [dquote],
     ''                  route:'',
     ''                    cluster_header: x-envoy-mobile-cluster'',
     ''                    retry_policy:'',
     ''                      retry_back_off:'',
     ''                        base_interval: 0.25s'',
     ''                        max_interval: 60s'',
     ''        http_filters:'',
     ''{{ platform_filter_chain }}'',
     ''          - name: envoy.filters.http.dynamic_forward_proxy'',
     ''            typed_config:'',
     ''              '' @ [dquote] @ ''@type'' @ [dquote] @ '': type.googleapis.com/envoy.extensions.filters.http.dynamic_forward_proxy.v3.FilterConfig'',
     ''              dns_cache_config: &dns_cache_config'',
     ''                name: dynamic_forward_proxy_cache_config'',
     ''                # TODO: Support IPV6 https://github.com/lyft/envoy-mobile/issues/1022'',
     ''                dns_lookup_family: V4_ONLY'',
     ''                dns_refresh_rate: {{ dns_refresh_rate_seconds }}s'',
     ''                dns_failure_refresh_rate:'',
     ''                  base_interval: {{ dns_failure_refresh_rate_seconds_base }}s'',
     ''                  max_interval: {{ dns_failure_refresh_rate_seconds_max }}s'',
     ''          # TODO: make this configurable for users.'',
     ''          - name: envoy.filters.http.decompressor'',
     ''            typed_config:'',
     ''              '' @ [dquote] @ ''@type'' @ [dquote] @ '': type.googleapis.com/envoy.extensions.filters.http.decompressor.v3.Decompressor'',
     ''              decompressor_library:'',
     ''                name: gzip'',
     ''                typed_config:'',
     ''                  '' @ [dquote] @ ''@type'' @ [dquote] @ '': type.googleapis.com/envoy.extensions.compression.gzip.decompressor.v3.Gzip'',
     ''                  # Maximum window bits to allow for any stream to be decompressed. Optimally this'',
     ''                  # would be set to 0. According to the zlib manual this would allow the decompressor'',
     ''                  # to use the window bits in the zlib header to perform the decompression.'',
     ''                  # Unfortunately, the proto field constraint makes this impossible currently.'',
     ''                  window_bits: 15'',
     ''              request_direction_config:'',
     ''                common_config:'',
     ''                  enabled:'',
     ''                    default_value: false'',
     ''                    runtime_key: request_decompressor_enabled'',
     ''          - name: envoy.router'',
     ''            typed_config:'',
     ''              '' @ [dquote] @ ''@type'' @ [dquote] @ '': type.googleapis.com/envoy.extensions.filters.http.router.v3.Router'']"

definition cluster_head_lines :: "string list" where
  "cluster_head_lines =
    [''  clusters:'',
     ''  - name: base'',
     ''    connect_timeout: {{ connect_timeout_seconds }}s'',
     ''    lb_policy: CLUSTER_PROVIDED'',
     ''    cluster_type:'',
     ''      name: envoy.clusters.dynamic_forward_proxy'',
     ''      typed_config:'',
     ''        '' @ [dquote] @ ''@type'' @ [dquote] @ '': type.googleapis.com/envoy.extensions.clusters.dynamic_forward_proxy.v3.ClusterConfig'',
     ''        dns_cache_config: *dns_cache_config'',
     ''    transport_socket: &base_transport_socket'',
     ''      name: envoy.transport_sockets.tls'',
     ''      typed_config:'',
     ''        '' @ [dquote] @ ''@type'' @ [dquote] @ '': type.googleapis.com/envoy.extensions.transport_sockets.tls.v3.UpstreamTlsContext'',
     ''        common_tls_context:'',
     ''          validation_context:'',
     ''            trusted_ca:'',
     ''              inline_string: |'']"

definition cluster_tail_lines :: "string list" where
  "cluster_tail_lines =
    [''    upstream_connection_options: &upstream_opts'',
     ''      tcp_keepalive:'',
     ''        keepalive_interval: 10'',
     ''        keepalive_probes: 1'',
     ''        keepalive_time: 5'',
     ''    circuit_breakers: &circuit_breakers_settings'',
     ''      thresholds:'',
     ''        - priority: DEFAULT'',
     ''          # n.b: with mobile clients there are scenarios where all concurrent requests might be'',
     ''          # retries (e.g., when the phone goes offline). Therefore, Envoy Mobile allows for the same'',
     ''          # amount of concurrency for retries as the default value for concurrency for requests.'',
     ''          # This configuration uses the default for max concurrent requests (1024) because there is'',
     ''          # no reasonable scenario where a mobile client should have even close to that many concurrent'',
     ''          # requests.'',
     ''          #'',
     ''          # `max_retries` could be used but maintainers advised against it, as there are plans to'',
     ''          # deprecate that setting.'',
     ''          # https://github.com/lyft/envoy-mobile/pull/811#issuecomment-619169529.'',
     ''          retry_budget:'',
     ''            budget_percent:'',
     ''              value: 100'',
     ''            min_retry_concurrency: 1024'',
     ''  - name: base_wlan'',
     ''    connect_timeout: {{ connect_timeout_seconds }}s'',
     ''    lb_policy: CLUSTER_PROVIDED'',
     ''    cluster_type:'',
     ''      name: envoy.clusters.dynamic_forward_proxy'',
     ''      typed_config:'',
     ''        '' @ [dquote] @ ''@type'' @ [dquote] @ '': type.googleapis.com/envoy.extensions.clusters.dynamic_forward_proxy.v3.ClusterConfig'',
     ''        dns_cache_config: *dns_cache_config'',
     ''    transport_socket: *base_transport_socket'',
     ''    upstream_connection_options: *upstream_opts'',
     ''    circuit_breakers: *circuit_breakers_settings'',
     ''  - name: base_wwan'',
     ''    connect_timeout: {{ connect_timeout_seconds }}s'',
     ''    lb_policy: CLUSTER_PROVIDED'',
     ''    cluster_type:'',
     ''      name: envoy.clusters.dynamic_forward_proxy'',
     ''      typed_config:'',
     ''        '' @ [dquote] @ ''@type'' @ [dquote] @ '': type.googleapis.com/envoy.extensions.clusters.dynamic_forward_proxy.v3.ClusterConfig'',
     ''        dns_cache_config: *dns_cache_config'',
     ''    transport_socket: *base_transport_socket'',
     ''    upstream_connection_options: *upstream_opts'',
     ''    circuit_breakers: *circuit_breakers_settings'',
     ''  - name: base_h2'',
     ''    http2_protocol_options: {}'',
     ''    connect_timeout: {{ connect_timeout_seconds }}s'',
     ''    lb_policy: CLUSTER_PROVIDED'',
     ''    cluster_type:'',
     ''      name: envoy.clusters.dynamic_forward_proxy'',
     ''      typed_config:'',
     ''        '' @ [dquote] @ ''@type'' @ [dquote] @ '': type.googleapis.com/envoy.extensions.clusters.dynamic_forward_proxy.v3.ClusterConfig'',
     ''        dns_cache_config: *dns_cache_config'',
     ''    transport_socket: *base_transport_socket'',
     ''    upstream_connection_options: *upstream_opts'',
     ''    circuit_breakers: *circuit_breakers_settings'',
     ''  - name: base_wlan_h2'',
     ''    http2_protocol_options: {}'',
     ''    connect_timeout: {{ connect_timeout_seconds }}s'',
     ''    lb_policy: CLUSTER_PROVIDED'',
     ''    cluster_type:'',
     ''      name: envoy.clusters.dynamic_forward_proxy'',
     ''      typed_config:'',
     ''        '' @ [dquote] @ ''@type'' @ [dquote] @ '': type.googleapis.com/envoy.extensions.clusters.dynamic_forward_proxy.v3.ClusterConfig'',
     ''        dns_cache_config: *dns_cache_config'',
     ''    transport_socket: *base_transport_socket'',
     ''    upstream_connection_options: *upstream_opts'',
     ''    circuit_breakers: *circuit_breakers_settings'',
     ''  - name: base_wwan_h2'',
     ''    http2_protocol_options: {}'',
     ''    connect_timeout: {{ connect_timeout_seconds }}s'',
     ''    lb_policy: CLUSTER_PROVIDED'',
     ''    cluster_type:'',
     ''      name: envoy.clusters.dynamic_forward_proxy'',
     ''      typed_config:'',
     ''        '' @ [dquote] @ ''@type'' @ [dquote] @ '': type.googleapis.com/envoy.extensions.clusters.dynamic_forward_proxy.v3.ClusterConfig'',
     ''        dns_cache_config: *dns_cache_config'',
     ''    transport_socket: *base_transport_socket'',
     ''    upstream_connection_options: *upstream_opts'',
     ''    circuit_breakers: *circuit_breakers_settings'',
     ''  - name: stats'',
     ''    connect_timeout: {{ connect_timeout_seconds }}s'',
     ''    dns_refresh_rate: {{ dns_refresh_rate_seconds }}s'',
     ''    http2_protocol_options: {}'',
     ''    lb_policy: ROUND_ROBIN'',
     ''    load_assignment:'',
     ''      cluster_name: stats'',
     ''      endpoints:'',
     ''        - lb_endpoints:'',
     ''            - endpoint:'',
     ''                address:'',
     ''                  socket_address: {address: {{ stats_domain }}, port_value: 443}'',
     ''    transport_socket: *base_transport_socket'',
     ''    type: LOGICAL_DNS'']"

definition stats_lines :: "string list" where
  "stats_lines =
    [''stats_flush_interval: {{ stats_flush_interval_seconds }}s'',
     ''stats_sinks:'',
     ''  - name: envoy.metrics_service'',
     ''    typed_config:'',
     ''      '' @ [dquote] @ ''@type'' @ [dquote] @ '': type.googleapis.com/envoy.config.metrics.v3.MetricsServiceConfig'',
     ''      report_counters_as_deltas: true'',
     ''      grpc_service:'',
     ''        envoy_grpc:'',
     ''          cluster_name: stats'',
     ''stats_config:'',
     ''  stats_matcher:'',
     ''    inclusion_list:'',
     ''      patterns:'',
     ''        - safe_regex:'',
     ''            google_re2: {}'',
     ''            regex: '' @ [quote] @ ''^cluster'' @ [backslash] @ ''.['' @ [backslash] @ ''w]+?'' @ [backslash] @ ''.upstream_cx_['' @ [backslash] @ ''w]+'' @ [quote],
     ''        - safe_regex:'',
     ''            google_re2: {}'',
     ''            regex: '' @ [quote] @ ''^cluster'' @ [backslash] @ ''.['' @ [backslash] @ ''w]+?'' @ [backslash] @ ''.upstream_rq_['' @ [backslash] @ ''w]+'' @ [quote],
     ''        - safe_regex:'',
     ''            google_re2: {}'',
     ''            regex: '' @ [quote] @ ''^http.dispatcher.*'' @ [quote],
     ''        - safe_regex:'',
     ''            google_re2: {}'',
     ''            regex: '' @ [quote] @ ''^client.*'' @ [quote],
     ''        - safe_regex:'',
     ''            google_re2: {}'',
     ''            regex: '' @ [quote] @ ''^http.hcm.decompressor.*'' @ [quote],
     ''        - safe_regex:'',
     ''            google_re2: {}'',
     ''            regex: '' @ [quote] @ ''^http.hcm.downstream_rq_(?:[12345]xx|total|completed)'' @ [quote],
     ''        - safe_regex:'',
     ''            google_re2: {}'',
     ''            regex: '' @ [quote] @ ''^vhost.api.vcluster'' @ [backslash] @ ''.['' @ [backslash] @ ''w]+?'' @ [backslash] @ ''.upstream_rq_(?:[12345]xx|retry.*|time|timeout|total)'' @ [quote],
     ''watchdog:'',
     ''  megamiss_timeout: 60s'',
     ''  miss_timeout: 60s'',
     ''node:'',
     ''  metadata:'',
     ''    app_id : {{ app_id }}'',
     ''    app_version : {{ app_version }}'',
     ''    os: {{ device_os }}'',
     ''# Needed due to warning in https://github.com/envoyproxy/envoy/blob/6eb7e642d33f5a55b63c367188f09819925fca34/source/server/server.cc#L546'',
     ''layered_runtime:'',
     ''  layers:'',
     ''    - name: static_layer_0'',
     ''      static_layer:'',
     ''        overload:'',
     ''          global_downstream_max_connections: 50000'']"

definition config_template :: "string list \<Rightarrow> string list" where
  "config_template certificates =
     listener_lines @ cluster_head_lines @ certificates @ cluster_tail_lines @ stats_lines"

text \<open>The C strings: each raw string literal starts with the line break after its opening delimiter. The
  list of lines is the text without its empty lines.\<close>

definition newline :: char where "newline = CHR 0x0A"

definition raw_string :: "string list \<Rightarrow> string" where
  "raw_string ls = newline # concat (map (\<lambda>l. l @ [newline]) ls)"

definition platform_filter_template_text :: string where
  "platform_filter_template_text = raw_string platform_filter_template"

definition config_template_text :: "string \<Rightarrow> string" where
  "config_template_text certificates =
     raw_string (listener_lines @ cluster_head_lines) @ certificates @ raw_string (cluster_tail_lines @ stats_lines)"

fun lines :: "string \<Rightarrow> string list" where
  "lines [] = []"
| "lines (c # cs) = (if c = newline then [] # lines cs
     else case lines cs of [] \<Rightarrow> [[c]] | l # ls \<Rightarrow> (c # l) # ls)"

lemma lines_line: "newline \<notin> set l \<Longrightarrow> lines (l @ newline # t) = l # lines t"
  by (induction l) auto

lemma lines_raw_string:
  "\<forall>l \<in> set ls. newline \<notin> set l \<Longrightarrow> lines (raw_string ls @ t) = [] # ls @ lines t"
proof -
  have "\<forall>l \<in> set ls. newline \<notin> set l \<Longrightarrow> lines (concat (map (\<lambda>l. l @ [newline]) ls) @ t) = ls @ lines t"
    by (induction ls) (simp_all add: lines_line)
  then show "\<forall>l \<in> set ls. newline \<notin> set l \<Longrightarrow> lines (raw_string ls @ t) = [] # ls @ lines t"
    by (simp add: raw_string_def)
qed

lemma template_no_newline:
  "list_all (\<lambda>l. newline \<notin> set l) (listener_lines @ cluster_head_lines)"
  "list_all (\<lambda>l. newline \<notin> set l) (cluster_tail_lines @ stats_lines)"
  by code_simp+

lemma config_template_lines:
  assumes "\<forall>l \<in> set certificates. newline \<notin> set l"
  shows "filter (\<lambda>l. l \<noteq> []) (lines (config_template_text (raw_string certificates))) =
    filter (\<lambda>l. l \<noteq> []) (config_template certificates)"
  using assms template_no_newline lines_raw_string [of "cluster_tail_lines @ stats_lines" "[]"]
  by (simp add: config_template_text_def config_template_def lines_raw_string list_all_iff del: set_append)

section \<open>The clusters of the template\<close>

definition template_clusters :: "string list \<Rightarrow> string list" where
  "template_clusters ls =
     map (drop 10) (filter (\<lambda>l. take 10 l = ''  - name: '')
       (takeWhile (\<lambda>l. l = [] \<or> take 2 l = ''  '') (tl (dropWhile (\<lambda>l. l \<noteq> ''  clusters:'') ls))))"

text \<open>The lines of \<open>certificates.inc\<close> are empty or part of the block scalar \<open>inline_string\<close>.\<close>

definition inside_scalar :: "string list \<Rightarrow> bool" where
  "inside_scalar certificates \<longleftrightarrow> (\<forall>l \<in> set certificates. l = [] \<or> take 16 l = ''                '')"

lemma inside_scalar_line:
  assumes "inside_scalar certificates" "l \<in> set certificates"
  shows "l = [] \<or> take 2 l = ''  ''" "take 10 l \<noteq> ''  - name: ''"
proof -
  have l: "l = [] \<or> take 16 l = ''                ''" using assms by (auto simp: inside_scalar_def)
  have "take 2 l = take 2 (take 16 l)" "take 10 l = take 10 (take 16 l)" by simp_all
  then have "take 16 l = ''                '' \<Longrightarrow> take 2 l = ''  '' \<and> take 10 l = ''          ''"
    by (simp del: take_take)
  with l show "l = [] \<or> take 2 l = ''  ''" "take 10 l \<noteq> ''  - name: ''" by auto
qed

lemma listener_lines_clusters:
  "dropWhile (\<lambda>l. l \<noteq> ''  clusters:'') (listener_lines @ ls) = dropWhile (\<lambda>l. l \<noteq> ''  clusters:'') ls"
proof -
  have "list_all (\<lambda>l. l \<noteq> ''  clusters:'') listener_lines" by (simp add: listener_lines_def)
  then show ?thesis by (intro dropWhile_append2) (simp add: list_all_iff)
qed

lemma head_lines_indented: "\<forall>l \<in> set cluster_head_lines. l = [] \<or> take 2 l = ''  ''"
  by (simp add: cluster_head_lines_def)

lemma tail_lines_indented: "\<forall>l \<in> set cluster_tail_lines. l = [] \<or> take 2 l = ''  ''"
  by (simp add: cluster_tail_lines_def)

lemma head_names:
  "map (drop 10) (filter (\<lambda>l. take 10 l = ''  - name: '') (tl cluster_head_lines)) = [''base'']"
  by (simp add: cluster_head_lines_def)

lemma tail_names:
  "map (drop 10) (filter (\<lambda>l. take 10 l = ''  - name: '') cluster_tail_lines) =
     [''base_wlan'', ''base_wwan'', ''base_h2'', ''base_wlan_h2'', ''base_wwan_h2'', ''stats'']"
  by (simp add: cluster_tail_lines_def)

lemma config_template_clusters:
  assumes "inside_scalar certificates"
  shows "template_clusters (config_template certificates) =
    [''base'', ''base_wlan'', ''base_wwan'', ''base_h2'', ''base_wlan_h2'', ''base_wwan_h2'', ''stats'']"
proof -
  let ?P = "\<lambda>l :: string. l = [] \<or> take 2 l = ''  ''" and ?N = "\<lambda>l :: string. take 10 l = ''  - name: ''"
  obtain rest where head: "cluster_head_lines = ''  clusters:'' # rest" by (simp add: cluster_head_lines_def)
  obtain st sts where stats: "stats_lines = st # sts" "\<not> ?P st" by (simp add: stats_lines_def)
  have "tl (dropWhile (\<lambda>l. l \<noteq> ''  clusters:'') (config_template certificates)) =
      rest @ certificates @ cluster_tail_lines @ stats_lines"
    by (simp add: config_template_def listener_lines_clusters head)
  moreover have "\<forall>l \<in> set (rest @ certificates @ cluster_tail_lines). ?P l"
    using head_lines_indented tail_lines_indented inside_scalar_line(1) [OF assms] by (auto simp: head)
  then have "takeWhile ?P (rest @ certificates @ cluster_tail_lines @ stats_lines) = rest @ certificates @ cluster_tail_lines"
    using stats(2) takeWhile_append2 [of "rest @ certificates @ cluster_tail_lines" ?P stats_lines]
    by (simp add: stats(1))
  moreover have "filter ?N certificates = []"
    using inside_scalar_line(2) [OF assms] by (auto simp: filter_empty_conv)
  ultimately have "template_clusters (config_template certificates) =
      map (drop 10) (filter ?N rest) @ map (drop 10) (filter ?N cluster_tail_lines)"
    by (simp add: template_clusters_def)
  moreover have "map (drop 10) (filter ?N rest) = [''base'']" using head_names by (simp add: head)
  ultimately show ?thesis using tail_names by simp
qed

lemma expected_cluster_in_template:
  "inside_scalar certificates \<Longrightarrow>
     expected_cluster net protocol \<in> set (template_clusters (config_template certificates))"
  by (simp add: config_template_clusters expected_cluster_def split: envoy_network_t.splits)

text \<open>C23. Every request is routable. Whatever the preferred network and the protocol the application
  asks for, the cluster that \<open>setDestinationCluster\<close> writes into its header is one of the clusters of the
  configuration template, and the template routes by exactly that header.\<close>

theorem requests_are_routable:
  assumes "header_map_laws (headers_api E)" and "ClusterHeader \<notin> hm_keys (headers_api E) h"
    and "setDestinationCluster E net h = Inr h'" and "inside_scalar certificates"
  shows "(\<exists>c. (ClusterHeader, c) \<in> set (hm_iterate (headers_api E) h') \<and>
      c \<in> set (template_clusters (config_template certificates))) \<and>
    ''                    cluster_header: '' @ ClusterHeader \<in> set (config_template certificates)"
proof
  let ?c = "expected_cluster net (hm_get (headers_api E) h H2UpstreamHeader)"
  have "asserts_enabled E \<longrightarrow> hm_get (headers_api E) h H2UpstreamHeader \<in> {[], [''http1''], [''http2'']}"
    using setDestinationCluster_refuses [OF assms(1), of h net] assms(3) by auto
  from setDestinationCluster_entries [OF assms(1,2) this, of net] assms(3)
  have "(ClusterHeader, ?c) \<in># mset (hm_iterate (headers_api E) h')" by auto
  then show "\<exists>c. (ClusterHeader, c) \<in> set (hm_iterate (headers_api E) h') \<and>
      c \<in> set (template_clusters (config_template certificates))"
    using expected_cluster_in_template [OF assms(4)] by auto
  show "''                    cluster_header: '' @ ClusterHeader \<in> set (config_template certificates)"
    by (simp add: config_template_def listener_lines_def ClusterHeader_def)
qed

theorem requests_are_routable_witness:
  "\<exists>h' c. setDestinationCluster (list_envoy True) ENVOY_NET_WLAN [(''a'', ''b'')] = Inr h' \<and>
     (ClusterHeader, c) \<in> set (hm_iterate list_header_map h') \<and>
     c \<in> set (template_clusters (config_template [[]]))"
proof -
  have api: "headers_api (list_envoy True) = list_header_map" by (simp add: list_envoy_def)
  have it: "hm_iterate list_header_map [(''a'', ''b'')] = [(''a'', ''b'')]"
    by (simp add: list_header_map_def ascii_lower_def)
  have abs: "ClusterHeader \<notin> hm_keys list_header_map [(''a'', ''b'')]"
    by (simp add: it) (simp add: ClusterHeader_def)
  have get: "hm_get list_header_map [(''a'', ''b'')] H2UpstreamHeader = []"
    by (simp only: header_map_lawsD(3) [OF list_header_map_laws] it) (simp add: H2UpstreamHeader_def)
  obtain h' where h': "setDestinationCluster (list_envoy True) ENVOY_NET_WLAN [(''a'', ''b'')] = Inr h'"
    using setDestinationCluster_entries [of "list_envoy True" "[(''a'', ''b'')]" ENVOY_NET_WLAN] abs get
    by (auto simp: api list_header_map_laws)
  have "inside_scalar [[]]" by (simp add: inside_scalar_def)
  with requests_are_routable [OF _ _ h', of "[[]]"] abs h' show ?thesis
    by (auto simp: api list_header_map_laws)
qed

end
