(* ===== verification/JniInterface.thy ===== *)
theory JniInterface
  imports JniUtility MainInterfaceProps PlatformBridge ConfigTemplate
begin

text \<open>
  \<open>src/library/common/jni/jni_interface.cc\<close> and \<open>android_jni_interface.cc\<close>: the callbacks the native
  code makes into the JVM, and the functions the JVM calls.

  The callbacks run on a native thread and do their own bookkeeping of local references; logging has no
  effect. A function of the JVM's library acts on the thread's \<open>jni_state\<close> and, through the C interface,
  on the \<open>process\<close>. The heap in \<open>jni_state\<close> is what the JNI code allocates and releases in; the
  dispatcher's model keeps its own.
\<close>

section \<open>Passing headers and data to Java\<close>

fun pass_headers_loop :: "jni_state \<Rightarrow> jvalue \<Rightarrow> ptr \<Rightarrow> nat \<Rightarrow> nat \<Rightarrow> bool \<Rightarrow> abort + jni_state" where
  "pass_headers_loop s ctxt p i 0 start_headers = Inr s"
| "pass_headers_loop s ctxt p i (Suc k) start_headers =
     bindE (load_header (jni_mem s) p i) (\<lambda>h.
     bindE (data_view (jni_mem s) (eh_key h)) (\<lambda>key.
     bindE (data_view (jni_mem s) (eh_value h)) (\<lambda>val.
     pass_headers_loop
       (log_call (new_local (new_local s)) ctxt ''passHeader'' [JBytes key, JBytes val, JBool start_headers])
       ctxt p (Suc i) k False)))"

definition pass_headers :: "jni_state \<Rightarrow> envoy_headers \<Rightarrow> jvalue \<Rightarrow> abort + jni_state" where
  "pass_headers s headers ctxt =
     bindE (pass_headers_loop (PushLocalFrame (new_local s)) ctxt (hs_headers headers) 0
       (nat (hs_length headers)) True) (\<lambda>s1.
     bindE (release_envoy_headers (jni_mem s1) headers) (\<lambda>m.
     Inr ((DeleteLocalRef (PopLocalFrame s1))\<lparr>jni_mem := m\<rparr>)))"

definition jvm_on_headers ::
  "java \<Rightarrow> jni_state \<Rightarrow> string \<Rightarrow> envoy_headers \<Rightarrow> bool \<Rightarrow> ptr \<Rightarrow> abort + jvalue \<times> jni_state" where
  "jvm_on_headers J s method headers end_stream context =
     bindE (get_env s) (\<lambda>s0.
     bindE (deref_global s0 context) (\<lambda>ctxt.
     bindE (pass_headers s0 headers ctxt) (\<lambda>s1.
     case CallObjectMethod J (new_local s1) ctxt method [JLong (hs_length headers), JBool end_stream] of
       (result, s2) \<Rightarrow> Inr (result, DeleteLocalRef s2))))"

definition jvm_on_data ::
  "java \<Rightarrow> jni_state \<Rightarrow> string \<Rightarrow> envoy_data \<Rightarrow> bool \<Rightarrow> ptr \<Rightarrow> abort + jvalue \<times> jni_state" where
  "jvm_on_data J s method data end_stream context =
     bindE (get_env s) (\<lambda>s0.
     bindE (deref_global s0 context) (\<lambda>ctxt.
     bindE (data_view (jni_mem s0) data) (\<lambda>bs.
     case CallObjectMethod J (new_local (new_local s0)) ctxt method [JBytes bs, JBool end_stream] of
       (result, s1) \<Rightarrow>
         bindE (release_envoy_data (jni_mem s1) data) (\<lambda>m.
         Inr (result, (DeleteLocalRef (DeleteLocalRef s1))\<lparr>jni_mem := m\<rparr>)))))"

definition jvm_on_trailers ::
  "java \<Rightarrow> jni_state \<Rightarrow> string \<Rightarrow> envoy_headers \<Rightarrow> ptr \<Rightarrow> abort + jvalue \<times> jni_state" where
  "jvm_on_trailers J s method trailers context =
     bindE (get_env s) (\<lambda>s0.
     bindE (deref_global s0 context) (\<lambda>ctxt.
     bindE (pass_headers s0 trailers ctxt) (\<lambda>s1.
     case CallObjectMethod J (new_local s1) ctxt method [JLong (hs_length trailers)] of
       (result, s2) \<Rightarrow> Inr (result, DeleteLocalRef s2))))"

section \<open>The callbacks of a stream\<close>

definition jvm_on_response_headers where
  "jvm_on_response_headers J s headers end_stream context =
     jvm_on_headers J s ''onResponseHeaders'' headers end_stream context"

definition jvm_on_response_data where
  "jvm_on_response_data J s data end_stream context =
     jvm_on_data J s ''onResponseData'' data end_stream context"

definition jvm_on_response_trailers where
  "jvm_on_response_trailers J s trailers context =
     jvm_on_trailers J s ''onResponseTrailers'' trailers context"

definition jvm_on_metadata :: "jni_state \<Rightarrow> envoy_headers \<Rightarrow> ptr \<Rightarrow> abort + jvalue \<times> jni_state" where
  "jvm_on_metadata s metadata context = Inr (JNull, s)"

fun error_code_value :: "envoy_error_code_t \<Rightarrow> int" where
  "error_code_value ENVOY_UNDEFINED_ERROR = 0"
| "error_code_value ENVOY_STREAM_RESET = 1"
| "error_code_value ENVOY_CONNECTION_FAILURE = 2"

definition jvm_on_error :: "java \<Rightarrow> jni_state \<Rightarrow> envoy_error \<Rightarrow> ptr \<Rightarrow> abort + jvalue \<times> jni_state" where
  "jvm_on_error J s error context =
     bindE (get_env s) (\<lambda>s0.
     bindE (deref_global s0 context) (\<lambda>ctxt.
     bindE (data_view (jni_mem s0) (err_message error)) (\<lambda>bs.
     case CallObjectMethod J (new_local (new_local s0)) ctxt ''onError''
         [JInt (error_code_value (err_code error)), JBytes bs, JInt (sint (err_attempt_count error))] of
       (result, s1) \<Rightarrow>
         bindE (release_envoy_data (jni_mem s1) (err_message error)) (\<lambda>m.
         bindE (DeleteGlobalRef (s1\<lparr>jni_mem := m\<rparr>) context) (\<lambda>s2.
         Inr (result, DeleteLocalRef (DeleteLocalRef s2)))))))"

definition jvm_on_complete :: "jni_state \<Rightarrow> ptr \<Rightarrow> abort + jvalue \<times> jni_state" where
  "jvm_on_complete s context =
     bindE (get_env s) (\<lambda>s0. bindE (DeleteGlobalRef s0 context) (\<lambda>s1. Inr (JNull, s1)))"

definition jvm_on_cancel :: "java \<Rightarrow> jni_state \<Rightarrow> ptr \<Rightarrow> abort + jvalue \<times> jni_state" where
  "jvm_on_cancel J s context =
     bindE (get_env s) (\<lambda>s0.
     bindE (deref_global s0 context) (\<lambda>ctxt.
     case CallObjectMethod J (new_local s0) ctxt ''onCancel'' [] of
       (result, s1) \<Rightarrow> bindE (DeleteGlobalRef s1 context) (\<lambda>s2. Inr (result, DeleteLocalRef s2))))"

text \<open>The table of function pointers that \<open>startStream\<close> gives to the dispatcher.\<close>

fun jvm_http_callback :: "java \<Rightarrow> jni_state \<Rightarrow> ptr \<Rightarrow> platform_call \<Rightarrow> abort + jvalue \<times> jni_state" where
  "jvm_http_callback J s context (on_headers hs es) = jvm_on_response_headers J s hs es context"
| "jvm_http_callback J s context (on_data d es) = jvm_on_response_data J s d es context"
| "jvm_http_callback J s context (on_trailers hs) = jvm_on_response_trailers J s hs context"
| "jvm_http_callback J s context (on_error e) = jvm_on_error J s e context"
| "jvm_http_callback J s context on_complete = jvm_on_complete s context"
| "jvm_http_callback J s context on_cancel = jvm_on_cancel J s context"

section \<open>The callbacks of a filter and of the engine\<close>

definition headers_answer :: "jni_state \<Rightarrow> jvalue \<Rightarrow> abort + (int \<times> envoy_headers) \<times> jni_state" where
  "headers_answer s result =
     bindE (GetObjectArrayElement s result 0) (\<lambda>(status, s1).
     bindE (GetObjectArrayElement s1 result 1) (\<lambda>(j_headers, s2).
     bindE (unbox_integer s2 status) (\<lambda>(unboxed_status, s3).
     bindE (to_native_headers s3 j_headers) (\<lambda>(native_headers, s4).
     Inr ((unboxed_status, native_headers), DeleteLocalRef (DeleteLocalRef (DeleteLocalRef s4)))))))"

definition data_answer :: "jni_state \<Rightarrow> jvalue \<Rightarrow> abort + (int \<times> envoy_data) \<times> jni_state" where
  "data_answer s result =
     bindE (GetObjectArrayElement s result 0) (\<lambda>(status, s1).
     bindE (GetObjectArrayElement s1 result 1) (\<lambda>(j_data, s2).
     bindE (unbox_integer s2 status) (\<lambda>(unboxed_status, s3).
     bindE (buffer_to_native_data s3 j_data) (\<lambda>(native_data, s4).
     Inr ((unboxed_status, native_data), DeleteLocalRef (DeleteLocalRef (DeleteLocalRef s4)))))))"

definition jvm_http_filter_on_request_headers where
  "jvm_http_filter_on_request_headers J s headers end_stream context =
     bindE (jvm_on_headers J s ''onRequestHeaders'' headers end_stream context) (\<lambda>(result, s1). headers_answer s1 result)"

definition jvm_http_filter_on_response_headers where
  "jvm_http_filter_on_response_headers J s headers end_stream context =
     bindE (jvm_on_headers J s ''onResponseHeaders'' headers end_stream context) (\<lambda>(result, s1). headers_answer s1 result)"

definition jvm_http_filter_on_request_data where
  "jvm_http_filter_on_request_data J s data end_stream context =
     bindE (jvm_on_data J s ''onRequestData'' data end_stream context) (\<lambda>(result, s1). data_answer s1 result)"

definition jvm_http_filter_on_response_data where
  "jvm_http_filter_on_response_data J s data end_stream context =
     bindE (jvm_on_data J s ''onResponseData'' data end_stream context) (\<lambda>(result, s1). data_answer s1 result)"

definition jvm_http_filter_on_request_trailers where
  "jvm_http_filter_on_request_trailers J s trailers context =
     bindE (jvm_on_trailers J s ''onRequestTrailers'' trailers context) (\<lambda>(result, s1). headers_answer s1 result)"

definition jvm_http_filter_on_response_trailers where
  "jvm_http_filter_on_response_trailers J s trailers context =
     bindE (jvm_on_trailers J s ''onResponseTrailers'' trailers context) (\<lambda>(result, s1). headers_answer s1 result)"

text \<open>A global reference to null is null.\<close>

definition jvm_http_filter_init :: "java \<Rightarrow> jni_state \<Rightarrow> ptr \<Rightarrow> abort + ptr \<times> jni_state" where
  "jvm_http_filter_init J s context =
     bindE (get_env s) (\<lambda>s0.
     bindE (deref_global s0 context) (\<lambda>ctxt.
     case CallObjectMethod J (new_local s0) ctxt ''create'' [] of
       (j_filter, s1) \<Rightarrow>
         (case if j_filter = JNull then (NULL, s1) else NewGlobalRef s1 j_filter of
            (retained_filter, s2) \<Rightarrow>
              Inr (retained_filter,
                DeleteLocalRef (if j_filter = JNull then s2 else DeleteLocalRef s2)))))"

definition jvm_on_engine_running :: "java \<Rightarrow> jni_state \<Rightarrow> ptr \<Rightarrow> abort + jni_state" where
  "jvm_on_engine_running J s context =
     bindE (get_env s) (\<lambda>s0.
     bindE (deref_global s0 context) (\<lambda>ctxt.
     case CallObjectMethod J (new_local s0) ctxt ''invokeOnEngineRunning'' [] of
       (_, s1) \<Rightarrow> DeleteGlobalRef (DeleteLocalRef s1) context))"

definition jvm_on_exit :: "jni_state \<Rightarrow> abort + jni_state" where
  "jvm_on_exit s = jvm_detach_thread s"

section \<open>The functions of \<open>JniLibrary\<close>\<close>

type_synonym ('h, 'b) jni_process = "jni_state \<times> ('h, 'b) process"

text \<open>\<open>GetStringUTFChars\<close> borrows a copy of the string; nothing gives it back.\<close>

definition GetStringUTFChars :: "jni_state \<Rightarrow> jni_state" where
  "GetStringUTFChars s = s\<lparr>utf_chars := Suc (utf_chars s)\<rparr>"

text \<open>\<open>jni_version.cc\<close>: the constant \<open>JNI_VERSION_1_6\<close> of the JNI specification.\<close>

definition JNI_VERSION :: int where
  "JNI_VERSION = 0x00010006"

text \<open>\<open>env_found\<close> is whether \<open>GetEnv\<close> returned \<open>JNI_OK\<close>.\<close>

definition JNI_OnLoad :: "bool \<Rightarrow> jni_state \<Rightarrow> nat \<Rightarrow> int \<times> jni_state" where
  "JNI_OnLoad env_found s vm = (if \<not> env_found then (- 1, s) else (JNI_VERSION, set_vm s (Some vm)))"

text \<open>\<open>NewStringUTF\<close> gives a local reference to a new string.\<close>

definition templateString :: "string \<Rightarrow> jni_state \<Rightarrow> string \<times> jni_state" where
  "templateString certificates s = (config_template_text certificates, new_local s)"

definition filterTemplateString :: "jni_state \<Rightarrow> string \<times> jni_state" where
  "filterTemplateString s = (platform_filter_template_text, new_local s)"

definition initEngine :: envoy_engine_t where
  "initEngine = init_engine"

text \<open>The functions \<open>jvm_on_engine_running\<close> and \<open>jvm_on_exit\<close> as the engine's callbacks. Up to the
  assignment of \<open>strong_engine_\<close>; \<open>run_engine_publish\<close> does the rest.\<close>

definition jvm_engine_callbacks :: "ptr \<Rightarrow> envoy_engine_callbacks" where
  "jvm_engine_callbacks r = \<lparr>on_engine_running_fn = Some 1, on_exit_fn = Some 2, ec_context = r\<rparr>"

definition runEngine ::
  "('h, 'b) envoy \<Rightarrow> ('h, 'b) jni_process \<Rightarrow> string \<Rightarrow> string \<Rightarrow> jvalue \<Rightarrow> memory \<Rightarrow>
   abort + ('h, 'b) jni_process" where
  "runEngine E sp config log_level context m = (case sp of (s, p) \<Rightarrow>
     case NewGlobalRef s context of (retained_context, s1) \<Rightarrow>
     bindE (run_engine_assign E p (jvm_engine_callbacks retained_context) config log_level m) (\<lambda>p'.
     Inr (GetStringUTFChars (GetStringUTFChars s1), p')))"

text \<open>A \<open>jint\<close> becomes the \<open>uint64_t\<close> of the C interface by sign extension.\<close>

definition jint_to_uint64 :: "32 word \<Rightarrow> 64 word" where
  "jint_to_uint64 n = signed n"

definition with_record ::
  "('h, 'b) jni_process \<Rightarrow> (('h, 'b) process \<Rightarrow> abort + envoy_status_t \<times> ('h, 'b) process) \<Rightarrow>
   abort + envoy_status_t \<times> ('h, 'b) jni_process" where
  "with_record sp call = (case sp of (s, p) \<Rightarrow>
     bindE (call p) (\<lambda>(st, p'). Inr (st, (GetStringUTFChars s, p'))))"

definition recordCounter where
  "recordCounter V sp engine elements cnt =
     with_record sp (\<lambda>p. record_counter V p engine elements (jint_to_uint64 cnt))"

definition jni_recordGaugeSet where
  "jni_recordGaugeSet V sp engine elements value =
     with_record sp (\<lambda>p. record_gauge_set V p engine elements (jint_to_uint64 value))"

definition jni_recordGaugeAdd where
  "jni_recordGaugeAdd V sp engine elements amount =
     with_record sp (\<lambda>p. record_gauge_add V p engine elements (jint_to_uint64 amount))"

definition jni_recordGaugeSub where
  "jni_recordGaugeSub V sp engine elements amount =
     with_record sp (\<lambda>p. record_gauge_sub V p engine elements (jint_to_uint64 amount))"

definition initStream :: "('h, 'b) jni_process \<Rightarrow> envoy_stream_t \<times> ('h, 'b) jni_process" where
  "initStream sp = (case sp of (s, p) \<Rightarrow> case init_stream p of (h, p') \<Rightarrow> (h, (s, p')))"

text \<open>The number 1 names the table \<open>jvm_http_callback\<close>.\<close>

definition jvm_http_callbacks :: "ptr \<Rightarrow> envoy_http_callbacks" where
  "jvm_http_callbacks r = \<lparr>cb_table = 1, cb_context = r\<rparr>"

definition jni_startStream ::
  "('h, 'b) jni_process \<Rightarrow> envoy_stream_t \<Rightarrow> jvalue \<Rightarrow> abort + envoy_status_t \<times> ('h, 'b) jni_process" where
  "jni_startStream sp handle j_context = (case sp of (s, p) \<Rightarrow>
     case NewGlobalRef (new_local s) j_context of (retained_context, s1) \<Rightarrow>
     bindE (start_stream p handle (jvm_http_callbacks retained_context)) (\<lambda>(result, p').
     bindE (if result \<noteq> ENVOY_SUCCESS then DeleteGlobalRef s1 retained_context else Inr s1) (\<lambda>s2.
     Inr (result, (DeleteLocalRef s2, p')))))"

text \<open>The fields of the \<open>envoy_http_filter\<close> that \<open>registerFilterFactory\<close> allocates with
  \<open>safe_malloc\<close>: a field that is not assigned is uninitialised, \<open>None\<close>.\<close>

datatype filter_field =
    F_init_filter | F_on_request_headers | F_on_request_data | F_on_request_trailers
  | F_on_response_headers | F_on_response_data | F_on_response_trailers | F_set_request_callbacks
  | F_on_resume_request | F_set_response_callbacks | F_on_resume_response | F_release_filter
  | F_static_context | F_instance_context

datatype field_value = Function string | Context ptr

definition jvm_filter_struct :: "ptr \<Rightarrow> filter_field \<Rightarrow> field_value option" where
  "jvm_filter_struct retained_context =
     [F_init_filter \<mapsto> Function ''jvm_http_filter_init'',
      F_on_request_headers \<mapsto> Function ''jvm_http_filter_on_request_headers'',
      F_on_request_data \<mapsto> Function ''jvm_http_filter_on_request_data'',
      F_on_request_trailers \<mapsto> Function ''jvm_http_filter_on_request_trailers'',
      F_on_response_headers \<mapsto> Function ''jvm_http_filter_on_response_headers'',
      F_on_response_data \<mapsto> Function ''jvm_http_filter_on_response_data'',
      F_on_response_trailers \<mapsto> Function ''jvm_http_filter_on_response_trailers'',
      F_release_filter \<mapsto> Function ''jni_delete_const_global_ref'',
      F_static_context \<mapsto> Context retained_context,
      F_instance_context \<mapsto> Context NULL]"

text \<open>\<open>sizeof(envoy_http_filter)\<close>: fourteen pointers.\<close>

definition registerFilterFactory ::
  "('h, 'b) jni_process \<Rightarrow> string \<Rightarrow> jvalue \<Rightarrow>
   abort + (filter_field \<Rightarrow> field_value option) \<times> envoy_status_t \<times> ('h, 'b) jni_process" where
  "registerFilterFactory sp name j_context = (case sp of (s, p) \<Rightarrow>
     case NewGlobalRef (new_local s) j_context of (retained_context, s1) \<Rightarrow>
     bindE (safe_malloc (jni_mem s1) 112) (\<lambda>(api, m).
     case register_platform_api p name api of (_, p') \<Rightarrow>
     Inr (jvm_filter_struct retained_context, ENVOY_SUCCESS,
       (DeleteLocalRef (GetStringUTFChars (s1\<lparr>jni_mem := m\<rparr>)), p'))))"

definition sendData_buffer where
  "sendData_buffer sp handle data end_stream = (case sp of (s, p) \<Rightarrow>
     bindE (buffer_to_native_data s data) (\<lambda>(d, s1).
     bindE (send_data p handle d end_stream) (\<lambda>(st, p'). Inr (st, (s1, p')))))"

definition sendData_array where
  "sendData_array sp handle data end_stream = (case sp of (s, p) \<Rightarrow>
     bindE (array_to_native_data s data) (\<lambda>(d, s1).
     bindE (send_data p handle d end_stream) (\<lambda>(st, p'). Inr (st, (s1, p')))))"

definition jni_sendHeaders where
  "jni_sendHeaders sp handle headers end_stream = (case sp of (s, p) \<Rightarrow>
     bindE (to_native_headers s headers) (\<lambda>(hs, s1).
     bindE (send_headers p handle hs end_stream) (\<lambda>(st, p'). Inr (st, (s1, p')))))"

definition jni_sendTrailers where
  "jni_sendTrailers sp handle trailers = (case sp of (s, p) \<Rightarrow>
     bindE (to_native_headers s trailers) (\<lambda>(hs, s1).
     bindE (send_trailers p handle hs) (\<lambda>(st, p'). Inr (st, (s1, p')))))"

definition jni_resetStream where
  "jni_resetStream sp handle = (case sp of (s, p) \<Rightarrow>
     bindE (reset_stream p handle) (\<lambda>(st, p'). Inr (st, (s, p'))))"

text \<open>\<open>AndroidJniLibrary.setPreferredNetwork\<close>: an enumerator of \<open>envoy_network_t\<close> or a cast value.\<close>

definition network_of_jint :: "int \<Rightarrow> envoy_network_t" where
  "network_of_jint n = (if n = 0 then ENVOY_NET_GENERIC else if n = 1 then ENVOY_NET_WLAN
     else if n = 2 then ENVOY_NET_WWAN else ENVOY_NET_CAST n)"

definition setPreferredNetwork ::
  "('h, 'b) jni_process \<Rightarrow> int \<Rightarrow> envoy_status_t \<times> ('h, 'b) jni_process" where
  "setPreferredNetwork sp network = (case sp of (s, p) \<Rightarrow>
     case set_preferred_network p (network_of_jint network) of (st, p') \<Rightarrow> (st, (s, p')))"

text \<open>\<open>AndroidJniLibrary.initialize\<close>: c-ares is a parameter, what its second initialisation returns after
  the first.\<close>

definition initialize :: "(nat option \<Rightarrow> jvalue \<Rightarrow> int) \<Rightarrow> jni_state \<Rightarrow> jvalue \<Rightarrow> int" where
  "initialize ares_init s connectivity_manager = ares_init (get_vm s) connectivity_manager"

end
