(* ===== verification/JniProps.thy ===== *)
theory JniProps
  imports JniInterface
begin

text \<open>
  What the JNI layer promises: the context of a stream stays referenced until its terminal callback and
  is released by it exactly once; headers reach a Java filter in order and its answer comes back in fresh
  native memory. The local references that a filter's callbacks leave behind are counted.
\<close>

section \<open>What the JVM operations leave alone\<close>

lemma local_frames [simp]:
  "global_refs (new_local s) = global_refs s" "jcalls (new_local s) = jcalls s" "local_env (new_local s) = local_env s"
  "attached (new_local s) = attached s"
  "global_refs (DeleteLocalRef s) = global_refs s" "jcalls (DeleteLocalRef s) = jcalls s"
  "jni_mem (DeleteLocalRef s) = jni_mem s"
  "global_refs (PushLocalFrame s) = global_refs s" "jcalls (PushLocalFrame s) = jcalls s"
  "jni_mem (PushLocalFrame s) = jni_mem s"
  "global_refs (PopLocalFrame s) = global_refs s" "jcalls (PopLocalFrame s) = jcalls s"
  "jni_mem (PopLocalFrame s) = jni_mem s"
  "global_refs (log_call s obj method args) = global_refs s" "jni_mem (log_call s obj method args) = jni_mem s"
  "local_refs (log_call s obj method args) = local_refs s"
  by (simp_all add: new_local_def DeleteLocalRef_def PushLocalFrame_def PopLocalFrame_def log_call_def)

lemma local_refs_simps [simp]:
  "local_refs s = n # fs \<Longrightarrow> local_refs (new_local s) = Suc n # fs"
  "local_refs s = n # fs \<Longrightarrow> local_refs (DeleteLocalRef s) = (n - 1) # fs"
  "local_refs (PushLocalFrame s) = 0 # local_refs s"
  "local_refs (PopLocalFrame s) = tl (local_refs s)"
  by (simp_all add: new_local_def DeleteLocalRef_def PushLocalFrame_def PopLocalFrame_def)

lemma CallObjectMethod_frames [simp]:
  "global_refs (snd (CallObjectMethod J s obj method args)) = global_refs s"
  "jni_mem (snd (CallObjectMethod J s obj method args)) = jni_mem s"
  by (auto simp: CallObjectMethod_def Let_def)

lemma get_env_Inr:
  "get_env s = Inr t \<Longrightarrow> global_refs t = global_refs s \<and> jni_mem t = jni_mem s \<and> local_refs t = local_refs s \<and>
     jcalls t = jcalls s"
  by (auto simp: get_env_def split: if_splits)

lemma deref_global_Inr [simp]: "deref_global s r = Inr v \<longleftrightarrow> global_refs s r = Some v"
  by (auto simp: deref_global_def split: option.splits)

lemma DeleteGlobalRef_Inr [simp]:
  "DeleteGlobalRef s r = Inr t \<longleftrightarrow>
     global_refs s r \<noteq> None \<and> t = s\<lparr>global_refs := (global_refs s)(r := None)\<rparr>"
  by (auto simp: DeleteGlobalRef_def split: option.splits)

lemma pass_headers_loop_globals:
  "pass_headers_loop s ctxt p i k start = Inr t \<Longrightarrow> global_refs t = global_refs s"
  by (induction k arbitrary: s i start) fastforce+

lemma pass_headers_globals: "pass_headers s hs ctxt = Inr t \<Longrightarrow> global_refs t = global_refs s"
  by (auto simp: pass_headers_def dest!: pass_headers_loop_globals)

section \<open>The context of a stream\<close>

text \<open>A callback needs the context alive, and a terminal one releases it.\<close>

lemma jvm_callback_globals:
  assumes "jvm_http_callback J s ctxt c = Inr (r, t)"
  shows "global_refs s ctxt \<noteq> None \<and>
    global_refs t = (if terminal c then (global_refs s)(ctxt := None) else global_refs s)"
  using assms
  by (cases c)
    (auto simp: jvm_on_response_headers_def jvm_on_headers_def jvm_on_response_data_def jvm_on_data_def
      jvm_on_response_trailers_def jvm_on_trailers_def jvm_on_error_def jvm_on_complete_def
      jvm_on_cancel_def split_beta dest!: get_env_Inr pass_headers_globals)

lemma closed_Cons: "closed (c # cs) \<longleftrightarrow> (if cs = [] then terminal c else \<not> terminal c \<and> closed cs)"
  by (cases cs) auto

fun run_jvm_calls :: "java \<Rightarrow> jni_state \<Rightarrow> ptr \<Rightarrow> platform_call list \<Rightarrow> abort + jni_state" where
  "run_jvm_calls J s ctxt [] = Inr s"
| "run_jvm_calls J s ctxt (c # cs) = bindE (jvm_http_callback J s ctxt c) (\<lambda>(_, t). run_jvm_calls J t ctxt cs)"

lemma run_jvm_calls_quiet:
  "run_jvm_calls J s ctxt cs = Inr t \<Longrightarrow> quiet cs \<Longrightarrow> global_refs t = global_refs s"
  by (induction cs arbitrary: s) (auto dest: jvm_callback_globals)

lemma run_jvm_calls_closed:
  "run_jvm_calls J s ctxt cs = Inr t \<Longrightarrow> closed cs \<Longrightarrow> global_refs t = (global_refs s)(ctxt := None)"
  by (induction cs arbitrary: s) (auto simp: closed_Cons dest!: jvm_callback_globals split: if_splits)

text \<open>A run of callbacks that stops, stops at a callback whose context is alive.\<close>

lemma run_jvm_calls_abort:
  assumes "global_refs s ctxt = Some v" and "quiet cs \<or> closed cs" and "run_jvm_calls J s ctxt cs = Inl a"
  shows "\<exists>pre c post u. cs = pre @ c # post \<and> run_jvm_calls J s ctxt pre = Inr u \<and>
    global_refs u ctxt = Some v \<and> jvm_http_callback J u ctxt c = Inl a"
  using assms
proof (induction cs arbitrary: s)
  case (Cons c cs)
  show ?case
  proof (cases "jvm_http_callback J s ctxt c")
    case (Inl b)
    then have "run_jvm_calls J s ctxt [] = Inr s" "jvm_http_callback J s ctxt c = Inl a"
      using Cons.prems(3) by auto
    then show ?thesis using Cons.prems(1) by blast
  next
    case (Inr rt)
    then obtain r t where t: "jvm_http_callback J s ctxt c = Inr (r, t)" by (cases rt) auto
    with Cons.prems have run: "run_jvm_calls J t ctxt cs = Inl a" by simp
    then have "cs \<noteq> []" by auto
    then have "\<not> terminal c" "quiet cs \<or> closed cs"
      using Cons.prems(2) by (auto simp: closed_Cons)
    then have "global_refs t ctxt = Some v" "quiet cs \<or> closed cs"
      using jvm_callback_globals [OF t] Cons.prems(1) by simp_all
    from Cons.IH [OF this run] obtain pre d post u where
      "cs = pre @ d # post" "run_jvm_calls J t ctxt pre = Inr u" "global_refs u ctxt = Some v"
      "jvm_http_callback J u ctxt d = Inl a"
      by blast
    then show ?thesis using t by (intro exI [of _ "c # pre"]) auto
  qed
qed simp

text \<open>C8. The Java context of a stream lives exactly as long as its callbacks. In every process, running the
  JVM's callbacks on the calls that a stream of an engine has received, from a state in which the
  context is referenced: if they all run, the reference is still there while the stream is open and has been
  deleted, once, when the stream is closed, and no other reference has changed; if one of them stops the
  process, it did so with its context alive.\<close>

theorem jvm_context_lifetime:
  assumes "proc.allowed_run spurious early_exit V E process_start evs"
    and "proc.run E V process_start evs = Inr p" and "sum_list (map inits evs) < 2 ^ 64"
    and "engines p i = Some e" and "j < next_oid (http_dispatcher_obj e)"
    and "global_refs s ctxt = Some v"
  shows "case run_jvm_calls J s ctxt (calls_of j (trace (http_dispatcher_obj e))) of
      Inr t \<Rightarrow> global_refs t =
        (if live (http_dispatcher_obj e) j then global_refs s else (global_refs s)(ctxt := None))
    | Inl a \<Rightarrow> \<exists>pre c post u. calls_of j (trace (http_dispatcher_obj e)) = pre @ c # post \<and>
        run_jvm_calls J s ctxt pre = Inr u \<and> global_refs u ctxt = Some v \<and>
        jvm_http_callback J u ctxt c = Inl a"
proof -
  let ?d = "http_dispatcher_obj e"
  have "process_inv V (0 + sum_list (map inits evs)) p"
    by (rule process_run_inv [OF process_start_inv assms(1,2)]) (use assms(3) in simp)
  then have "http_inv V e" using engines_invD(1) assms(4) by (auto simp: process_inv_def)
  then have verdict: "if live ?d j then quiet (calls_of j (trace ?d)) else closed (calls_of j (trace ?d))"
    using assms(5) unfolding http_inv_def dispatcher_inv_def calls_inv_def by (auto split: if_splits)
  show ?thesis
  proof (cases "run_jvm_calls J s ctxt (calls_of j (trace ?d))")
    case (Inl a)
    with run_jvm_calls_abort [OF assms(6) _ Inl] verdict show ?thesis by (auto split: if_splits)
  next
    case (Inr t)
    with run_jvm_calls_quiet [OF Inr] run_jvm_calls_closed [OF Inr] verdict show ?thesis by auto
  qed
qed

definition sample_jni :: jni_state where
  "sample_jni = \<lparr>static_jvm = Some 1, jni_mem = sample_memory, global_refs = [7 \<mapsto> JObject 1, 8 \<mapsto> JObject 2], next_global = 9,
     local_refs = [0], attached = True, local_env = True, utf_chars = 0, jcalls = []\<rparr>"

theorem jvm_context_lifetime_witness:
  "\<exists>p e t. proc.run (list_envoy True) sample_server process_start sample_process_events = Inr p \<and>
     engines p 0 = Some e \<and> run_jvm_calls (\<lambda>_. JNull) sample_jni 7 [on_cancel] = Inr t \<and>
     calls_of 0 (trace (http_dispatcher_obj e)) = [on_cancel] \<and> global_refs t = [8 \<mapsto> JObject 2]"
proof -
  obtain p e where p: "proc.run (list_envoy True) sample_server process_start sample_process_events = Inr p"
    "engines p 0 = Some e" "next_oid (http_dispatcher_obj e) = 2" "\<not> live (http_dispatcher_obj e) 0"
    "calls_of 0 (trace (http_dispatcher_obj e)) = [on_cancel]"
    by (simp add: sample_process_events_def process_defs life_defs step_defs Let_def list_envoy_def calls_of_def)
  have n: "sum_list (map inits sample_process_events) < 2 ^ 64" by (simp add: sample_process_events_def)
  have g: "global_refs sample_jni 7 = Some (JObject 1)" by (simp add: sample_jni_def)
  obtain t where t: "run_jvm_calls (\<lambda>_. JNull) sample_jni 7 [on_cancel] = Inr t"
    by (simp add: jvm_on_cancel_def sample_jni_def get_env_def deref_global_def CallObjectMethod_def Let_def
        DeleteGlobalRef_def new_local_def log_call_def)
  have "global_refs t = (global_refs sample_jni)(7 := None)"
    using jvm_context_lifetime [OF sample_process(1) p(1) n p(2) _ g, of 0 "\<lambda>_. JNull"] p(3,4)
    unfolding p(5) t by simp
  then have "global_refs t = [8 \<mapsto> JObject 2]" by (auto simp: sample_jni_def fun_eq_iff)
  with p t show ?thesis by blast
qed

section \<open>Headers to a Java filter and back\<close>

text \<open>The calls that pass a block of headers.\<close>

fun pass_calls :: "jvalue \<Rightarrow> bool \<Rightarrow> (byte list \<times> byte list) list \<Rightarrow> jcall list" where
  "pass_calls obj start [] = []"
| "pass_calls obj start ((k, v) # kvs) =
     \<lparr>jc_object = obj, jc_method = ''passHeader'', jc_args = [JBytes k, JBytes v, JBool start]\<rparr> #
     pass_calls obj False kvs"

lemma pass_headers_loop_spec:
  assumes "headers_view_loop (jni_mem s) p i k = Inr kvs" and "local_refs s = n # fs"
  shows "\<exists>t. pass_headers_loop s obj p i k start = Inr t \<and> jcalls t = jcalls s @ pass_calls obj start kvs \<and>
    local_refs t = (n + 2 * k) # fs \<and> jni_mem t = jni_mem s \<and> global_refs t = global_refs s"
  using assms
proof (induction k arbitrary: s i kvs start n)
  case 0
  then show ?case by simp
next
  case (Suc k)
  from Suc.prems(1) obtain h key val rest where h: "load_header (jni_mem s) p i = Inr h"
    "data_view (jni_mem s) (eh_key h) = Inr key" "data_view (jni_mem s) (eh_value h) = Inr val"
    "headers_view_loop (jni_mem s) p (Suc i) k = Inr rest" "kvs = (key, val) # rest"
    by auto
  let ?s = "log_call (new_local (new_local s)) obj ''passHeader'' [JBytes key, JBytes val, JBool start]"
  have "headers_view_loop (jni_mem ?s) p (Suc i) k = Inr rest" "local_refs ?s = Suc (Suc n) # fs"
    using h(4) Suc.prems(2) by simp_all
  from Suc.IH [OF this, of False] show ?case
    using h by (auto simp: log_call_def)
qed

lemma pass_headers_spec:
  assumes own: "owned_headers (jni_mem s) hs kvs fp" and locals: "local_refs s = n # fs"
  shows "\<exists>t sz. pass_headers s hs obj = Inr t \<and> jcalls t = jcalls s @ pass_calls obj True kvs \<and>
    local_refs t = n # fs \<and> jni_mem t = drop_blocks (jni_mem s) fp sz \<and> global_refs t = global_refs s"
proof -
  let ?s = "PushLocalFrame (new_local s)"
  have "headers_view_loop (jni_mem ?s) (hs_headers hs) 0 (nat (hs_length hs)) = Inr kvs"
    using owned_headers_view [OF own] by (simp add: headers_view_def)
  moreover have "local_refs ?s = 0 # Suc n # fs" using locals by simp
  ultimately obtain u where u: "pass_headers_loop ?s obj (hs_headers hs) 0 (nat (hs_length hs)) True = Inr u"
    "jcalls u = jcalls s @ pass_calls obj True kvs" "local_refs u = (2 * nat (hs_length hs)) # Suc n # fs"
    "jni_mem u = jni_mem s" "global_refs u = global_refs s"
    using pass_headers_loop_spec [of ?s] by fastforce
  from release_owned_headers [OF own] obtain sz where
    "release_envoy_headers (jni_mem u) hs = Inr (drop_blocks (jni_mem s) fp sz)"
    using u(4) by simp
  then show ?thesis using u by (auto simp: pass_headers_def DeleteLocalRef_def PopLocalFrame_def)
qed

lemma more_locals_refs:
  "local_refs s = n # fs \<Longrightarrow> local_refs (more_locals k s) = (n + k) # fs"
  by (induction k arbitrary: s n) auto

lemma more_locals_calls [simp]: "jcalls (more_locals k s) = jcalls s" "global_refs (more_locals k s) = global_refs s"
  by (induction k arbitrary: s) auto

lemma to_native_headers_spec:
  assumes "wf_memory (jni_mem s)" and "sizeof_envoy_header * length kvs + pairs_size kvs \<le> avail (jni_mem s)"
    and "local_refs s = n # fs"
  shows "\<exists>hs t. to_native_headers s (JObjectArray (flat kvs)) = Inr (hs, t) \<and> allocates (jni_mem s) hs kvs (jni_mem t) \<and>
    local_refs t = (n + 2 * length kvs) # fs \<and> jcalls t = jcalls s \<and> global_refs t = global_refs s"
proof -
  obtain hs m' where "bindE (to_native_headers s (JObjectArray (flat kvs))) (\<lambda>(hs, s'). Inr (hs, jni_mem s')) = Inr (hs, m')"
    "allocates (jni_mem s) hs kvs m'"
    using nativeh.conv_succeeds [OF assms(1), of "(s, JObjectArray (flat kvs))" kvs] assms(2) by auto
  then obtain t where t: "to_native_headers s (JObjectArray (flat kvs)) = Inr (hs, t)"
    "allocates (jni_mem s) hs kvs (jni_mem t)"
    by auto
  then have "local_refs t = (n + 2 * length kvs) # fs" "jcalls t = jcalls s" "global_refs t = global_refs s"
    using more_locals_refs [OF assms(3), of "2 * length kvs"]
    by (auto simp: to_native_headers_place [OF assms(1)])
  with t show ?thesis by blast
qed

text \<open>Unpacking the pair a filter's method returned, the reference to it being one of the \<open>n\<close>: the three
  deletions leave the class of \<open>Integer\<close> and one reference per element of the header array behind.\<close>

lemma headers_answer_spec:
  assumes "wf_memory (jni_mem s)" and "sizeof_envoy_header * length kvs + pairs_size kvs \<le> avail (jni_mem s)"
    and "local_refs s = n # fs"
  shows "\<exists>hs t. headers_answer s (JObjectArray [JInteger st, JObjectArray (flat kvs)]) = Inr ((st, hs), t) \<and>
    allocates (jni_mem s) hs kvs (jni_mem t) \<and> local_refs t = (n + 2 * length kvs) # fs \<and>
    jcalls t = jcalls s \<and> global_refs t = global_refs s"
proof -
  let ?s = "new_local (new_local (new_local s))"
  have "local_refs ?s = Suc (Suc (Suc n)) # fs" using assms(3) by simp
  from to_native_headers_spec [of ?s kvs, OF _ _ this] assms(1,2) obtain hs t where
    t: "to_native_headers ?s (JObjectArray (flat kvs)) = Inr (hs, t)" "allocates (jni_mem s) hs kvs (jni_mem t)"
      "local_refs t = (Suc (Suc (Suc n)) + 2 * length kvs) # fs" "jcalls t = jcalls s" "global_refs t = global_refs s"
    by auto
  then show ?thesis
    by (simp add: headers_answer_def GetObjectArrayElement_def unbox_integer_def DeleteLocalRef_def)
qed

text \<open>The thread has an environment that is still valid, or can get one since the library was loaded.\<close>

definition env_usable :: "jni_state \<Rightarrow> bool" where
  "env_usable s \<longleftrightarrow> (if local_env s then attached s else static_jvm s \<noteq> None)"

lemma load_env_usable: "JNI_OnLoad True s vm = (v, t) \<Longrightarrow> \<not> local_env s \<Longrightarrow> env_usable t"
  by (auto simp: JNI_OnLoad_def env_usable_def set_vm_def)

lemma get_env_ok:
  assumes "env_usable s"
  obtains t where "get_env s = Inr t" "global_refs t = global_refs s" "jni_mem t = jni_mem s"
    "local_refs t = local_refs s" "jcalls t = jcalls s"
proof -
  have "\<exists>t. get_env s = Inr t" using assms by (simp add: get_env_def env_usable_def split: if_splits)
  then obtain t where "get_env s = Inr t" ..
  with get_env_Inr [OF this] that show ?thesis by blast
qed

text \<open>C9. Request headers to a Java filter and its answer. With the context referenced and the thread
  usable, a filter gets every header of the block by \<open>passHeader\<close>, in order, with the start flag on the
  first one only, then one \<open>onRequestHeaders\<close> with the number of headers; the native block is released.
  The status and the headers of its answer come back, the headers in fresh native memory with exactly the
  answered contents. The callback leaves one local reference and two for each answered header behind on the
  engine's thread.\<close>

theorem java_filter_headers:
  assumes "wf_memory (jni_mem s)" and "owned_headers (jni_mem s) hs kvs fp" and "global_refs s ctxt = Some obj"
    and "env_usable s" and "local_refs s = n # fs"
    and "J (jcalls s @ pass_calls obj True kvs @ [\<lparr>jc_object = obj, jc_method = ''onRequestHeaders'',
           jc_args = [JLong (hs_length hs), JBool es]\<rparr>]) = JObjectArray [JInteger st, JObjectArray (flat kvs')]"
    and "sizeof_envoy_header * length kvs' + pairs_size kvs' \<le> avail (jni_mem s)"
  shows "\<exists>hs' t sz. jvm_http_filter_on_request_headers J s hs es ctxt = Inr ((st, hs'), t) \<and>
    jcalls t = jcalls s @ pass_calls obj True kvs @ [\<lparr>jc_object = obj, jc_method = ''onRequestHeaders'',
      jc_args = [JLong (hs_length hs), JBool es]\<rparr>] \<and>
    headers_view (jni_mem t) hs' = Inr kvs' \<and> allocates (drop_blocks (jni_mem s) fp sz) hs' kvs' (jni_mem t) \<and>
    local_refs t = (n + 1 + 2 * length kvs') # fs \<and> global_refs t = global_refs s"
proof -
  obtain s0 where s0: "get_env s = Inr s0" "global_refs s0 = global_refs s" "jni_mem s0 = jni_mem s"
    "local_refs s0 = n # fs" "jcalls s0 = jcalls s"
    by (rule get_env_ok [OF assms(4)]) (simp add: assms(5))
  obtain s1 sz where s1: "pass_headers s0 hs obj = Inr s1" "jcalls s1 = jcalls s @ pass_calls obj True kvs"
    "local_refs s1 = n # fs" "jni_mem s1 = drop_blocks (jni_mem s) fp sz" "global_refs s1 = global_refs s"
    using pass_headers_spec [of s0 hs kvs fp n fs obj] assms(2) unfolding s0(2-5) by blast
  let ?call = "\<lparr>jc_object = obj, jc_method = ''onRequestHeaders'', jc_args = [JLong (hs_length hs), JBool es]\<rparr>"
  let ?ans = "JObjectArray [JInteger st, JObjectArray (flat kvs')]"
  define s2 where "s2 = DeleteLocalRef (new_local (log_call (new_local s1) obj ''onRequestHeaders''
    [JLong (hs_length hs), JBool es]))"
  have s2: "jni_mem s2 = drop_blocks (jni_mem s) fp sz" "local_refs s2 = Suc n # fs"
    "jcalls s2 = jcalls s @ pass_calls obj True kvs @ [?call]" "global_refs s2 = global_refs s"
    using s1 by (simp_all add: s2_def) (simp_all add: log_call_def)
  have call: "CallObjectMethod J (new_local s1) obj ''onRequestHeaders'' [JLong (hs_length hs), JBool es] =
      (?ans, new_local (log_call (new_local s1) obj ''onRequestHeaders'' [JLong (hs_length hs), JBool es]))"
    using s1(2) assms(6) by (simp add: CallObjectMethod_def Let_def log_call_def)
  then have "jvm_on_headers J s ''onRequestHeaders'' hs es ctxt = Inr (?ans, s2)"
    using s0 s1(1) assms(3) by (simp add: jvm_on_headers_def deref_global_def s2_def)
  moreover have "wf_memory (jni_mem s2)"
    "sizeof_envoy_header * length kvs' + pairs_size kvs' \<le> avail (jni_mem s2)"
    using assms(1,7) by (simp_all add: s2(1))
  then obtain hs' t where t: "headers_answer s2 ?ans = Inr ((st, hs'), t)" "allocates (jni_mem s2) hs' kvs' (jni_mem t)"
    "local_refs t = (Suc n + 2 * length kvs') # fs" "jcalls t = jcalls s2" "global_refs t = global_refs s2"
    using headers_answer_spec [of s2 kvs' "Suc n" fs st, OF _ _ s2(2)] by blast
  ultimately have "jvm_http_filter_on_request_headers J s hs es ctxt = Inr ((st, hs'), t)"
    by (simp add: jvm_http_filter_on_request_headers_def)
  moreover have "local_refs t = (n + 1 + 2 * length kvs') # fs" using t(3) by simp
  ultimately show ?thesis
    using t(2,4,5) allocates_view [OF t(2)] unfolding s2 by blast
qed

lemma sample_owned:
  "owned_headers sample_memory sample_headers [([97], [98, 99])] {1, 2, 3}"
  by (auto simp: owned_headers_def sample_memory_def sample_headers_def holds_headers_def holds_def
      header_array_def header_ptrs_def data_ptrs_def sizeof_envoy_header_def intro!: exI [of _ "[_]"])

theorem java_filter_headers_witness:
  "\<exists>hs' t. jvm_http_filter_on_request_headers
      (\<lambda>cs. JObjectArray [JInteger 0, JObjectArray [JByteArray [120], JByteArray []]])
      sample_jni sample_headers True 8 = Inr ((0, hs'), t) \<and>
    headers_view (jni_mem t) hs' = Inr [([120], [])] \<and> map jc_method (jcalls t) = [''passHeader'', ''onRequestHeaders''] \<and>
    local_refs t = [3]"
proof -
  let ?J = "\<lambda>cs :: jcall list. JObjectArray [JInteger 0, JObjectArray [JByteArray [120], JByteArray []]]"
  have "wf_memory (jni_mem sample_jni)" "owned_headers (jni_mem sample_jni) sample_headers [([97], [98, 99])] {1, 2, 3}"
    "global_refs sample_jni 8 = Some (JObject 2)" "env_usable sample_jni"
    "local_refs sample_jni = 0 # []" "jcalls sample_jni = []"
    "sizeof_envoy_header * length [([120], [])] + pairs_size [([120], [])] \<le> avail (jni_mem sample_jni)"
    using wf_sample_memory sample_owned
    by (simp_all add: sample_jni_def sizeof_envoy_header_def env_usable_def) (simp add: sample_memory_def)
  with java_filter_headers [of sample_jni sample_headers "[([97], [98, 99])]" "{1, 2, 3}" 8 "JObject 2" 0 "[]" ?J True 0
      "[([120], [])]"]
  show ?thesis by auto
qed

end
