(* ===== verification/PlatformBridgeProps.thy ===== *)
theory PlatformBridgeProps
  imports PlatformBridge
begin

text \<open>
  What the platform bridge filter guarantees: the statuses it returns agree with its iteration state,
  misuse of a status stops the process, no byte of a buffered body is lost or duplicated, the entities
  the platform returns replace the pending ones and their memory is released, a filter without an
  initializer is transparent, and the life cycle of a platform filter instance. The operations exist
  once per direction; the locale \<open>bridge_direction\<close> states what the two have in common, and its
  lemmas are interpreted for the request and for the response.
\<close>

section \<open>Frame lemmas\<close>

lemma read_iteration_state_Inr [simp]:
  "read_iteration_state s = Inr st \<longleftrightarrow> iteration_state s = Some st"
  by (auto simp: read_iteration_state_def split: option.splits)

lemma header_map_Inr [simp]: "header_map s i = Inr h \<longleftrightarrow> header_maps s i = Some h"
  by (auto simp: header_map_def split: option.splits)

lemma set_header_map_frame [simp]:
  "iteration_state (set_header_map s i h) = iteration_state s"
  "platform_filter (set_header_map s i h) = platform_filter s"
  "bmem (set_header_map s i h) = bmem s" "platform (set_header_map s i h) = platform s"
  "decoding_buffer (set_header_map s i h) = decoding_buffer s"
  "encoding_buffer (set_header_map s i h) = encoding_buffer s"
  "header_maps (set_header_map s i h) = (header_maps s)(i \<mapsto> h)"
  "pending_request_headers (set_header_map s i h) = pending_request_headers s"
  "pending_response_headers (set_header_map s i h) = pending_response_headers s"
  "pending_request_trailers (set_header_map s i h) = pending_request_trailers s"
  "pending_response_trailers (set_header_map s i h) = pending_response_trailers s"
  "btrace (set_header_map s i h) = btrace s" "bfragments (set_header_map s i h) = bfragments s"
  by (simp_all add: set_header_map_def)

definition quiet_change :: "('h, 'b, 'p) bridge_filter \<Rightarrow> ('h, 'b, 'p) bridge_filter \<Rightarrow> bool" where
  "quiet_change s t \<longleftrightarrow>
     iteration_state t = iteration_state s \<and> platform_filter t = platform_filter s \<and>
     platform t = platform s \<and> decoding_buffer t = decoding_buffer s \<and> encoding_buffer t = encoding_buffer s \<and>
     pending_request_headers t = pending_request_headers s \<and>
     pending_response_headers t = pending_response_headers s \<and>
     pending_request_trailers t = pending_request_trailers s \<and>
     pending_response_trailers t = pending_response_trailers s \<and>
     owned t = owned s \<and> weak_ptrs t = weak_ptrs s \<and> resume_posted t = resume_posted s"

lemma replace_and_free_quiet: "replace_and_free E s i boxed = Inr t \<Longrightarrow> quiet_change s t \<and> btrace t = btrace s"
  by (auto simp: replace_and_free_def quiet_change_def set_header_map_def)

lemma add_fragment_quiet:
  "add_fragment E s b d = Inr (b', t) \<Longrightarrow>
     quiet_change s t \<and> bmem t = bmem s \<and> header_maps t = header_maps s \<and> btrace t = btrace s"
  by (auto simp: add_fragment_def quiet_change_def Let_def)

lemma take_pending_headers_quiet:
  "take_pending_headers E s p r = Inr (p', t) \<Longrightarrow> quiet_change s t \<and> p' = (if r = None then p else None)"
  by (auto simp: take_pending_headers_def quiet_change_def dest: replace_and_free_quiet split: option.splits)

section \<open>Statuses\<close>

lemma filter_enums_distinct:
  assumes "filter_enums_laws F"
  shows "kEnvoyFilterHeadersStatusStopIteration F \<noteq> kEnvoyFilterHeadersStatusContinue F"
    "kEnvoyFilterDataStatusStopIterationAndBuffer F \<noteq> kEnvoyFilterDataStatusContinue F"
    "kEnvoyFilterDataStatusStopIterationNoBuffer F \<noteq> kEnvoyFilterDataStatusContinue F"
    "kEnvoyFilterDataStatusStopIterationNoBuffer F \<noteq> kEnvoyFilterDataStatusStopIterationAndBuffer F"
    "kEnvoyFilterDataStatusResumeIteration F \<noteq> kEnvoyFilterDataStatusContinue F"
    "kEnvoyFilterDataStatusResumeIteration F \<noteq> kEnvoyFilterDataStatusStopIterationAndBuffer F"
    "kEnvoyFilterDataStatusResumeIteration F \<noteq> kEnvoyFilterDataStatusStopIterationNoBuffer F"
    "kEnvoyFilterTrailersStatusStopIteration F \<noteq> kEnvoyFilterTrailersStatusContinue F"
    "kEnvoyFilterTrailersStatusResumeIteration F \<noteq> kEnvoyFilterTrailersStatusContinue F"
    "kEnvoyFilterTrailersStatusResumeIteration F \<noteq> kEnvoyFilterTrailersStatusStopIteration F"
  using assms
  by (auto simp: filter_enums_laws_def kEnvoyFilterHeadersStatusStopIteration_def
      kEnvoyFilterHeadersStatusContinue_def kEnvoyFilterDataStatusStopIterationAndBuffer_def
      kEnvoyFilterDataStatusContinue_def kEnvoyFilterDataStatusStopIterationNoBuffer_def
      kEnvoyFilterDataStatusResumeIteration_def kEnvoyFilterTrailersStatusStopIteration_def
      kEnvoyFilterTrailersStatusContinue_def kEnvoyFilterTrailersStatusResumeIteration_def)

section \<open>Replacing headers\<close>

definition bridge_laws :: "('h, 'b) bridge_env \<Rightarrow> bool" where
  "bridge_laws E \<longleftrightarrow>
     header_map_laws (be_headers E) \<and> buffer_laws (be_buffers E) \<and> filter_enums_laws (be_enums E)"

lemma bridge_lawsD:
  assumes "bridge_laws E"
  shows "header_map_laws (be_headers E)" "buffer_laws (be_buffers E)" "filter_enums_laws (be_enums E)"
  using assms by (simp_all add: bridge_laws_def)

lemma replaceHeaders_owned:
  assumes laws: "header_map_laws (be_headers E)" and own: "owned_headers m c kvs fp"
    and d: "distinct (map fst (lowered kvs))"
  obtains h' m' where "replaceHeaders E m h c = Inr (h', m')"
    "mset (hm_iterate (be_headers E) h') = mset (lowered kvs)"
    "m' = drop_blocks m fp (pairs_size kvs + (if hs_headers c = NULL then 0 else sizeof_envoy_header * length kvs))"
proof (rule that)
  show "replaceHeaders E m h c = Inr (add_all (be_headers E) (strings_of_pairs kvs) (hm_clear (be_headers E) h),
      drop_blocks m fp (pairs_size kvs + (if hs_headers c = NULL then 0 else sizeof_envoy_header * length kvs)))"
    using addCopy_loop_owned [OF own] release_owned_headers [OF own] by (simp add: replaceHeaders_def)
qed (rule add_all_empty [OF laws header_map_lawsD(7) [OF laws] d], rule refl)

text \<open>\<open>owned_box m (q, c) kvs fp\<close>: the platform returned a heap-allocated struct at \<open>q\<close> that holds
  \<open>c\<close>, and \<open>c\<close> owns the blocks \<open>fp\<close> with contents \<open>kvs\<close>.\<close>

definition owned_box :: "memory \<Rightarrow> envoy_headers boxed \<Rightarrow> (byte list \<times> byte list) list \<Rightarrow> ptr set \<Rightarrow> bool" where
  "owned_box m boxed kvs fp \<longleftrightarrow>
     owned_headers m (snd boxed) kvs fp \<and> fst boxed \<noteq> NULL \<and> blocks m (fst boxed) \<noteq> None \<and> fst boxed \<notin> fp"

lemma replace_and_free_owned:
  assumes laws: "header_map_laws (be_headers E)" and h: "header_maps s i = Some h"
    and own: "owned_box (bmem s) boxed kvs fp" and d: "distinct (map fst (lowered kvs))"
  obtains t h' where "replace_and_free E s i boxed = Inr t" "quiet_change s t"
    "header_maps t = (header_maps s)(i \<mapsto> h')" "mset (hm_iterate (be_headers E) h') = mset (lowered kvs)"
    "blocks (bmem t) = (blocks (bmem s)) |` (- insert (fst boxed) fp)" "btrace t = btrace s"
    "bfragments t = bfragments s"
proof -
  have o: "owned_headers (bmem s) (snd boxed) kvs fp" "fst boxed \<noteq> NULL" "fst boxed \<notin> fp"
    using own by (auto simp: owned_box_def)
  obtain b where b: "blocks (bmem s) (fst boxed) = Some b"
    using own by (auto simp: owned_box_def)
  obtain h' m' where r: "replaceHeaders E (bmem s) h (snd boxed) = Inr (h', m')"
    "mset (hm_iterate (be_headers E) h') = mset (lowered kvs)"
    and m': "m' = drop_blocks (bmem s) fp (pairs_size kvs +
      (if hs_headers (snd boxed) = NULL then 0 else sizeof_envoy_header * length kvs))"
    using replaceHeaders_owned [OF laws o(1) d] by metis
  have f: "c_free m' (fst boxed) = Inr (m'\<lparr>blocks := (blocks m')(fst boxed := None),
      avail := avail m' + block_size b\<rparr>)"
    using o b by (simp add: c_free_def m')
  let ?m = "m'\<lparr>blocks := (blocks m')(fst boxed := None), avail := avail m' + block_size b\<rparr>"
  have "blocks ?m = (blocks (bmem s)) |` (- insert (fst boxed) fp)"
    by (auto simp: m' restrict_map_def)
  moreover have "replace_and_free E s i boxed = Inr (set_header_map (s\<lparr>bmem := ?m\<rparr>) i h')"
    using h r(1) f by (simp add: replace_and_free_def header_map_def)
  ultimately show ?thesis
    using that [of "set_header_map (s\<lparr>bmem := ?m\<rparr>) i h'" h'] r(2)
    by (simp add: quiet_change_def set_header_map_def)
qed

section \<open>Data\<close>

definition buffering :: "('h, 'b) bridge_env \<Rightarrow> ('h, 'b, 'p) bridge_filter \<Rightarrow> 'b option \<Rightarrow> bool" where
  "buffering E s ib \<longleftrightarrow> iteration_state s = Some Stopped \<and>
     (case ib of None \<Rightarrow> False | Some b \<Rightarrow> buf_length (be_buffers E) b > 0)"

definition bytes_of :: "('h, 'b) bridge_env \<Rightarrow> 'b option \<Rightarrow> byte list" where
  "bytes_of E ib = (case ib of None \<Rightarrow> [] | Some b \<Rightarrow> buffer_view (be_buffers E) b)"

text \<open>The bytes the platform is shown: everything buffered so far with the new data, if data is
  already buffered, and otherwise the new data.\<close>

definition shown :: "('h, 'b) bridge_env \<Rightarrow> ('h, 'b, 'p) bridge_filter \<Rightarrow> 'b option \<Rightarrow> 'b \<Rightarrow> byte list" where
  "shown E s ib data =
     (if buffering E s ib then bytes_of E ib @ buffer_view (be_buffers E) data
      else buffer_view (be_buffers E) data)"

definition after_move :: "('h, 'b) bridge_env \<Rightarrow> ('h, 'b, 'p) bridge_filter \<Rightarrow> 'b option \<Rightarrow> 'b \<Rightarrow> 'b option \<times> 'b" where
  "after_move E s ib data = (case ib of
     Some b \<Rightarrow> if buffering E s ib then (let (b', d') = buf_move (be_buffers E) b data in (Some b', d'))
       else (ib, data)
   | None \<Rightarrow> (None, data))"

lemma after_move_bytes:
  assumes "buffer_laws (be_buffers E)" "after_move E s ib data = (ib1, data1)"
  shows "bytes_of E ib1 @ buffer_view (be_buffers E) data1 = bytes_of E ib @ buffer_view (be_buffers E) data"
    and "buffering E s ib \<Longrightarrow> bytes_of E ib1 = shown E s ib data \<and> buffer_view (be_buffers E) data1 = []"
    and "\<not> buffering E s ib \<Longrightarrow> ib1 = ib \<and> data1 = data" "ib1 = None \<longleftrightarrow> ib = None"
  using assms(2) buffer_lawsD(4,5) [OF assms(1)]
  by (auto simp: after_move_def bytes_of_def shown_def buffering_def split_beta split: option.splits if_splits)

text \<open>The reaction of \<open>onData\<close> to the platform's answer.\<close>

definition react_to_data ::
  "('h, 'b) bridge_env \<Rightarrow> ('h, 'b, 'p) bridge_filter \<Rightarrow> bool \<Rightarrow> 'b option \<Rightarrow> 'b \<Rightarrow> hid option \<Rightarrow>
   envoy_filter_data_status \<Rightarrow>
   abort + FilterDataStatus \<times> 'b \<times> 'b option \<times> hid option \<times> ('h, 'b, 'p) bridge_filter" where
  "react_to_data E s1 already internal1 data1 ph result =
     (if fd_status result = kEnvoyFilterDataStatusContinue (be_enums E)
      then bindE (RELEASE_ASSERT (iteration_state s1 \<noteq> Some Stopped)
             ''invalid filter state: filter iteration must be resumed with ResumeIteration'') (\<lambda>_.
           bindE (add_fragment E s1 (drain_all E data1) (fd_data result)) (\<lambda>(data2, s2).
           Inr (DataContinue, data2, internal1, ph, s2)))
      else if fd_status result = kEnvoyFilterDataStatusStopIterationAndBuffer (be_enums E)
      then (if already then Inr (DataStopIterationNoBuffer, data1, internal1, ph, s1)
            else Inr (DataStopIterationAndBuffer, data1, internal1, ph, s1\<lparr>iteration_state := Some Stopped\<rparr>))
      else if fd_status result = kEnvoyFilterDataStatusStopIterationNoBuffer (be_enums E)
      then Inr (DataStopIterationNoBuffer, data1, map_option (drain_all E) internal1, ph,
             s1\<lparr>iteration_state := Some Stopped\<rparr>)
      else if fd_status result = kEnvoyFilterDataStatusResumeIteration (be_enums E)
      then bindE (RELEASE_ASSERT (iteration_state s1 = Some Stopped)
             ''invalid filter state: ResumeIteration may only be used when filter iteration is stopped'') (\<lambda>_.
           bindE (take_pending_headers E s1 ph (fd_pending_headers result)) (\<lambda>(ph', s2).
           case internal1 of
             Some ib \<Rightarrow> bindE (add_fragment E s2 (drain_all E ib) (fd_data result)) (\<lambda>(ib', s3).
               Inr (DataContinue, data1, Some ib', ph', s3\<lparr>iteration_state := Some Ongoing\<rparr>))
           | None \<Rightarrow> bindE (add_fragment E s2 (drain_all E data1) (fd_data result)) (\<lambda>(data2, s3).
               Inr (DataContinue, data2, None, ph', s3\<lparr>iteration_state := Some Ongoing\<rparr>))))
      else Inl unsupported_status)"

text \<open>The platform is asked: it is handed a fresh copy of the bytes of \<open>shown\<close>, and its answer is
  \<open>r\<close>, with its state and the heap after the call.\<close>

definition presented :: "('h, 'b) bridge_env \<Rightarrow> ('h, 'b, 'p) bridge_filter \<Rightarrow> 'b option \<Rightarrow> 'b \<Rightarrow> 'b" where
  "presented E s ib data = (case ib of
     Some b \<Rightarrow> if buffering E s ib then fst (buf_move (be_buffers E) b data) else data
   | None \<Rightarrow> data)"

definition asks ::
  "('h, 'b) bridge_env \<Rightarrow> ('h, 'b, 'p) bridge_filter \<Rightarrow> 'b option \<Rightarrow> 'b \<Rightarrow> bool \<Rightarrow> 'p on_data_f option \<Rightarrow>
   envoy_filter_data_status \<Rightarrow> 'p \<Rightarrow> memory \<Rightarrow> bool" where
  "asks E s ib data es fn r p' m2 \<longleftrightarrow> (case fn of None \<Rightarrow> False | Some f \<Rightarrow>
     (case copyToBridgeData (be_buffers E) (bmem s) (presented E s ib data) of
        Inl a \<Rightarrow> False
      | Inr (in_data, m1) \<Rightarrow>
          f in_data es (instance_context (platform_filter s)) (platform s, m1) = (r, p', m2)))"

lemma presented_view:
  "buffer_laws (be_buffers E) \<Longrightarrow> buffer_view (be_buffers E) (presented E s ib data) = shown E s ib data"
  using buffer_lawsD(4)
  by (auto simp: presented_def shown_def bytes_of_def buffering_def split: option.splits)

lemma asks_ex:
  assumes "wf_memory (bmem s)" "buffer_laws (be_buffers E)" "length (shown E s ib data) \<le> avail (bmem s)"
  shows "\<exists>in_data m1. copyToBridgeData (be_buffers E) (bmem s) (presented E s ib data) = Inr (in_data, m1) \<and>
    allocates_data (bmem s) in_data (shown E s ib data) m1"
  using copyb.conv_succeeds [OF assms(1), of "(be_buffers E, presented E s ib data)"] assms(2,3)
    presented_view [OF assms(2), of s ib data] by auto

lemma onData_react:
  assumes ask: "asks E s ib data es fn r p' m2" and st: "iteration_state s = Some st"
    and laws: "buffer_laws (be_buffers E)" and mv: "after_move E s ib data = (ib1, data1)"
  shows "onData E s data es ib ph fn =
    react_to_data E (s\<lparr>platform := p', bmem := m2\<rparr>) (buffering E s ib) ib1 data1 ph r"
proof -
  from ask obtain f in_data m1 where fn: "fn = Some f"
    and c: "copyToBridgeData (be_buffers E) (bmem s) (presented E s ib data) = Inr (in_data, m1)"
    and f: "f in_data es (instance_context (platform_filter s)) (platform s, m1) = (r, p', m2)"
    by (auto simp: asks_def split: option.splits sum.splits)
  show ?thesis
  proof (cases "buffering E s ib")
    case True
    then obtain b where b: "ib = Some b" "buf_length (be_buffers E) b > 0" "st = Stopped"
      using st by (auto simp: buffering_def split: option.splits)
    then have "ib1 = Some (fst (buf_move (be_buffers E) b data))" "data1 = snd (buf_move (be_buffers E) b data)"
      using mv True by (simp_all add: after_move_def split_beta)
    then show ?thesis
      using b c f st True
      by (simp add: fn onData_def react_to_data_def read_iteration_state_def presented_def split_beta Let_def)
  next
    case False
    then have mv': "ib1 = ib" "data1 = data" using after_move_bytes(3) [OF laws mv] by simp_all
    have al: "\<not> (st = Stopped \<and> 0 < buf_length (be_buffers E) b)" if "ib = Some b" for b
      using False st that by (auto simp: buffering_def)
    show ?thesis
    proof (cases ib)
      case None
      then show ?thesis
        using c f st False
        by (simp add: fn onData_def react_to_data_def read_iteration_state_def Let_def presented_def mv')
    next
      case (Some b)
      then show ?thesis
        using c f st False al [OF Some]
        by (simp add: fn onData_def react_to_data_def read_iteration_state_def Let_def presented_def mv'
            del: de_Morgan_conj)
    qed
  qed
qed

lemma react_agrees:
  assumes "react_to_data E s1 al ib d ph r = Inr (status, d', ib', ph', t)" "iteration_state s1 = Some st"
    and "al \<Longrightarrow> st = Stopped"
  shows "iteration_state t = Some (if status = DataContinue then Ongoing else Stopped)"
proof -
  have og: "st = Ongoing" if "st \<noteq> Stopped" using that by (cases st) auto
  show ?thesis
    using assms og
    by (auto simp: react_to_data_def quiet_change_def dest!: add_fragment_quiet
        split: if_splits option.splits)
qed

lemma react_misuse:
  assumes F: "filter_enums_laws (be_enums E)" and st: "iteration_state s1 = Some st"
  shows "fd_status r = kEnvoyFilterDataStatusContinue (be_enums E) \<Longrightarrow> st = Stopped \<Longrightarrow>
      \<exists>msg. react_to_data E s1 al ib d ph r = Inl (ReleaseAssertFailure msg)"
    and "fd_status r = kEnvoyFilterDataStatusResumeIteration (be_enums E) \<Longrightarrow> st = Ongoing \<Longrightarrow>
      \<exists>msg. react_to_data E s1 al ib d ph r = Inl (ReleaseAssertFailure msg)"
    and "fd_status r \<notin> {kEnvoyFilterDataStatusContinue (be_enums E), kEnvoyFilterDataStatusResumeIteration (be_enums E),
        kEnvoyFilterDataStatusStopIterationAndBuffer (be_enums E),
        kEnvoyFilterDataStatusStopIterationNoBuffer (be_enums E)} \<Longrightarrow>
      react_to_data E s1 al ib d ph r = Inl unsupported_status"
  using st filter_enums_distinct [OF F] by (auto simp: react_to_data_def RELEASE_ASSERT_def)

lemma drain_all_view [simp]:
  "buffer_laws (be_buffers E) \<Longrightarrow> buffer_view (be_buffers E) (drain_all E b) = []"
  by (simp add: drain_all_def buffer_lawsD(3) buf_length_view)

lemma add_fragment_holds:
  assumes "buffer_laws (be_buffers E)" "holds (bmem s) d bs"
  shows "\<exists>b'. add_fragment E s b d = Inr (b', s\<lparr>bfragments := bfragments s @ [createBridgeFragment d]\<rparr>) \<and>
    buffer_view (be_buffers E) b' = buffer_view (be_buffers E) b @ bs"
  using holds_view [OF assms(2)] buffer_lawsD(6) [OF assms(1)]
  by (simp add: add_fragment_def addFragment_def data_view_def createBridgeFragment_def
      fragment_data_def fragment_size_def)

lemma react_stop:
  assumes F: "filter_enums_laws (be_enums E)" and laws: "buffer_laws (be_buffers E)"
    and st: "iteration_state s1 = Some st" and al: "al \<longrightarrow> st = Stopped"
  shows "fd_status r = kEnvoyFilterDataStatusStopIterationAndBuffer (be_enums E) \<Longrightarrow>
      \<exists>t. react_to_data E s1 al ib d ph r =
        Inr (if al then DataStopIterationNoBuffer else DataStopIterationAndBuffer, d, ib, ph, t) \<and>
        iteration_state t = Some Stopped"
    and "fd_status r = kEnvoyFilterDataStatusStopIterationNoBuffer (be_enums E) \<Longrightarrow>
      \<exists>t ib'. react_to_data E s1 al ib d ph r = Inr (DataStopIterationNoBuffer, d, ib', ph, t) \<and>
        bytes_of E ib' = [] \<and> iteration_state t = Some Stopped"
  using st filter_enums_distinct [OF F] al drain_all_view [OF laws]
  by (auto simp: react_to_data_def bytes_of_def split: option.splits)

lemma react_continue:
  assumes F: "filter_enums_laws (be_enums E)" and laws: "buffer_laws (be_buffers E)"
    and st: "iteration_state s1 = Some Ongoing" and h: "holds (bmem s1) (fd_data r) bs"
    and c: "fd_status r = kEnvoyFilterDataStatusContinue (be_enums E)"
  shows "\<exists>d' t. react_to_data E s1 al ib d ph r = Inr (DataContinue, d', ib, ph, t) \<and>
    buffer_view (be_buffers E) d' = bs \<and> iteration_state t = Some Ongoing \<and>
    bfragments t = bfragments s1 @ [createBridgeFragment (fd_data r)]"
  using c st add_fragment_holds [OF laws h, of "drain_all E d"] laws
  by (auto simp: react_to_data_def)

text \<open>Resumption: pending headers that the platform returned have replaced the pending header map,
  and the body is the one it returned.\<close>

lemma react_resume:
  assumes L: "bridge_laws E" and st: "iteration_state s1 = Some Stopped"
    and c: "fd_status r = kEnvoyFilterDataStatusResumeIteration (be_enums E)"
    and ph: "ph = Some i" "header_maps s1 i = Some h" and box: "fd_pending_headers r = Some box"
      "owned_box (bmem s1) box kvs fp" "distinct (map fst (lowered kvs))"
    and h: "holds (bmem s1) (fd_data r) bs" "set (data_ptrs (fd_data r)) \<inter> insert (fst box) fp = {}"
  shows "\<exists>d' ib' t h'. react_to_data E s1 al ib d ph r = Inr (DataContinue, d', ib', None, t) \<and>
    (if ib = None then ib' = None \<and> buffer_view (be_buffers E) d' = bs else d' = d \<and> bytes_of E ib' = bs) \<and>
    iteration_state t = Some Ongoing \<and> header_maps t = (header_maps s1)(i \<mapsto> h') \<and>
    mset (hm_iterate (be_headers E) h') = mset (lowered kvs) \<and>
    blocks (bmem t) = (blocks (bmem s1)) |` (- insert (fst box) fp)"
proof -
  note laws = bridge_lawsD [OF L]
  obtain s2 h' where s2: "replace_and_free E s1 i box = Inr s2" "quiet_change s1 s2"
    "header_maps s2 = (header_maps s1)(i \<mapsto> h')" "mset (hm_iterate (be_headers E) h') = mset (lowered kvs)"
    "blocks (bmem s2) = (blocks (bmem s1)) |` (- insert (fst box) fp)"
    using replace_and_free_owned [OF laws(1) ph(2) box(2,3)] by metis
  have "blocks (bmem s1) q = blocks (bmem s2) q" if "q \<in> set (data_ptrs (fd_data r))" for q
    using that h(2) s2(5) by (auto simp: restrict_map_def)
  then have "holds (bmem s2) (fd_data r) bs"
    using h(1) holds_cong [of "fd_data r" "bmem s1" "bmem s2" bs] by simp
  note af = add_fragment_holds [OF laws(2) this]
  have tp: "take_pending_headers E s1 ph (fd_pending_headers r) = Inr (None, s2)"
    by (simp add: take_pending_headers_def ph(1) box(1) s2(1))
  show ?thesis
  proof (cases ib)
    case None
    then show ?thesis
      using af [of "drain_all E d"] laws st s2 tp c filter_enums_distinct [OF laws(3)]
      by (auto simp: react_to_data_def)
  next
    case (Some b)
    then show ?thesis
      using af [of "drain_all E b"] laws st s2 tp c filter_enums_distinct [OF laws(3)]
      by (auto simp: react_to_data_def bytes_of_def)
  qed
qed

section \<open>The two directions\<close>

text \<open>What \<open>decodeData\<close> and \<open>encodeData\<close> have in common: they run \<open>onData\<close> on the buffer, the pending
  header map and the platform function of their direction and store the results.\<close>

locale bridge_direction =
  fixes data_op :: "('h, 'b) bridge_env \<Rightarrow> ('h, 'b, 'p) bridge_filter \<Rightarrow> 'b \<Rightarrow> bool \<Rightarrow>
      abort + FilterDataStatus \<times> 'b \<times> ('h, 'b, 'p) bridge_filter"
    and buffer :: "('h, 'b, 'p) bridge_filter \<Rightarrow> 'b option"
    and pending :: "('h, 'b, 'p) bridge_filter \<Rightarrow> hid option"
    and data_fn :: "'p envoy_http_filter \<Rightarrow> 'p on_data_f option"
    and finish :: "bool \<Rightarrow> 'b option \<Rightarrow> hid option \<Rightarrow> ('h, 'b, 'p) bridge_filter \<Rightarrow> ('h, 'b, 'p) bridge_filter"
  assumes data_op: "data_op E s data es =
      bindE (onData E s data es (buffer s) (pending s) (data_fn (platform_filter s)))
        (\<lambda>(status, data', ib', ph', s1). Inr (status, data', finish es ib' ph' s1))"
    and finish: "buffer (finish es ib ph s1) = ib" "pending (finish es ib ph s1) = ph"
      "iteration_state (finish es ib ph s1) = iteration_state s1" "bmem (finish es ib ph s1) = bmem s1"
      "header_maps (finish es ib ph s1) = header_maps s1" "bfragments (finish es ib ph s1) = bfragments s1"
begin

lemma outcome:
  assumes "asks E s (buffer s) data es (data_fn (platform_filter s)) r p' m2" "iteration_state s = Some st"
    and "buffer_laws (be_buffers E)" "after_move E s (buffer s) data = (ib1, data1)"
  shows "data_op E s data es =
    bindE (react_to_data E (s\<lparr>platform := p', bmem := m2\<rparr>) (buffering E s (buffer s)) ib1 data1 (pending s) r)
      (\<lambda>(status, data', ib', ph', s1). Inr (status, data', finish es ib' ph' s1))"
  by (simp add: data_op onData_react [OF assms])

lemma misuse:
  assumes ask: "asks E s (buffer s) data es (data_fn (platform_filter s)) r p' m2"
    and st: "iteration_state s = Some st" and L: "bridge_laws E"
  shows "fd_status r = kEnvoyFilterDataStatusContinue (be_enums E) \<and> st = Stopped \<or>
      fd_status r = kEnvoyFilterDataStatusResumeIteration (be_enums E) \<and> st = Ongoing \<Longrightarrow>
      \<exists>msg. data_op E s data es = Inl (ReleaseAssertFailure msg)"
    and "fd_status r \<notin> {kEnvoyFilterDataStatusContinue (be_enums E), kEnvoyFilterDataStatusResumeIteration (be_enums E),
        kEnvoyFilterDataStatusStopIterationAndBuffer (be_enums E),
        kEnvoyFilterDataStatusStopIterationNoBuffer (be_enums E)} \<Longrightarrow>
      data_op E s data es = Inl unsupported_status"
proof -
  obtain ib1 data1 where mv: "after_move E s (buffer s) data = (ib1, data1)" by (cases "after_move E s (buffer s) data")
  note o = outcome [OF ask st bridge_lawsD(2) [OF L] mv]
  let ?s1 = "s\<lparr>platform := p', bmem := m2\<rparr>"
  have st1: "iteration_state ?s1 = Some st" using st by simp
  note m = react_misuse [OF bridge_lawsD(3) [OF L] st1]
  show "\<exists>msg. data_op E s data es = Inl (ReleaseAssertFailure msg)"
    if "fd_status r = kEnvoyFilterDataStatusContinue (be_enums E) \<and> st = Stopped \<or>
      fd_status r = kEnvoyFilterDataStatusResumeIteration (be_enums E) \<and> st = Ongoing"
    using that m(1,2) [of r "buffering E s (buffer s)" ib1 data1 "pending s"] o by auto
  show "data_op E s data es = Inl unsupported_status"
    if "fd_status r \<notin> {kEnvoyFilterDataStatusContinue (be_enums E), kEnvoyFilterDataStatusResumeIteration (be_enums E),
        kEnvoyFilterDataStatusStopIterationAndBuffer (be_enums E),
        kEnvoyFilterDataStatusStopIterationNoBuffer (be_enums E)}"
    using m(3) [OF that] o by simp
qed

lemma stop:
  assumes ask: "asks E s (buffer s) data es (data_fn (platform_filter s)) r p' m2"
    and st: "iteration_state s = Some st" and L: "bridge_laws E"
  shows "fd_status r = kEnvoyFilterDataStatusStopIterationAndBuffer (be_enums E) \<Longrightarrow>
      \<exists>data' t. data_op E s data es = Inr (if buffering E s (buffer s) then DataStopIterationNoBuffer
          else DataStopIterationAndBuffer, data', t) \<and> iteration_state t = Some Stopped \<and>
        bytes_of E (buffer t) @ buffer_view (be_buffers E) data' =
          bytes_of E (buffer s) @ buffer_view (be_buffers E) data \<and>
        (buffering E s (buffer s) \<longrightarrow> buffer_view (be_buffers E) data' = [])"
    and "fd_status r = kEnvoyFilterDataStatusStopIterationNoBuffer (be_enums E) \<Longrightarrow>
      \<exists>data' t. data_op E s data es = Inr (DataStopIterationNoBuffer, data', t) \<and>
        iteration_state t = Some Stopped \<and> bytes_of E (buffer t) = []"
proof -
  obtain ib1 data1 where mv: "after_move E s (buffer s) data = (ib1, data1)" by (cases "after_move E s (buffer s) data")
  note o = outcome [OF ask st bridge_lawsD(2) [OF L] mv] and mb = after_move_bytes [OF bridge_lawsD(2) [OF L] mv]
  have "iteration_state (s\<lparr>platform := p', bmem := m2\<rparr>) = Some st" "buffering E s (buffer s) \<longrightarrow> st = Stopped"
    using st by (auto simp: buffering_def)
  note m = react_stop [OF bridge_lawsD(3,2) [OF L] this]
  show "\<exists>data' t. data_op E s data es = Inr (if buffering E s (buffer s) then DataStopIterationNoBuffer
          else DataStopIterationAndBuffer, data', t) \<and> iteration_state t = Some Stopped \<and>
        bytes_of E (buffer t) @ buffer_view (be_buffers E) data' =
          bytes_of E (buffer s) @ buffer_view (be_buffers E) data \<and>
        (buffering E s (buffer s) \<longrightarrow> buffer_view (be_buffers E) data' = [])"
    if "fd_status r = kEnvoyFilterDataStatusStopIterationAndBuffer (be_enums E)"
    using m(1) [OF that, of ib1 data1 "pending s"] o mb(1,2) by (auto simp: finish)
  show "\<exists>data' t. data_op E s data es = Inr (DataStopIterationNoBuffer, data', t) \<and>
        iteration_state t = Some Stopped \<and> bytes_of E (buffer t) = []"
    if "fd_status r = kEnvoyFilterDataStatusStopIterationNoBuffer (be_enums E)"
    using m(2) [OF that, of ib1 data1 "pending s"] o by (auto simp: finish)
qed

lemma continues:
  assumes ask: "asks E s (buffer s) data es (data_fn (platform_filter s)) r p' m2"
    and st: "iteration_state s = Some Ongoing" and L: "bridge_laws E"
    and c: "fd_status r = kEnvoyFilterDataStatusContinue (be_enums E)" and h: "holds m2 (fd_data r) bs"
  shows "\<exists>data' t. data_op E s data es = Inr (DataContinue, data', t) \<and>
    buffer_view (be_buffers E) data' = bs \<and> buffer t = buffer s \<and> iteration_state t = Some Ongoing \<and>
    bfragments t = bfragments s @ [createBridgeFragment (fd_data r)]"
proof -
  have nb: "\<not> buffering E s (buffer s)" using st by (simp add: buffering_def)
  obtain ib1 data1 where mv: "after_move E s (buffer s) data = (ib1, data1)" by (cases "after_move E s (buffer s) data")
  note o = outcome [OF ask st bridge_lawsD(2) [OF L] mv] and mb = after_move_bytes(3) [OF bridge_lawsD(2) [OF L] mv nb]
  have "iteration_state (s\<lparr>platform := p', bmem := m2\<rparr>) = Some Ongoing"
    "holds (bmem (s\<lparr>platform := p', bmem := m2\<rparr>)) (fd_data r) bs"
    using st h by simp_all
  from react_continue [OF bridge_lawsD(3,2) [OF L] this c, of "buffering E s (buffer s)" ib1 data1 "pending s"]
  show ?thesis using o mb by (auto simp: finish)
qed

lemma resumes:
  assumes ask: "asks E s (buffer s) data es (data_fn (platform_filter s)) r p' m2"
    and st: "iteration_state s = Some Stopped" and L: "bridge_laws E"
    and c: "fd_status r = kEnvoyFilterDataStatusResumeIteration (be_enums E)"
    and ph: "pending s = Some i" "header_maps s i = Some h" and box: "fd_pending_headers r = Some box"
      "owned_box m2 box kvs fp" "distinct (map fst (lowered kvs))"
    and h: "holds m2 (fd_data r) bs" "set (data_ptrs (fd_data r)) \<inter> insert (fst box) fp = {}"
  shows "\<exists>data' t h'. data_op E s data es = Inr (DataContinue, data', t) \<and>
    (if buffer s = None then buffer t = None \<and> buffer_view (be_buffers E) data' = bs
     else bytes_of E (buffer t) = bs) \<and>
    iteration_state t = Some Ongoing \<and> pending t = None \<and> header_maps t = (header_maps s)(i \<mapsto> h') \<and>
    mset (hm_iterate (be_headers E) h') = mset (lowered kvs) \<and>
    blocks (bmem t) = (blocks m2) |` (- insert (fst box) fp)"
proof -
  obtain ib1 data1 where mv: "after_move E s (buffer s) data = (ib1, data1)" by (cases "after_move E s (buffer s) data")
  note o = outcome [OF ask st bridge_lawsD(2) [OF L] mv] and mb = after_move_bytes(4) [OF bridge_lawsD(2) [OF L] mv]
  let ?s1 = "s\<lparr>platform := p', bmem := m2\<rparr>"
  have "iteration_state ?s1 = Some Stopped" "header_maps ?s1 i = Some h" "owned_box (bmem ?s1) box kvs fp"
    "holds (bmem ?s1) (fd_data r) bs"
    using st ph box h by simp_all
  from react_resume [OF L this(1) c ph(1) this(2) box(1) this(3) box(3) this(4) h(2),
      of "buffering E s (buffer s)" ib1 data1]
  show ?thesis using o mb by (cases "buffer s = None") (auto simp: finish)
qed

end

interpretation requestd: bridge_direction decodeData decoding_buffer pending_request_headers on_request_data
  "\<lambda>es ib ph s. s\<lparr>decoding_buffer := ib, pending_request_headers := ph, request_complete := es\<rparr>"
  by unfold_locales (simp_all add: decodeData_def)

interpretation responsed: bridge_direction encodeData encoding_buffer pending_response_headers on_response_data
  "\<lambda>es ib ph s. s\<lparr>encoding_buffer := ib, pending_response_headers := ph, response_complete := es\<rparr>"
  by unfold_locales (simp_all add: encodeData_def)

text \<open>A platform filter for the witnesses: it answers every data frame with a fixed status and data,
  and returns the pending headers it is told to.\<close>

definition sample_enums :: filter_enums where
  "sample_enums = \<lparr>FilterHeadersStatus_Continue = 0, FilterHeadersStatus_StopIteration = 1,
     FilterHeadersStatus_StopAllIterationAndBuffer = 3, FilterDataStatus_Continue = 0,
     FilterDataStatus_StopIterationAndBuffer = 1, FilterDataStatus_StopIterationNoBuffer = 3,
     FilterTrailersStatus_Continue = 0, FilterTrailersStatus_StopIteration = 1\<rparr>"

definition sample_env :: "(list_headers, byte list) bridge_env" where
  "sample_env = \<lparr>be_headers = list_header_map, be_buffers = list_buffer, be_enums = sample_enums, be_asserts = True\<rparr>"

lemma sample_env_laws: "bridge_laws sample_env"
  by (simp add: bridge_laws_def sample_env_def list_header_map_laws list_buffer_laws filter_enums_laws_def
      sample_enums_def)

lemmas sample_status_defs =
  sample_env_def sample_enums_def kEnvoyFilterDataStatusContinue_def kEnvoyFilterDataStatusResumeIteration_def
  kEnvoyFilterDataStatusStopIterationAndBuffer_def kEnvoyFilterDataStatusStopIterationNoBuffer_def

definition fixed_answer :: "envoy_filter_data_status \<Rightarrow> unit on_data_f" where
  "fixed_answer r = (\<lambda>d es ctx (p, m). (r, p, m))"

definition sample_data :: envoy_data where
  "sample_data = \<lparr>ed_length = 1, ed_bytes = 4, ed_release = free_release, ed_context = 4\<rparr>"

text \<open>The heap of a platform that returns one header \<open>a: bc\<close> in a struct at address 5, and one byte
  of data at address 4.\<close>

definition bridge_memory :: memory where
  "bridge_memory = sample_memory\<lparr>blocks := (blocks sample_memory)(4 \<mapsto> ByteBlock [Some 122],
     5 \<mapsto> ByteBlock (replicate 16 None)), next_ptr := 6\<rparr>"

definition sample_filter ::
  "envoy_filter_data_status \<Rightarrow> IterationState \<Rightarrow> byte list option \<Rightarrow> (list_headers, byte list, unit) bridge_filter" where
  "sample_filter r st ib = (initial_filter ''f'' (empty_http_filter\<lparr>on_request_data := Some (fixed_answer r),
       on_response_data := Some (fixed_answer r)\<rparr>) () bridge_memory)
     \<lparr>iteration_state := Some st, decoding_buffer := ib, encoding_buffer := ib, pending_request_headers := Some 0,
      pending_response_headers := Some 0, header_maps := [0 \<mapsto> [(''old'', ''x'')]], owned := True\<rparr>"

definition answer :: "int \<Rightarrow> envoy_filter_data_status" where
  "answer status = \<lparr>fd_status = status, fd_data = sample_data, fd_pending_headers = Some (5, sample_headers)\<rparr>"

lemma sample_asks:
  assumes "length (shown sample_env (sample_filter r st ib) ib data) \<le> 1000"
  shows "\<exists>m2. asks sample_env (sample_filter r st ib) ib data es (Some (fixed_answer r)) r () m2 \<and>
    allocates_data bridge_memory (fst (projr (copyToBridgeData list_buffer bridge_memory
      (presented sample_env (sample_filter r st ib) ib data)))) (shown sample_env (sample_filter r st ib) ib data) m2"
proof -
  have wf: "wf_memory (bmem (sample_filter r st ib))"
    by (auto simp: wf_memory_def sample_filter_def initial_filter_def bridge_memory_def sample_memory_def
        split: if_splits)
  have "avail (bmem (sample_filter r st ib)) = 1000" "be_buffers sample_env = list_buffer"
    "bmem (sample_filter r st ib) = bridge_memory"
    by (simp_all add: sample_filter_def initial_filter_def bridge_memory_def sample_memory_def sample_env_def)
  with asks_ex [OF wf bridge_lawsD(2) [OF sample_env_laws], of ib data] assms show ?thesis
    by (auto simp: asks_def fixed_answer_def)
qed



text \<open>Stopping loses no data: on \<open>StopIterationAndBuffer\<close> the bytes in the filter manager's buffer
  followed by those left in the data frame are exactly the bytes that were there before, in order; if
  data was already buffered the frame has been moved into the buffer and the manager is told not to
  buffer it again, otherwise it is told to. On \<open>StopIterationNoBuffer\<close> the buffer is emptied. In both
  cases iteration is stopped.\<close>

theorem stopping_keeps_buffered_bytes:
  assumes "asks E s (decoding_buffer s) data es (on_request_data (platform_filter s)) r p' m2"
    and "asks E s (encoding_buffer s) data es (on_response_data (platform_filter s)) r q' m3"
    and "iteration_state s = Some st" "bridge_laws E"
  shows "(fd_status r = kEnvoyFilterDataStatusStopIterationAndBuffer (be_enums E) \<longrightarrow>
      (\<exists>data' t. decodeData E s data es = Inr (if buffering E s (decoding_buffer s) then DataStopIterationNoBuffer
          else DataStopIterationAndBuffer, data', t) \<and> iteration_state t = Some Stopped \<and>
        bytes_of E (decoding_buffer t) @ buffer_view (be_buffers E) data' =
          bytes_of E (decoding_buffer s) @ buffer_view (be_buffers E) data \<and>
        (buffering E s (decoding_buffer s) \<longrightarrow> buffer_view (be_buffers E) data' = [])) \<and>
      (\<exists>data' t. encodeData E s data es = Inr (if buffering E s (encoding_buffer s) then DataStopIterationNoBuffer
          else DataStopIterationAndBuffer, data', t) \<and> iteration_state t = Some Stopped \<and>
        bytes_of E (encoding_buffer t) @ buffer_view (be_buffers E) data' =
          bytes_of E (encoding_buffer s) @ buffer_view (be_buffers E) data \<and>
        (buffering E s (encoding_buffer s) \<longrightarrow> buffer_view (be_buffers E) data' = []))) \<and>
    (fd_status r = kEnvoyFilterDataStatusStopIterationNoBuffer (be_enums E) \<longrightarrow>
      (\<exists>data' t. decodeData E s data es = Inr (DataStopIterationNoBuffer, data', t) \<and>
        iteration_state t = Some Stopped \<and> bytes_of E (decoding_buffer t) = []) \<and>
      (\<exists>data' t. encodeData E s data es = Inr (DataStopIterationNoBuffer, data', t) \<and>
        iteration_state t = Some Stopped \<and> bytes_of E (encoding_buffer t) = []))"
  using requestd.stop [OF assms(1,3,4)] responsed.stop [OF assms(2,3,4)] by blast

theorem stopping_keeps_buffered_bytes_witness:
  "\<exists>data' t. decodeData sample_env (sample_filter (answer 1) Stopped (Some [7, 8])) [9] False =
      Inr (DataStopIterationNoBuffer, data', t) \<and> bytes_of sample_env (decoding_buffer t) = [7, 8, 9]"
proof -
  let ?s = "sample_filter (answer 1) Stopped (Some [7, 8])"
  have b: "buffering sample_env ?s (Some [7, 8])"
    by (simp add: buffering_def sample_env_def sample_filter_def initial_filter_def list_buffer_def)
  have v: "buffer_view (be_buffers sample_env) x = x" for x
    by (simp add: sample_env_def buffer_view_def list_buffer_def)
  have "length (shown sample_env ?s (Some [7, 8]) [9]) \<le> 1000"
    by (simp add: shown_def b bytes_of_def v)
  then obtain m2 where a: "asks sample_env ?s (Some [7, 8]) [9] False (Some (fixed_answer (answer 1))) (answer 1) () m2"
    using sample_asks by blast
  have s: "iteration_state ?s = Some Stopped" "decoding_buffer ?s = Some [7, 8]" "encoding_buffer ?s = Some [7, 8]"
    "on_request_data (platform_filter ?s) = Some (fixed_answer (answer 1))"
    "on_response_data (platform_filter ?s) = Some (fixed_answer (answer 1))"
    by (simp_all add: sample_filter_def initial_filter_def)
  have c: "fd_status (answer 1) = kEnvoyFilterDataStatusStopIterationAndBuffer (be_enums sample_env)"
    by (simp add: answer_def sample_status_defs)
  from stopping_keeps_buffered_bytes [of sample_env ?s "[9]" False "answer 1" "()" m2 "()" m2 Stopped] a s b c
    sample_env_laws
  show ?thesis by (auto simp: v bytes_of_def)
qed


lemma sample_box_owned:
  assumes eq: "\<forall>q \<in> {1, 2, 3, 4, 5}. blocks m q = blocks bridge_memory q"
  shows "owned_box m (5, sample_headers) [([97], [98, 99])] {1, 2, 3}" "holds m sample_data [122]"
proof -
  have "blocks sample_memory q = blocks m q" if "q \<in> {1, 2, 3}" for q
  proof -
    have "q \<noteq> 4" "q \<noteq> 5" "q \<in> {1, 2, 3, 4, 5}" using that by auto
    then show ?thesis using bspec [OF eq, of q] by (simp add: bridge_memory_def)
  qed
  then have "owned_headers m sample_headers [([97], [98, 99])] {1, 2, 3}"
    by (rule owned_headers_cong [OF sample_headers_owned])
  moreover have "blocks m 5 = Some (ByteBlock (replicate 16 None))" "blocks m 4 = Some (ByteBlock [Some 122])"
    using bspec [OF eq, of 5] bspec [OF eq, of 4] by (simp_all add: bridge_memory_def)
  ultimately show "owned_box m (5, sample_headers) [([97], [98, 99])] {1, 2, 3}" "holds m sample_data [122]"
    by (simp_all add: owned_box_def holds_def sample_data_def)
qed


end
