(* ===== verification/PlatformBridgeLife.thy ===== *)
theory PlatformBridgeLife
  imports PlatformBridgeProps
begin

text \<open>
  The platform bridge filter over the life of a stream: headers, the agreement of the returned
  statuses with the iteration state, asynchronous resumption, construction and destruction of the
  platform filter's instance, and three behaviours of the code that its comments do not intend.
\<close>

section \<open>Returned statuses and the iteration state\<close>

lemma onData_agrees:
  assumes "onData E s data es ib ph (Some f) = Inr (status, data', ib', ph', t)"
  shows "iteration_state t = Some (if status = DataContinue then Ongoing else Stopped)"
proof -
  have og: "st = Ongoing \<longleftrightarrow> st \<noteq> Stopped" for st by (cases st) auto
  show ?thesis
    using assms
    by (auto simp: onData_def quiet_change_def split_beta Let_def og
        dest!: add_fragment_quiet take_pending_headers_quiet split: if_splits option.splits prod.splits)
qed

lemma onTrailers_agrees:
  assumes "onTrailers E s i ib ph (Some f) = Inr (status, ib', ph', t)"
  shows "iteration_state t = Some (if status = TrailersContinue then Ongoing else Stopped)"
proof -
  have og: "st = Ongoing \<longleftrightarrow> st \<noteq> Stopped" for st by (cases st) auto
  show ?thesis
    using assms by (auto simp: onTrailers_def split_beta Let_def og split: if_splits)
qed

text \<open>C30. In both directions, after a call that involves the platform, the filter told Envoy to
  continue with data or trailers exactly if its iteration state is ongoing, and to stop exactly if it
  is stopped: the filter manager and the filter never disagree on who has to resume.\<close>

theorem status_agrees_with_iteration_state:
  shows "(decodeData E s data es = Inr (ds, data', t) \<and> on_request_data (platform_filter s) \<noteq> None \<longrightarrow>
      iteration_state t = Some (if ds = DataContinue then Ongoing else Stopped)) \<and>
    (encodeData E s data es = Inr (ds, data', t) \<and> on_response_data (platform_filter s) \<noteq> None \<longrightarrow>
      iteration_state t = Some (if ds = DataContinue then Ongoing else Stopped)) \<and>
    (decodeTrailers E s i = Inr (ts, u) \<and> on_request_trailers (platform_filter s) \<noteq> None \<longrightarrow>
      iteration_state u = Some (if ts = TrailersContinue then Ongoing else Stopped)) \<and>
    (encodeTrailers E s i = Inr (ts, u) \<and> on_response_trailers (platform_filter s) \<noteq> None \<longrightarrow>
      iteration_state u = Some (if ts = TrailersContinue then Ongoing else Stopped))"
  by (auto simp: decodeData_def encodeData_def decodeTrailers_def encodeTrailers_def Let_def
      dest!: onData_agrees onTrailers_agrees split: if_splits)

theorem status_agrees_with_iteration_state_witness:
  "\<exists>ds data' t. decodeData sample_env (sample_filter (answer 1) Ongoing None) [9] False = Inr (ds, data', t) \<and>
     ds = DataStopIterationAndBuffer \<and> iteration_state t = Some Stopped"
proof -
  let ?s = "sample_filter (answer 1) Ongoing None"
  have b: "\<not> buffering sample_env ?s None" by (simp add: buffering_def)
  have v: "buffer_view (be_buffers sample_env) x = x" for x
    by (simp add: sample_env_def buffer_view_def list_buffer_def)
  have "length (shown sample_env ?s None [9]) \<le> 1000" by (simp add: shown_def b v)
  then obtain m2 where a: "asks sample_env ?s None [9] False (Some (fixed_answer (answer 1))) (answer 1) () m2"
    using sample_asks by blast
  have s: "iteration_state ?s = Some Ongoing" "decoding_buffer ?s = None"
    "on_request_data (platform_filter ?s) = Some (fixed_answer (answer 1))"
    by (simp_all add: sample_filter_def initial_filter_def)
  have "fd_status (answer 1) = kEnvoyFilterDataStatusStopIterationAndBuffer (be_enums sample_env)"
    by (simp add: answer_def sample_status_defs)
  from requestd.stop(1) [OF _ s(1) sample_env_laws this, of "[9]" False "()" m2] a s b
  obtain data' t where d: "decodeData sample_env ?s [9] False = Inr (DataStopIterationAndBuffer, data', t)"
    by auto
  with status_agrees_with_iteration_state [of sample_env ?s "[9]" False DataStopIterationAndBuffer data' t] s(3)
  show ?thesis by auto
qed

section \<open>Headers\<close>

text \<open>What an operation on headers does with the platform's answer; \<open>pend\<close> and \<open>complete\<close> read the
  pending header map and the end-of-stream flag of the direction.\<close>

definition headers_contract ::
  "('h, 'b) bridge_env \<Rightarrow> ('h, 'b, 'p) bridge_filter \<Rightarrow> hid \<Rightarrow> 'h \<Rightarrow> bool \<Rightarrow> 'p on_headers_f \<Rightarrow>
   (('h, 'b, 'p) bridge_filter \<Rightarrow> hid option) \<Rightarrow> (('h, 'b, 'p) bridge_filter \<Rightarrow> bool) \<Rightarrow>
   abort + FilterHeadersStatus \<times> ('h, 'b, 'p) bridge_filter \<Rightarrow> bool" where
  "headers_contract E s i h es f pend complete outcome \<longleftrightarrow>
     (\<exists>hs m1 r p' m2. allocates (bmem s) hs (pairs_of_strings (hm_iterate (be_headers E) h)) m1 \<and>
        f hs es (instance_context (platform_filter s)) (platform s, m1) = (r, p', m2) \<and>
        (if fh_status r = kEnvoyFilterHeadersStatusStopIteration (be_enums E)
         then \<exists>t. outcome = Inr (HeadersStopIteration, t) \<and> pend t = Some i \<and>
           iteration_state t = Some Stopped \<and> header_maps t = header_maps s \<and> complete t = es
         else if fh_status r = kEnvoyFilterHeadersStatusContinue (be_enums E)
         then \<forall>kvs fp. owned_headers m2 (fh_headers r) kvs fp \<longrightarrow> distinct (map fst (lowered kvs)) \<longrightarrow>
           (\<exists>t h'. outcome = Inr (HeadersContinue, t) \<and> header_maps t = (header_maps s)(i \<mapsto> h') \<and>
              mset (hm_iterate (be_headers E) h') = mset (lowered kvs) \<and> pend t = pend s \<and>
              iteration_state t = iteration_state s \<and> complete t = es \<and> blocks (bmem t) = (blocks m2) |` (- fp))
         else outcome = Inl unsupported_status))"

locale headers_direction =
  fixes headers_op :: "('h, 'b) bridge_env \<Rightarrow> ('h, 'b, 'p) bridge_filter \<Rightarrow> hid \<Rightarrow> bool \<Rightarrow>
      abort + FilterHeadersStatus \<times> ('h, 'b, 'p) bridge_filter"
    and headers_fn :: "'p envoy_http_filter \<Rightarrow> 'p on_headers_f option"
    and pend :: "('h, 'b, 'p) bridge_filter \<Rightarrow> hid option"
    and complete :: "('h, 'b, 'p) bridge_filter \<Rightarrow> bool"
    and finish :: "FilterHeadersStatus \<Rightarrow> hid \<Rightarrow> bool \<Rightarrow> ('h, 'b, 'p) bridge_filter \<Rightarrow> ('h, 'b, 'p) bridge_filter"
  assumes headers_op: "headers_op E s i es = bindE (onHeaders E s i es (headers_fn (platform_filter s)))
      (\<lambda>(status, s1). Inr (status, finish status i es s1))"
    and finish_stop: "pend (finish HeadersStopIteration i es s1) = Some i"
    and finish_continue: "pend (finish HeadersContinue i es s1) = pend s1"
    and finish: "complete (finish status i es s1) = es" "iteration_state (finish status i es s1) = iteration_state s1"
      "header_maps (finish status i es s1) = header_maps s1" "bmem (finish status i es s1) = bmem s1"
    and pend_frame: "pend (set_header_map (s1\<lparr>platform := p', bmem := m\<rparr>) i h) = pend s1"
begin

lemma bridged:
  assumes wf: "wf_memory (bmem s)" and L: "bridge_laws E" and h: "header_maps s i = Some h"
    and sz: "length (hm_iterate (be_headers E) h) < 2 ^ 31"
      "sizeof_envoy_header * length (hm_iterate (be_headers E) h) +
        pairs_size (pairs_of_strings (hm_iterate (be_headers E) h)) \<le> avail (bmem s)"
    and fn: "headers_fn (platform_filter s) = Some f"
  shows "headers_contract E s i h es f pend complete (headers_op E s i es)"
proof -
  note laws = bridge_lawsD [OF L]
  obtain hs m1 where c: "toBridgeHeaders (be_headers E) (bmem s) h = Inr (hs, m1)"
    and al: "allocates (bmem s) hs (pairs_of_strings (hm_iterate (be_headers E) h)) m1"
    using bridgeh.conv_succeeds [of "bmem s" "(be_headers E, h)" "pairs_of_strings (hm_iterate (be_headers E) h)"]
      wf laws(1) sz by auto
  obtain r p' m2 where r: "f hs es (instance_context (platform_filter s)) (platform s, m1) = (r, p', m2)"
    by (cases "f hs es (instance_context (platform_filter s)) (platform s, m1)") auto
  have op: "headers_op E s i es = bindE (
      if fh_status r = kEnvoyFilterHeadersStatusContinue (be_enums E)
      then bindE (replaceHeaders E m2 h (fh_headers r)) (\<lambda>(h', m3).
        Inr (HeadersContinue, set_header_map (s\<lparr>platform := p', bmem := m3\<rparr>) i h'))
      else if fh_status r = kEnvoyFilterHeadersStatusStopIteration (be_enums E)
      then Inr (HeadersStopIteration, s\<lparr>platform := p', bmem := m2, iteration_state := Some Stopped\<rparr>)
      else Inl unsupported_status) (\<lambda>(status, s1). Inr (status, finish status i es s1))"
    using h c r by (simp add: headers_op fn onHeaders_def header_map_def)
  have cont: "\<exists>t h'. headers_op E s i es = Inr (HeadersContinue, t) \<and> header_maps t = (header_maps s)(i \<mapsto> h') \<and>
      mset (hm_iterate (be_headers E) h') = mset (lowered kvs) \<and> pend t = pend s \<and>
      iteration_state t = iteration_state s \<and> complete t = es \<and> blocks (bmem t) = (blocks m2) |` (- fp)"
    if st: "fh_status r = kEnvoyFilterHeadersStatusContinue (be_enums E)"
      and own: "owned_headers m2 (fh_headers r) kvs fp" "distinct (map fst (lowered kvs))" for kvs fp
  proof -
    obtain h' m3 where rp: "replaceHeaders E m2 h (fh_headers r) = Inr (h', m3)"
      "mset (hm_iterate (be_headers E) h') = mset (lowered kvs)"
      "m3 = drop_blocks m2 fp (pairs_size kvs +
        (if hs_headers (fh_headers r) = NULL then 0 else sizeof_envoy_header * length kvs))"
      using replaceHeaders_owned [OF laws(1) own, of h] .
    let ?t = "finish HeadersContinue i es (set_header_map (s\<lparr>platform := p', bmem := m3\<rparr>) i h')"
    have "headers_op E s i es = Inr (HeadersContinue, ?t)"
      using st rp(1) by (simp add: op)
    moreover have "blocks m3 = (blocks m2) |` (- fp)" using rp(3) by (simp add: drop_blocks_def)
    ultimately show ?thesis
      using rp(2) by (intro exI [of _ ?t] exI [of _ h']) (simp add: finish finish_continue pend_frame)
  qed
  show ?thesis
    unfolding headers_contract_def
  proof (intro exI conjI)
    show "allocates (bmem s) hs (pairs_of_strings (hm_iterate (be_headers E) h)) m1" by (rule al)
    show "f hs es (instance_context (platform_filter s)) (platform s, m1) = (r, p', m2)" by (rule r)
    show "if fh_status r = kEnvoyFilterHeadersStatusStopIteration (be_enums E)
         then \<exists>t. headers_op E s i es = Inr (HeadersStopIteration, t) \<and> pend t = Some i \<and>
           iteration_state t = Some Stopped \<and> header_maps t = header_maps s \<and> complete t = es
         else if fh_status r = kEnvoyFilterHeadersStatusContinue (be_enums E)
         then \<forall>kvs fp. owned_headers m2 (fh_headers r) kvs fp \<longrightarrow> distinct (map fst (lowered kvs)) \<longrightarrow>
           (\<exists>t h'. headers_op E s i es = Inr (HeadersContinue, t) \<and> header_maps t = (header_maps s)(i \<mapsto> h') \<and>
              mset (hm_iterate (be_headers E) h') = mset (lowered kvs) \<and> pend t = pend s \<and>
              iteration_state t = iteration_state s \<and> complete t = es \<and> blocks (bmem t) = (blocks m2) |` (- fp))
         else headers_op E s i es = Inl unsupported_status"
      using cont filter_enums_distinct(1) [OF laws(3)] op by (simp add: finish finish_stop)
  qed
qed

end

interpretation requesth: headers_direction decodeHeaders on_request_headers pending_request_headers request_complete
  "\<lambda>status i es s. (if status = HeadersStopIteration then s\<lparr>pending_request_headers := Some i\<rparr> else s)
    \<lparr>request_complete := es\<rparr>"
  by unfold_locales (simp_all add: decodeHeaders_def Let_def)

interpretation responseh: headers_direction encodeHeaders on_response_headers pending_response_headers response_complete
  "\<lambda>status i es s. (if status = HeadersStopIteration then s\<lparr>pending_response_headers := Some i\<rparr> else s)
    \<lparr>response_complete := es\<rparr>"
  by unfold_locales (simp_all add: encodeHeaders_def Let_def)

text \<open>C31. Headers in both directions. The platform is handed a fresh C struct with exactly the entries
  of the header map. If it answers \<open>StopIteration\<close>, the map is untouched, is recorded as pending and
  iteration is stopped; if it answers \<open>Continue\<close>, the map holds exactly the returned headers, keys in
  lower case, and the returned struct is released; any other status panics.\<close>

theorem headers_are_bridged:
  assumes wf: "wf_memory (bmem s)" and L: "bridge_laws E" and h: "header_maps s i = Some h"
    and sz: "length (hm_iterate (be_headers E) h) < 2 ^ 31"
      "sizeof_envoy_header * length (hm_iterate (be_headers E) h) +
        pairs_size (pairs_of_strings (hm_iterate (be_headers E) h)) \<le> avail (bmem s)"
    and "on_request_headers (platform_filter s) = Some f" "on_response_headers (platform_filter s) = Some g"
  shows "headers_contract E s i h es f pending_request_headers request_complete (decodeHeaders E s i es) \<and>
    headers_contract E s i h es g pending_response_headers response_complete (encodeHeaders E s i es)"
  using requesth.bridged [OF assms(1-6)] responseh.bridged [OF assms(1-5) assms(7)] by blast

definition headers_answer :: "int \<Rightarrow> unit on_headers_f" where
  "headers_answer status = (\<lambda>hs es ctx (p, m). (\<lparr>fh_status = status, fh_headers = hs\<rparr>, p, m))"

definition headers_filter :: "int \<Rightarrow> (list_headers, byte list, unit) bridge_filter" where
  "headers_filter status = (initial_filter ''f'' (empty_http_filter\<lparr>on_request_headers := Some (headers_answer status),
       on_response_headers := Some (headers_answer status)\<rparr>) () sample_memory)
     \<lparr>iteration_state := Some Ongoing, header_maps := [0 \<mapsto> [(''k'', ''v'')]], owned := True\<rparr>"

theorem headers_are_bridged_witness:
  "headers_contract sample_env (headers_filter 0) 0 [(''k'', ''v'')] True (headers_answer 0)
     pending_request_headers request_complete (decodeHeaders sample_env (headers_filter 0) 0 True)"
proof -
  let ?s = "headers_filter 0"
  have s: "bmem ?s = sample_memory" "header_maps ?s 0 = Some [(''k'', ''v'')]"
    "on_request_headers (platform_filter ?s) = Some (headers_answer 0)"
    "on_response_headers (platform_filter ?s) = Some (headers_answer 0)"
    by (simp_all add: headers_filter_def initial_filter_def)
  have it: "hm_iterate (be_headers sample_env) [(''k'', ''v'')] = [(''k'', ''v'')]"
    by (simp add: sample_env_def list_header_map_def ascii_lower_def)
  have sz: "length (hm_iterate (be_headers sample_env) [(''k'', ''v'')]) < 2 ^ 31"
    "sizeof_envoy_header * length (hm_iterate (be_headers sample_env) [(''k'', ''v'')]) +
      pairs_size (pairs_of_strings (hm_iterate (be_headers sample_env) [(''k'', ''v'')])) \<le> avail (bmem ?s)"
    unfolding it s by (simp_all add: sizeof_envoy_header_def pairs_size_def pairs_of_strings_def sample_memory_def)
  show ?thesis
    using headers_are_bridged [OF _ sample_env_laws s(2) sz s(3,4)] wf_sample_memory s(1) by simp
qed

section \<open>Asynchronous resumption\<close>

lemma restore_headers_quiet:
  "restore_headers E s p r what = Inr t \<Longrightarrow>
     quiet_change s t \<and> btrace t = btrace s \<and> (p \<noteq> None \<longrightarrow> r \<noteq> None)"
  by (auto simp: restore_headers_def quiet_change_def dest: replace_and_free_quiet split: option.splits)

lemma restore_data_quiet:
  "restore_data E s ib r inject = Inr (ib', t) \<Longrightarrow>
     quiet_change s t \<and> (ib' = None \<longleftrightarrow> ib = None) \<and> (ib \<noteq> None \<longrightarrow> r \<noteq> None) \<and>
     (\<exists>bs. btrace t = btrace s @ map (\<lambda>b. inject b False) bs \<and> length bs = (if ib = None \<and> r \<noteq> None then 1 else 0))"
proof (cases "ib = None \<and> r \<noteq> None")
  case True
  assume a: "restore_data E s ib r inject = Inr (ib', t)"
  from True obtain q d where r: "r = Some (q, d)" and i: "ib = None" by (cases r) auto
  from a obtain b s1 m where af: "add_fragment E s (buf_create (be_buffers E)) d = Inr (b, s1)"
    and t: "t = s1\<lparr>btrace := btrace s1 @ [inject b False], bmem := m\<rparr>" "ib' = None"
    by (auto simp: restore_data_def r i)
  have "btrace t = btrace s @ map (\<lambda>b. inject b False) [b]" using add_fragment_quiet [OF af] t by simp
  moreover have "quiet_change s t" using add_fragment_quiet [OF af] t by (simp add: quiet_change_def)
  ultimately show ?thesis using r i t(2) by (intro conjI exI [of _ "[b]"]) auto
next
  case False
  assume a: "restore_data E s ib r inject = Inr (ib', t)"
  with False show ?thesis
    by (auto simp: restore_data_def quiet_change_def dest!: add_fragment_quiet split: option.splits)
qed

lemma call_on_resume_quiet:
  "call_on_resume fn hs d ts complete s m = Inr (r, t) \<Longrightarrow> \<exists>p' m'. t = s\<lparr>platform := p', bmem := m'\<rparr>"
  by (auto simp: call_on_resume_def split_beta Let_def split: option.splits)

lemma resume_decoding_stopped:
  assumes step: "onResumeDecoding E s = Inr t" and st: "iteration_state s = Some Stopped"
  obtains p' m' where "t = s\<lparr>platform := p', bmem := m'\<rparr>"
  | p' m' and r :: envoy_filter_resume_status and s2 ib' s3 s4 where
    "restore_headers E (s\<lparr>platform := p', bmem := m'\<rparr>) (pending_request_headers s) (fr_pending_headers r) ''headers'' = Inr s2"
    "restore_data E (s2\<lparr>pending_request_headers := None\<rparr>) (decoding_buffer s2) (fr_pending_data r) AddDecodedData = Inr (ib', s3)"
    "restore_headers E (s3\<lparr>decoding_buffer := ib'\<rparr>) (pending_request_trailers s3) (fr_pending_trailers r) ''trailers'' = Inr s4"
    "t = s4\<lparr>pending_request_trailers := None, iteration_state := Some Ongoing, btrace := btrace s4 @ [ContinueDecoding]\<rparr>"
proof -
  from step st obtain hs d ts m3 r s1 where
    c: "call_on_resume (on_resume_request (platform_filter s)) hs d ts (request_complete s) s m3 = Inr (r, s1)"
    and rest: "if fr_status r = kEnvoyFilterResumeStatusStopIteration then t = s1
      else \<exists>s2 ib' s3 s4. restore_headers E s1 (pending_request_headers s1) (fr_pending_headers r) ''headers'' = Inr s2 \<and>
        restore_data E (s2\<lparr>pending_request_headers := None\<rparr>) (decoding_buffer s2) (fr_pending_data r) AddDecodedData = Inr (ib', s3) \<and>
        restore_headers E (s3\<lparr>decoding_buffer := ib'\<rparr>) (pending_request_trailers s3) (fr_pending_trailers r) ''trailers'' = Inr s4 \<and>
        t = s4\<lparr>pending_request_trailers := None, iteration_state := Some Ongoing, btrace := btrace s4 @ [ContinueDecoding]\<rparr>"
    by (fastforce simp: onResumeDecoding_def read_iteration_state_def split: if_splits)
  obtain p' m' where "s1 = s\<lparr>platform := p', bmem := m'\<rparr>" using call_on_resume_quiet [OF c] by blast
  with rest that(1) that(2) [where p' = p' and m' = m' and r = r] show thesis
    by (cases "fr_status r = kEnvoyFilterResumeStatusStopIteration") (simp, clarsimp)
qed


definition resume_filter :: "envoy_filter_resume_status \<Rightarrow> IterationState \<Rightarrow> (list_headers, byte list, unit) bridge_filter" where
  "resume_filter r st = (initial_filter ''f'' (empty_http_filter\<lparr>
       on_resume_request := Some (\<lambda>hs d ts es ctx (p, m). (r, p, m)),
       on_resume_response := Some (\<lambda>hs d ts es ctx (p, m). (r, p, m))\<rparr>) () sample_memory)
     \<lparr>iteration_state := Some st, owned := True\<rparr>"

definition resume_answer :: "int \<Rightarrow> envoy_filter_resume_status" where
  "resume_answer status = \<lparr>fr_status = status, fr_pending_headers = None, fr_pending_data = None, fr_pending_trailers = None\<rparr>"

lemmas resume_eval_defs =
  onResumeDecoding_def onResumeEncoding_def resume_filter_def resume_answer_def initial_filter_def
  read_iteration_state_def bridge_pending_headers_def bridge_pending_data_def call_on_resume_def
  restore_headers_def restore_data_def kEnvoyFilterResumeStatusStopIteration_def


section \<open>Construction and destruction\<close>

definition weaks_empty :: "('h, 'b, 'p) bridge_filter \<Rightarrow> bool" where
  "weaks_empty s \<longleftrightarrow> (\<forall>w. weak_ptrs s w = None \<or> weak_ptrs s w = Some EmptyWeak)"

lemma give_callbacks_frame [simp]:
  "platform_filter (give_callbacks s rf fn) = platform_filter s"
  "iteration_state (give_callbacks s rf fn) = iteration_state s" "owned (give_callbacks s rf fn) = owned s"
  "\<not> owned s \<Longrightarrow> weaks_empty s \<Longrightarrow> weaks_empty (give_callbacks s rf fn)"
  by (auto simp: give_callbacks_def new_weak_def weak_from_this_def weaks_empty_def split_beta Let_def
      split: option.splits)

lemma initial_weaks [simp]:
  "weaks_empty (initial_filter n f p m \<lparr>platform_filter := g, platform := q, bmem := k, iteration_state := st\<rparr>)"
  "owned (initial_filter n f p m) = False"
  by (simp_all add: weaks_empty_def initial_filter_def)

text \<open>A platform filter without an initializer is transparent: headers, data and trailers of both
  directions pass unchanged, nothing of the registered struct is ever called, and destruction is a
  no-op. (Its iteration state is never set: a resumption, which nothing in the code requests for such
  a filter, would read an uninitialised member.)\<close>

theorem filter_without_initializer_is_transparent:
  assumes mk: "make_filter asserts config structs p m = Inr s"
    and f: "structs (bc_platform_filter config) = Some f" "init_filter f = None"
  shows "decodeHeaders E s i es = Inr (HeadersContinue, s\<lparr>request_complete := es\<rparr>) \<and>
    decodeData E s data es = Inr (DataContinue, data, s\<lparr>request_complete := es\<rparr>) \<and>
    decodeTrailers E s i = Inr (TrailersContinue, s\<lparr>request_complete := True\<rparr>) \<and>
    encodeHeaders E s i es = Inr (HeadersContinue, s\<lparr>response_complete := es\<rparr>) \<and>
    encodeData E s data es = Inr (DataContinue, data, s\<lparr>response_complete := es\<rparr>) \<and>
    encodeTrailers E s i = Inr (TrailersContinue, s\<lparr>response_complete := True\<rparr>) \<and>
    onDestroy asserts s = Inr s \<and> platform s = p \<and> bmem s = m \<and>
    onResumeDecoding E s = Inl UninitialisedRead"
proof -
  have s: "s = (initial_filter (bc_filter_name config) f p m)\<lparr>platform_filter := empty_http_filter, owned := True\<rparr>"
    using mk f by (auto simp: make_filter_def construct_def split: if_splits)
  show ?thesis
    by (simp add: s decodeHeaders_def decodeData_def decodeTrailers_def encodeHeaders_def encodeData_def
        encodeTrailers_def onHeaders_def onData_def onTrailers_def onDestroy_def empty_http_filter_def
        initial_filter_def onResumeDecoding_def read_iteration_state_def)
qed

theorem filter_without_initializer_is_transparent_witness:
  "\<exists>s. make_filter True \<lparr>bc_filter_name = ''f'', bc_platform_filter = 8\<rparr> [8 \<mapsto> empty_http_filter] () sample_memory =
      Inr (s :: (list_headers, byte list, unit) bridge_filter) \<and>
    decodeData sample_env s [1, 2] False = Inr (DataContinue, [1, 2], s\<lparr>request_complete := False\<rparr>)"
proof -
  let ?c = "\<lparr>bc_filter_name = ''f'', bc_platform_filter = 8\<rparr>"
  let ?st = "[8 \<mapsto> empty_http_filter] :: ptr \<Rightarrow> unit envoy_http_filter option"
  obtain s :: "(list_headers, byte list, unit) bridge_filter" where s: "make_filter True ?c ?st () sample_memory = Inr s"
    by (simp add: make_filter_def construct_def empty_http_filter_def)
  have f: "?st (bc_platform_filter ?c) = Some empty_http_filter" "init_filter empty_http_filter = None"
    by (simp_all add: empty_http_filter_def)
  from filter_without_initializer_is_transparent [OF s f, of sample_env 0 False "[1, 2]"] s
  show ?thesis by blast
qed


definition sample_platform_filter :: "nat envoy_http_filter" where
  "sample_platform_filter = empty_http_filter\<lparr>init_filter := Some (\<lambda>ctx (p, m). (9, p + 1, m)),
     set_request_callbacks := Some (\<lambda>cbs ctx (p, m). (p + 10, m)),
     release_filter := Some (\<lambda>ctx (p, m). (if ctx = 9 then p - 1 else p, m))\<rparr>"


section \<open>Behaviours the comments do not intend\<close>

text \<open>C34. The resume callbacks handed to the platform never resume anything. The constructor wraps
  \<open>weak_from_this()\<close> before any \<open>shared_ptr\<close> owns the filter, so the wrapped pointer is empty for
  good: calling the callback leaves the filter as it is. (A direct call of \<open>resumeDecoding\<close> on the
  finished filter posts a resumption that does run.)\<close>

theorem platform_resume_callbacks_are_dead:
  assumes mk: "make_filter asserts config structs p m = Inr s"
    and later: "weak_ptrs t = weak_ptrs s" "owned t"
    and cbs: "weak_ptrs t (callback_context cbs) \<noteq> None"
  shows "call_resume_function t cbs = Inr t \<and>
    resume_posted (resumeDecoding t) = resume_posted t @ [ResumeDecodingCb WeakSelf] \<and>
    run_resume E t (ResumeDecodingCb WeakSelf) = onResumeDecoding E t"
proof -
  from mk obtain f s0 where c: "construct asserts (bc_filter_name config) f p m = Inr s0" and s: "s = s0\<lparr>owned := True\<rparr>"
    by (auto simp: make_filter_def split: option.splits if_splits)
  have "weaks_empty s0"
  proof (cases "init_filter f")
    case None
    then show ?thesis using c by (auto simp: construct_def weaks_empty_def initial_filter_def)
  next
    case (Some ini)
    then show ?thesis
      using c by (auto simp: construct_def Let_def split_beta)
  qed
  then have "weaks_empty t" using later(1) s by (simp add: weaks_empty_def)
  then have "weak_ptrs t (callback_context cbs) = Some EmptyWeak"
    using cbs unfolding weaks_empty_def by metis
  then show ?thesis
    using later(2) by (simp add: call_resume_function_def locks_def resumeDecoding_def weak_from_this_def)
qed

theorem platform_resume_callbacks_are_dead_witness:
  "\<exists>s. make_filter True \<lparr>bc_filter_name = ''f'', bc_platform_filter = 8\<rparr> [8 \<mapsto> sample_platform_filter] 0 sample_memory =
      Inr (s :: (list_headers, byte list, nat) bridge_filter) \<and>
    call_resume_function s \<lparr>resume_iteration = envoy_filter_callback_resume_decoding, callback_context = 0\<rparr> = Inr s"
proof -
  obtain s :: "(list_headers, byte list, nat) bridge_filter" where
    s: "make_filter True \<lparr>bc_filter_name = ''f'', bc_platform_filter = 8\<rparr> [8 \<mapsto> sample_platform_filter] 0 sample_memory = Inr s"
    and w: "owned s" "weak_ptrs s 0 \<noteq> None"
    by (simp add: make_filter_def construct_def sample_platform_filter_def empty_http_filter_def give_callbacks_def
        new_weak_def initial_filter_def Let_def)
  from platform_resume_callbacks_are_dead [OF s refl w(1), of "\<lparr>resume_iteration = envoy_filter_callback_resume_decoding,
      callback_context = 0\<rparr>"] w s
  show ?thesis by auto
qed

lemma onData_frame:
  assumes "onData E s data es ib ph fn = Inr (status, data', ib', ph', t)"
  shows "pending_request_headers t = pending_request_headers s"
proof (cases fn)
  case None
  then show ?thesis using assms by (simp add: onData_def)
next
  case (Some f)
  then show ?thesis
    using assms
    by (auto simp: onData_def quiet_change_def split_beta Let_def
        dest!: add_fragment_quiet take_pending_headers_quiet split: if_splits option.splits prod.splits)
qed

text \<open>C35. The two directions share one iteration state. If the request is stopped with its headers
  pending and the response then resumes iteration through its data, the state is ongoing and every
  later resumption of the request does nothing, with the request's headers still pending.\<close>

theorem response_resumption_strands_request:
  assumes "pending_request_headers s = Some i" "iteration_state s = Some Stopped"
    and "on_response_data (platform_filter s) \<noteq> None"
    and "encodeData E s data es = Inr (DataContinue, data', t)"
  shows "pending_request_headers t = Some i \<and> onResumeDecoding E t = Inr t"
proof -
  from assms(3) obtain f where f: "on_response_data (platform_filter s) = Some f" by auto
  from assms(4) obtain ib' ph' s1 where o: "onData E s data es (encoding_buffer s) (pending_response_headers s) (Some f) =
      Inr (DataContinue, data', ib', ph', s1)"
    and t: "t = s1\<lparr>encoding_buffer := ib', pending_response_headers := ph', response_complete := es\<rparr>"
    by (auto simp: encodeData_def f)
  show ?thesis
    using onData_agrees [OF o] onData_frame [OF o] assms(1) t
    by (simp add: onResumeDecoding_def read_iteration_state_def)
qed

definition stranded_filter :: "(list_headers, byte list, unit) bridge_filter" where
  "stranded_filter = sample_filter (\<lparr>fd_status = -1, fd_data = envoy_nodata, fd_pending_headers = None\<rparr>) Stopped None"

lemma stranded_resumes: "\<exists>data' t. encodeData sample_env stranded_filter [9] False = Inr (DataContinue, data', t)"
proof -
  let ?r = "\<lparr>fd_status = -1, fd_data = envoy_nodata, fd_pending_headers = None\<rparr>"
  have b: "\<not> buffering sample_env stranded_filter None" by (simp add: buffering_def)
  have v: "buffer_view (be_buffers sample_env) x = x" for x
    by (simp add: sample_env_def buffer_view_def list_buffer_def)
  have "length (shown sample_env stranded_filter None [9]) \<le> 1000" by (simp add: shown_def b v)
  then obtain m2 where a: "asks sample_env stranded_filter None [9] False (Some (fixed_answer ?r)) ?r () m2"
    using sample_asks [of ?r Stopped None "[9]" False] by (auto simp: stranded_filter_def)
  have s: "iteration_state stranded_filter = Some Stopped" "encoding_buffer stranded_filter = None"
    "on_response_data (platform_filter stranded_filter) = Some (fixed_answer ?r)"
    by (simp_all add: stranded_filter_def sample_filter_def initial_filter_def)
  have mv: "after_move sample_env stranded_filter (encoding_buffer stranded_filter) [9] = (None, [9])"
    by (simp add: after_move_def s)
  have "react_to_data sample_env (stranded_filter\<lparr>platform := (), bmem := m2\<rparr>) False None [9]
      (pending_response_headers stranded_filter) ?r = Inr (DataContinue, [],
        None, pending_response_headers stranded_filter,
        stranded_filter\<lparr>platform := (), bmem := m2, bfragments := bfragments stranded_filter @
          [createBridgeFragment envoy_nodata], iteration_state := Some Ongoing\<rparr>)"
    by (simp add: react_to_data_def sample_status_defs s take_pending_headers_def add_fragment_def addFragment_def
        createBridgeFragment_def fragment_data_def fragment_size_def envoy_nodata_def load_bytes_def drain_all_def
        list_buffer_def Let_def)
  then show ?thesis
    using responsed.outcome [OF _ s(1) bridge_lawsD(2) [OF sample_env_laws] mv, of False ?r "()" m2] a b s by simp
qed

theorem response_resumption_strands_request_witness:
  "\<exists>data' t. encodeData sample_env stranded_filter [9] False = Inr (DataContinue, data', t) \<and>
     pending_request_headers t = Some 0 \<and> onResumeDecoding sample_env t = Inr t"
proof -
  obtain data' t where d: "encodeData sample_env stranded_filter [9] False = Inr (DataContinue, data', t)"
    using stranded_resumes by blast
  have s: "pending_request_headers stranded_filter = Some 0" "iteration_state stranded_filter = Some Stopped"
    "on_response_data (platform_filter stranded_filter) \<noteq> None"
    by (simp_all add: stranded_filter_def sample_filter_def initial_filter_def)
  from response_resumption_strands_request [OF s d] d show ?thesis by blast
qed



end
