(* ===== verification/PlatformBridgeBody.thy ===== *)
theory PlatformBridgeBody
  imports PlatformBridgeLife
begin

text \<open>
  A body of many frames through the platform bridge filter. A platform filter that buffers answers every
  frame with \<open>StopIterationAndBuffer\<close>; the filter manager then keeps a frame that it is told to buffer at
  the end of its buffer, as the documentation of the status says. \<open>body_run\<close> is a sequence of frames
  handled that way, in either direction.
\<close>

inductive body_run ::
  "(('h, 'b) bridge_env \<Rightarrow> ('h, 'b, 'p) bridge_filter \<Rightarrow> 'b \<Rightarrow> bool \<Rightarrow>
     abort + FilterDataStatus \<times> 'b \<times> ('h, 'b, 'p) bridge_filter) \<Rightarrow>
   (('h, 'b, 'p) bridge_filter \<Rightarrow> 'b option) \<Rightarrow>
   ('b \<Rightarrow> ('h, 'b, 'p) bridge_filter \<Rightarrow> ('h, 'b, 'p) bridge_filter) \<Rightarrow>
   ('p envoy_http_filter \<Rightarrow> 'p on_data_f option) \<Rightarrow>
   ('h, 'b) bridge_env \<Rightarrow> ('h, 'b, 'p) bridge_filter \<Rightarrow> 'b list \<Rightarrow> ('h, 'b, 'p) bridge_filter \<Rightarrow> bool"
  for data_op buffer set_buffer data_fn E where
  body_done: "body_run data_op buffer set_buffer data_fn E s [] s"
| body_frame:
    "iteration_state s = Some st \<Longrightarrow>
     asks E s (buffer s) data es (data_fn (platform_filter s)) r p' m2 \<Longrightarrow>
     fd_status r = kEnvoyFilterDataStatusStopIterationAndBuffer (be_enums E) \<Longrightarrow>
     data_op E s data es = Inr (status, data', t) \<Longrightarrow>
     buffer_view (be_buffers E) b = bytes_of E (buffer t) @ buffer_view (be_buffers E) data' \<Longrightarrow>
     t' = (if status = DataStopIterationAndBuffer then set_buffer b t else t) \<Longrightarrow>
     body_run data_op buffer set_buffer data_fn E t' frames u \<Longrightarrow>
     body_run data_op buffer set_buffer data_fn E s (data # frames) u"

inductive_cases body_run_Nil [elim!]: "body_run data_op buffer set_buffer data_fn E s [] t"
inductive_cases body_run_Cons: "body_run data_op buffer set_buffer data_fn E s (data # frames) t"

abbreviation body_bytes :: "('h, 'b) bridge_env \<Rightarrow> 'b list \<Rightarrow> byte list" where
  "body_bytes E frames \<equiv> concat (map (buffer_view (be_buffers E)) frames)"

text \<open>What the platform function was called with, when it is asked.\<close>

lemma asked_with:
  assumes laws: "buffer_laws (be_buffers E)" and wf: "wf_memory (bmem s)"
    and ask: "asks E s ib data es fn r p' m2"
  shows "\<exists>f d m1. fn = Some f \<and> f d es (instance_context (platform_filter s)) (platform s, m1) = (r, p', m2) \<and>
    data_view m1 d = Inr (shown E s ib data)"
proof -
  obtain f d m1 where f: "fn = Some f" "copyToBridgeData (be_buffers E) (bmem s) (presented E s ib data) = Inr (d, m1)"
    "f d es (instance_context (platform_filter s)) (platform s, m1) = (r, p', m2)"
    using ask by (auto simp: asks_def split: option.splits sum.splits)
  have "allocates_data (bmem s) d (shown E s ib data) m1"
    using copyb.conv_allocates [OF wf, of "(be_buffers E, presented E s ib data)" "shown E s ib data"] f(2) laws
      presented_view [OF laws, of s ib data] by simp
  with f show ?thesis using allocates_data_view by blast
qed

definition body_contract ::
  "(('h, 'b) bridge_env \<Rightarrow> ('h, 'b, 'p) bridge_filter \<Rightarrow> 'b \<Rightarrow> bool \<Rightarrow>
     abort + FilterDataStatus \<times> 'b \<times> ('h, 'b, 'p) bridge_filter) \<Rightarrow>
   (('h, 'b, 'p) bridge_filter \<Rightarrow> 'b option) \<Rightarrow>
   ('b \<Rightarrow> ('h, 'b, 'p) bridge_filter \<Rightarrow> ('h, 'b, 'p) bridge_filter) \<Rightarrow>
   ('p envoy_http_filter \<Rightarrow> 'p on_data_f option) \<Rightarrow>
   ('h, 'b) bridge_env \<Rightarrow> ('h, 'b, 'p) bridge_filter \<Rightarrow> 'b list \<Rightarrow> ('h, 'b, 'p) bridge_filter \<Rightarrow> bool" where
  "body_contract data_op buffer set_buffer data_fn E s frames t \<longleftrightarrow>
     (body_run data_op buffer set_buffer data_fn E s frames t \<longrightarrow> bytes_of E (buffer s) = [] \<longrightarrow>
      bytes_of E (buffer t) = body_bytes E frames \<and>
      (body_bytes E frames \<noteq> [] \<longrightarrow> wf_memory (bmem t) \<longrightarrow>
       (\<forall>data es r p' m2. asks E t (buffer t) data es (data_fn (platform_filter t)) r p' m2 \<longrightarrow>
          (\<exists>f d m1. data_fn (platform_filter t) = Some f \<and>
             f d es (instance_context (platform_filter t)) (platform t, m1) = (r, p', m2) \<and>
             data_view m1 d = Inr (body_bytes E (frames @ [data]))))))"

locale buffering_direction = bridge_direction +
  fixes set_buffer :: "'b \<Rightarrow> ('a, 'b, 'c) bridge_filter \<Rightarrow> ('a, 'b, 'c) bridge_filter"
  assumes set_buffer: "buffer (set_buffer b t) = Some b"
    "iteration_state (set_buffer b t) = iteration_state t"
begin

lemma body_kept:
  assumes "body_run data_op buffer set_buffer data_fn E s frames t" and L: "bridge_laws E"
  shows "bytes_of E (buffer t) = bytes_of E (buffer s) @ body_bytes E frames \<and>
    (frames \<noteq> [] \<longrightarrow> iteration_state t = Some Stopped)"
  using assms(1)
proof (induction rule: body_run.induct)
  case (body_frame s st data es r p' m2 status data' t b t' frames u)
  from stop(1) [OF body_frame.hyps(2,1) L body_frame.hyps(3)] body_frame.hyps(4)
  have t: "iteration_state t = Some Stopped" "bytes_of E (buffer t) @ buffer_view (be_buffers E) data' =
      bytes_of E (buffer s) @ buffer_view (be_buffers E) data"
    "status = (if buffering E s (buffer s) then DataStopIterationNoBuffer else DataStopIterationAndBuffer)"
    "buffering E s (buffer s) \<Longrightarrow> buffer_view (be_buffers E) data' = []"
    by auto
  have "bytes_of E (buffer t') = bytes_of E (buffer s) @ buffer_view (be_buffers E) data"
    "iteration_state t' = Some Stopped"
    using t body_frame.hyps(5,6) by (auto simp: set_buffer bytes_of_def [of E "Some b"])
  with body_frame.IH show ?case by (cases "frames = []") (use body_frame.hyps(7) in auto)
qed simp

lemma body_shown:
  assumes run: "body_run data_op buffer set_buffer data_fn E s frames t" and L: "bridge_laws E"
    and start: "bytes_of E (buffer s) = []" and some: "body_bytes E frames \<noteq> []"
    and wf: "wf_memory (bmem t)"
    and ask: "asks E t (buffer t) data es (data_fn (platform_filter t)) r p' m2"
  shows "\<exists>f d m1. data_fn (platform_filter t) = Some f \<and>
    f d es (instance_context (platform_filter t)) (platform t, m1) = (r, p', m2) \<and>
    data_view m1 d = Inr (body_bytes E (frames @ [data]))"
proof -
  have k: "bytes_of E (buffer t) = body_bytes E frames" "iteration_state t = Some Stopped"
    using body_kept [OF run L] start some by auto
  then have "buffering E t (buffer t)"
    using some by (cases "buffer t") (auto simp: buffering_def bytes_of_def buf_length_view [OF bridge_lawsD(2) [OF L]])
  then have "shown E t (buffer t) data = body_bytes E (frames @ [data])" using k by (simp add: shown_def)
  then show ?thesis using asked_with [OF bridge_lawsD(2) [OF L] wf ask] by simp
qed

lemma contract:
  assumes L: "bridge_laws E"
  shows "body_contract data_op buffer set_buffer data_fn E s frames t"
  unfolding body_contract_def
proof (intro impI conjI allI)
  assume run: "body_run data_op buffer set_buffer data_fn E s frames t" and start: "bytes_of E (buffer s) = []"
  then show "bytes_of E (buffer t) = body_bytes E frames" using body_kept [OF run L] by simp
  fix data es r p' m2
  assume "body_bytes E frames \<noteq> []" "wf_memory (bmem t)"
    "asks E t (buffer t) data es (data_fn (platform_filter t)) r p' m2"
  then show "\<exists>f d m1. data_fn (platform_filter t) = Some f \<and>
      f d es (instance_context (platform_filter t)) (platform t, m1) = (r, p', m2) \<and>
      data_view m1 d = Inr (body_bytes E (frames @ [data]))"
    by (rule body_shown [OF run L start])
qed

end

interpretation requestb: buffering_direction decodeData decoding_buffer pending_request_headers on_request_data
  "\<lambda>es ib ph s. s\<lparr>decoding_buffer := ib, pending_request_headers := ph, request_complete := es\<rparr>"
  "\<lambda>b s. s\<lparr>decoding_buffer := Some b\<rparr>"
  by unfold_locales simp_all

interpretation responseb: buffering_direction encodeData encoding_buffer pending_response_headers on_response_data
  "\<lambda>es ib ph s. s\<lparr>encoding_buffer := ib, pending_response_headers := ph, response_complete := es\<rparr>"
  "\<lambda>b s. s\<lparr>encoding_buffer := Some b\<rparr>"
  by unfold_locales simp_all

text \<open>C27. A buffered body survives any number of frames, in both directions. When the platform filter answers
  every frame with \<open>StopIterationAndBuffer\<close>, and the filter manager appends to its buffer what it is told
  to buffer, the buffer holds exactly the bytes of all frames in order; and with the next frame the
  platform filter is shown the whole body up to and including that frame.\<close>

theorem whole_body_is_shown:
  assumes "bridge_laws E"
  shows "body_contract decodeData decoding_buffer (\<lambda>b s. s\<lparr>decoding_buffer := Some b\<rparr>) on_request_data E s frames t \<and>
    body_contract encodeData encoding_buffer (\<lambda>b s. s\<lparr>encoding_buffer := Some b\<rparr>) on_response_data E s frames t"
  by (intro conjI requestb.contract responseb.contract assms)

lemmas body_eval_defs =
  decodeData_def onData_def asks_def presented_def buffering_def bytes_of_def buffer_view_def copyToBridgeData_def
  safe_malloc_def malloc_def store_bytes_def put_block_def sample_filter_def initial_filter_def sample_env_def
  list_buffer_def bridge_memory_def sample_memory_def read_iteration_state_def fixed_answer_def
  sample_status_defs Let_def

lemma sample_body:
  "\<exists>t. body_run decodeData decoding_buffer (\<lambda>b s. s\<lparr>decoding_buffer := Some b\<rparr>) on_request_data sample_env
     (sample_filter (answer 1) Ongoing None) [[1, 2], [3]] t \<and> wf_memory (bmem t) \<and>
     (\<exists>r p' m2. asks sample_env t (decoding_buffer t) [9] True (on_request_data (platform_filter t)) r p' m2)"
  by (intro exI conjI, rule body_frame [where es = False and b = "[1, 2]"], simp add: body_eval_defs,
    simp add: body_eval_defs, simp add: body_eval_defs answer_def, simp add: body_eval_defs answer_def,
    simp add: body_eval_defs, rule refl, rule body_frame [where es = False and b = "[1, 2, 3]"],
    simp add: body_eval_defs, simp add: body_eval_defs, simp add: body_eval_defs answer_def,
    simp add: body_eval_defs answer_def, simp add: body_eval_defs, rule refl, rule body_done)
    (auto simp: body_eval_defs wf_memory_def split: if_splits)

theorem whole_body_is_shown_witness:
  "\<exists>t f d m1. body_run decodeData decoding_buffer (\<lambda>b s. s\<lparr>decoding_buffer := Some b\<rparr>) on_request_data sample_env
     (sample_filter (answer 1) Ongoing None) [[1, 2], [3]] t \<and>
     on_request_data (platform_filter t) = Some f \<and> data_view m1 d = Inr [1, 2, 3, 9]"
proof -
  obtain t r p' m2 where t: "body_run decodeData decoding_buffer (\<lambda>b s. s\<lparr>decoding_buffer := Some b\<rparr>) on_request_data
      sample_env (sample_filter (answer 1) Ongoing None) [[1, 2], [3]] t" "wf_memory (bmem t)"
    "asks sample_env t (decoding_buffer t) [9] True (on_request_data (platform_filter t)) r p' m2"
    using sample_body by blast
  have v: "buffer_view (be_buffers sample_env) x = x" for x
    by (simp add: sample_env_def buffer_view_def list_buffer_def)
  have s: "bytes_of sample_env (decoding_buffer (sample_filter (answer 1) Ongoing None)) = []"
    by (simp add: sample_filter_def bytes_of_def)
  have ne: "body_bytes sample_env [[1, 2], [3]] \<noteq> []" by (simp add: v)
  obtain f d m1 where "on_request_data (platform_filter t) = Some f"
    "data_view m1 d = Inr (body_bytes sample_env ([[1, 2], [3]] @ [[9]]))"
    using conjunct1 [OF whole_body_is_shown [OF sample_env_laws], unfolded body_contract_def, rule_format,
        OF t(1) s, THEN conjunct2, rule_format, OF ne t(2,3)] by blast
  then show ?thesis using t(1) by (auto simp: v)
qed

end
