(* ===== verification/AssertionFilter.thy ===== *)
theory AssertionFilter
  imports PlatformBridge
begin

text \<open>
  The assertion filter (\<open>src/library/common/extensions/filters/http/assertion/filter.h\<close>,
  \<open>filter.cc\<close>, \<open>config.cc\<close>), an HTTP filter that answers with an error of its own when a request or
  response does not match the configured expectations.

  Envoy's streaming matchers are a parameter: what each callback makes of the vector of statuses, and the
  status of the root. A handler returns its status for Envoy, the new \<open>statuses_\<close> and the local reply it
  sent, if any. The six handlers have the same three shapes for the two directions, which \<open>check_headers\<close>,
  \<open>check_data\<close> and \<open>check_trailers\<close> hold once; a \<open>direction\<close> supplies the matcher's callbacks, the code
  and the three messages.
\<close>

section \<open>Data\<close>

record MatchStatus =
  matches :: bool
  might_change_status :: bool

type_synonym MatchStatusVector = "MatchStatus list"

record ('h, 'b) matcher =
  onNewStream :: "MatchStatusVector \<Rightarrow> MatchStatusVector"
  onHttpRequestHeaders :: "'h \<Rightarrow> MatchStatusVector \<Rightarrow> MatchStatusVector"
  onRequestBody :: "'b \<Rightarrow> MatchStatusVector \<Rightarrow> MatchStatusVector"
  onHttpRequestTrailers :: "'h \<Rightarrow> MatchStatusVector \<Rightarrow> MatchStatusVector"
  onHttpResponseHeaders :: "'h \<Rightarrow> MatchStatusVector \<Rightarrow> MatchStatusVector"
  onResponseBody :: "'b \<Rightarrow> MatchStatusVector \<Rightarrow> MatchStatusVector"
  onHttpResponseTrailers :: "'h \<Rightarrow> MatchStatusVector \<Rightarrow> MatchStatusVector"
  matchStatus :: "MatchStatusVector \<Rightarrow> MatchStatus"

text \<open>\<open>default_status\<close> is a default-constructed \<open>MatchStatus\<close>, \<open>empty_map\<close> what
  \<open>RequestTrailerMapImpl::create\<close> and \<open>ResponseTrailerMapImpl::create\<close> return.\<close>

record ('h, 'b) matcher_api =
  buildMatcher :: "string \<Rightarrow> ('h, 'b) matcher list"
  default_status :: MatchStatus
  empty_map :: 'h
  matcher_asserts :: bool

record ('h, 'b) AssertionFilterConfig =
  matchers :: "('h, 'b) matcher list"

datatype http_code = BadRequest | InternalServerError

record local_reply =
  reply_code :: http_code
  reply_body :: string

definition new_config :: "('h, 'b) matcher_api \<Rightarrow> string \<Rightarrow> ('h, 'b) AssertionFilterConfig" where
  "new_config L proto_config = \<lparr>matchers = buildMatcher L proto_config\<rparr>"

definition matchersSize :: "('h, 'b) AssertionFilterConfig \<Rightarrow> nat" where
  "matchersSize C = length (matchers C)"

definition rootMatcher ::
  "('h, 'b) matcher_api \<Rightarrow> ('h, 'b) AssertionFilterConfig \<Rightarrow> abort + ('h, 'b) matcher" where
  "rootMatcher L C =
     bindE (ASSERT (matcher_asserts L) (matchers C \<noteq> []) ''!matchers_.empty()'') (\<lambda>_.
     case matchers C of [] \<Rightarrow> Inl InvalidAccess | M # _ \<Rightarrow> Inr M)"

definition new_filter ::
  "('h, 'b) matcher_api \<Rightarrow> ('h, 'b) AssertionFilterConfig \<Rightarrow> abort + MatchStatusVector" where
  "new_filter L C =
     bindE (rootMatcher L C) (\<lambda>M. Inr (onNewStream M (replicate (matchersSize C) (default_status L))))"

text \<open>\<open>config.cc\<close>: the configuration is built once; the callback that the factory returns adds a new
  filter to the chain of each stream.\<close>

definition createFilterFactoryFromProtoTyped ::
  "('h, 'b) matcher_api \<Rightarrow> string \<Rightarrow> (('h, 'b) AssertionFilterConfig \<times> MatchStatusVector) list \<Rightarrow>
   abort + (('h, 'b) AssertionFilterConfig \<times> MatchStatusVector) list" where
  "createFilterFactoryFromProtoTyped L proto_config =
     (let filter_config = new_config L proto_config
      in (\<lambda>filter_chain. bindE (new_filter L filter_config) (\<lambda>statuses.
           Inr (filter_chain @ [(filter_config, statuses)]))))"

section \<open>The three shapes\<close>

record ('h, 'b) direction =
  onHeaders_of :: "'h \<Rightarrow> MatchStatusVector \<Rightarrow> MatchStatusVector"
  onBody_of :: "'b \<Rightarrow> MatchStatusVector \<Rightarrow> MatchStatusVector"
  onTrailers_of :: "'h \<Rightarrow> MatchStatusVector \<Rightarrow> MatchStatusVector"
  status_of :: "MatchStatusVector \<Rightarrow> MatchStatus"
  dir_empty :: 'h
  dir_code :: http_code
  headers_msg :: string
  body_msg :: string
  trailers_msg :: string

text \<open>\<open>!match_status.matches_ && !match_status.might_change_status_\<close>\<close>

definition mismatch :: "MatchStatus \<Rightarrow> bool" where
  "mismatch ms \<longleftrightarrow> \<not> matches ms \<and> \<not> might_change_status ms"

definition reply :: "('h, 'b) direction \<Rightarrow> string \<Rightarrow> local_reply option" where
  "reply D msg = Some \<lparr>reply_code = dir_code D, reply_body = msg\<rparr>"

text \<open>The two tests after the trailers, the received or the implied empty ones.\<close>

definition check_trailers ::
  "('h, 'b) direction \<Rightarrow> MatchStatusVector \<Rightarrow> 'h \<Rightarrow> MatchStatusVector \<times> local_reply option" where
  "check_trailers D statuses trailers =
     (let statuses' = onTrailers_of D trailers statuses;
          match_status = status_of D statuses'
      in (statuses',
          if mismatch match_status then reply D (trailers_msg D)
          else if \<not> matches match_status then reply D (body_msg D)
          else None))"

definition check_headers ::
  "('h, 'b) direction \<Rightarrow> MatchStatusVector \<Rightarrow> 'h \<Rightarrow> bool \<Rightarrow> MatchStatusVector \<times> local_reply option" where
  "check_headers D statuses headers end_stream =
     (let statuses' = onHeaders_of D headers statuses
      in if mismatch (status_of D statuses') then (statuses', reply D (headers_msg D))
         else if end_stream then check_trailers D statuses' (dir_empty D)
         else (statuses', None))"

definition check_data ::
  "('h, 'b) direction \<Rightarrow> MatchStatusVector \<Rightarrow> 'b \<Rightarrow> bool \<Rightarrow> MatchStatusVector \<times> local_reply option" where
  "check_data D statuses data end_stream =
     (let statuses' = onBody_of D data statuses
      in if mismatch (status_of D statuses') then (statuses', reply D (body_msg D))
         else if end_stream then check_trailers D statuses' (dir_empty D)
         else (statuses', None))"

section \<open>The handlers\<close>

definition request_direction :: "('h, 'b) matcher_api \<Rightarrow> ('h, 'b) matcher \<Rightarrow> ('h, 'b) direction" where
  "request_direction L M =
     \<lparr>onHeaders_of = onHttpRequestHeaders M, onBody_of = onRequestBody M,
      onTrailers_of = onHttpRequestTrailers M, status_of = matchStatus M, dir_empty = empty_map L,
      dir_code = BadRequest,
      headers_msg = ''Request Headers do not match configured expectations'',
      body_msg = ''Request Body does not match configured expectations'',
      trailers_msg = ''Request Trailers do not match configured expectations''\<rparr>"

definition response_direction :: "('h, 'b) matcher_api \<Rightarrow> ('h, 'b) matcher \<Rightarrow> ('h, 'b) direction" where
  "response_direction L M =
     \<lparr>onHeaders_of = onHttpResponseHeaders M, onBody_of = onResponseBody M,
      onTrailers_of = onHttpResponseTrailers M, status_of = matchStatus M, dir_empty = empty_map L,
      dir_code = InternalServerError,
      headers_msg = ''Response Headers do not match configured expectations'',
      body_msg = ''Response Body does not match configured expectations'',
      trailers_msg = ''Response Trailers do not match configured expectations''\<rparr>"

definition headers_result ::
  "MatchStatusVector \<times> local_reply option \<Rightarrow> FilterHeadersStatus \<times> MatchStatusVector \<times> local_reply option" where
  "headers_result r = (if snd r = None then HeadersContinue else HeadersStopIteration, r)"

definition data_result ::
  "MatchStatusVector \<times> local_reply option \<Rightarrow> FilterDataStatus \<times> MatchStatusVector \<times> local_reply option" where
  "data_result r = (if snd r = None then DataContinue else DataStopIterationNoBuffer, r)"

definition trailers_result ::
  "MatchStatusVector \<times> local_reply option \<Rightarrow> FilterTrailersStatus \<times> MatchStatusVector \<times> local_reply option" where
  "trailers_result r = (if snd r = None then TrailersContinue else TrailersStopIteration, r)"

definition decodeHeaders where
  "decodeHeaders L C statuses headers end_stream = bindE (rootMatcher L C) (\<lambda>M.
     Inr (headers_result (check_headers (request_direction L M) statuses headers end_stream)))"

definition decodeData where
  "decodeData L C statuses data end_stream = bindE (rootMatcher L C) (\<lambda>M.
     Inr (data_result (check_data (request_direction L M) statuses data end_stream)))"

definition decodeTrailers where
  "decodeTrailers L C statuses trailers = bindE (rootMatcher L C) (\<lambda>M.
     Inr (trailers_result (check_trailers (request_direction L M) statuses trailers)))"

definition encodeHeaders where
  "encodeHeaders L C statuses headers end_stream = bindE (rootMatcher L C) (\<lambda>M.
     Inr (headers_result (check_headers (response_direction L M) statuses headers end_stream)))"

definition encodeData where
  "encodeData L C statuses data end_stream = bindE (rootMatcher L C) (\<lambda>M.
     Inr (data_result (check_data (response_direction L M) statuses data end_stream)))"

definition encodeTrailers where
  "encodeTrailers L C statuses trailers = bindE (rootMatcher L C) (\<lambda>M.
     Inr (trailers_result (check_trailers (response_direction L M) statuses trailers)))"

section \<open>A whole message\<close>

text \<open>The frames of a request or response in the order of the filter chain, the last one with
  \<open>end_stream\<close>. The filter sees the next one only while it has not replied.\<close>

datatype ('h, 'b) frame = HeadersFrame 'h bool | DataFrame 'b bool | TrailersFrame 'h

fun on_request ::
  "('h, 'b) matcher_api \<Rightarrow> ('h, 'b) AssertionFilterConfig \<Rightarrow> MatchStatusVector \<Rightarrow> ('h, 'b) frame \<Rightarrow>
   abort + MatchStatusVector \<times> local_reply option" where
  "on_request L C statuses (HeadersFrame h es) = bindE (decodeHeaders L C statuses h es) (Inr \<circ> snd)"
| "on_request L C statuses (DataFrame b es) = bindE (decodeData L C statuses b es) (Inr \<circ> snd)"
| "on_request L C statuses (TrailersFrame t) = bindE (decodeTrailers L C statuses t) (Inr \<circ> snd)"

fun on_response ::
  "('h, 'b) matcher_api \<Rightarrow> ('h, 'b) AssertionFilterConfig \<Rightarrow> MatchStatusVector \<Rightarrow> ('h, 'b) frame \<Rightarrow>
   abort + MatchStatusVector \<times> local_reply option" where
  "on_response L C statuses (HeadersFrame h es) = bindE (encodeHeaders L C statuses h es) (Inr \<circ> snd)"
| "on_response L C statuses (DataFrame b es) = bindE (encodeData L C statuses b es) (Inr \<circ> snd)"
| "on_response L C statuses (TrailersFrame t) = bindE (encodeTrailers L C statuses t) (Inr \<circ> snd)"

fun run_frames ::
  "(MatchStatusVector \<Rightarrow> ('h, 'b) frame \<Rightarrow> abort + MatchStatusVector \<times> local_reply option) \<Rightarrow>
   MatchStatusVector \<Rightarrow> ('h, 'b) frame list \<Rightarrow> abort + MatchStatusVector \<times> local_reply option" where
  "run_frames handle statuses [] = Inr (statuses, None)"
| "run_frames handle statuses (f # fs) = bindE (handle statuses f) (\<lambda>(statuses', r).
     if r = None then run_frames handle statuses' fs else Inr (statuses', r))"

fun data_frames :: "'b list \<Rightarrow> bool \<Rightarrow> ('h, 'b) frame list" where
  "data_frames [] last_ends = []"
| "data_frames (b # bs) last_ends = DataFrame b (last_ends \<and> bs = []) # data_frames bs last_ends"

definition message_frames :: "'h \<Rightarrow> 'b list \<Rightarrow> 'h option \<Rightarrow> ('h, 'b) frame list" where
  "message_frames h bs t =
     HeadersFrame h (bs = [] \<and> t = None) # data_frames bs (t = None) @
     (case t of None \<Rightarrow> [] | Some tr \<Rightarrow> [TrailersFrame tr])"

section \<open>The verdict on a message\<close>

text \<open>The statuses after a complete message; a message without trailers counts as one with empty
  trailers.\<close>

definition final_statuses ::
  "('h, 'b) direction \<Rightarrow> MatchStatusVector \<Rightarrow> 'h \<Rightarrow> 'b list \<Rightarrow> 'h option \<Rightarrow> MatchStatusVector" where
  "final_statuses D v h bs t =
     onTrailers_of D (case t of None \<Rightarrow> dir_empty D | Some tr \<Rightarrow> tr)
       (fold (onBody_of D) bs (onHeaders_of D h v))"

text \<open>What the filter relies on: a status that is said not to change does not change.\<close>

definition steady :: "('h, 'b) direction \<Rightarrow> bool" where
  "steady D \<longleftrightarrow> (\<forall>v x b. \<not> might_change_status (status_of D v) \<longrightarrow>
     status_of D (onHeaders_of D x v) = status_of D v \<and> status_of D (onBody_of D b v) = status_of D v \<and>
     status_of D (onTrailers_of D x v) = status_of D v)"

text \<open>A handler of one direction, whatever its code and messages.\<close>

locale assertion_direction =
  fixes D :: "('h, 'b) direction"
    and handle :: "MatchStatusVector \<Rightarrow> ('h, 'b) frame \<Rightarrow> abort + MatchStatusVector \<times> local_reply option"
  assumes on_headers: "handle v (HeadersFrame h es) = Inr (check_headers D v h es)"
    and on_data: "handle v (DataFrame b es) = Inr (check_data D v b es)"
    and on_trailers: "handle v (TrailersFrame t) = Inr (check_trailers D v t)"
begin

definition rejects :: "MatchStatusVector \<Rightarrow> MatchStatusVector \<times> local_reply option \<Rightarrow> bool" where
  "rejects v r \<longleftrightarrow> (case snd r of
     None \<Rightarrow> matches (status_of D v) \<and> fst r = v
   | Some l \<Rightarrow> \<not> matches (status_of D v) \<and> reply_code l = dir_code D)"

lemma check_trailers_rejects: "rejects (onTrailers_of D t v) (check_trailers D v t)"
  by (simp add: rejects_def check_trailers_def mismatch_def reply_def Let_def)

lemma mismatch_fold:
  "steady D \<Longrightarrow> mismatch (status_of D v) \<Longrightarrow> mismatch (status_of D (fold (onBody_of D) bs v))"
  by (induction bs arbitrary: v) (auto simp: steady_def mismatch_def)

lemma mismatch_final:
  "steady D \<Longrightarrow> mismatch (status_of D v) \<Longrightarrow>
     \<not> matches (status_of D (onTrailers_of D t (fold (onBody_of D) bs v)))"
  using mismatch_fold [of v bs] by (simp add: steady_def mismatch_def)

lemma body_verdict:
  assumes "steady D"
  shows "bs \<noteq> [] \<or> t \<noteq> None \<Longrightarrow> \<exists>r. run_frames handle v (data_frames bs (t = None) @
      (case t of None \<Rightarrow> [] | Some tr \<Rightarrow> [TrailersFrame tr])) = Inr r \<and>
    rejects (onTrailers_of D (case t of None \<Rightarrow> dir_empty D | Some tr \<Rightarrow> tr) (fold (onBody_of D) bs v)) r"
proof (induction bs arbitrary: v)
  case Nil
  then obtain tr where "t = Some tr" by auto
  then show ?case
    using check_trailers_rejects [of tr v]
    by (cases "check_trailers D v tr") (auto simp: on_trailers)
next
  case (Cons b bs)
  let ?v = "onBody_of D b v" and ?t = "case t of None \<Rightarrow> dir_empty D | Some tr \<Rightarrow> tr"
  show ?case
  proof (cases "mismatch (status_of D ?v)")
    case True
    then show ?thesis
      using mismatch_final [OF assms True, of ?t bs]
      by (simp add: on_data check_data_def reply_def rejects_def)
  next
    case False
    show ?thesis
    proof (cases "t = None \<and> bs = []")
      case True
      then show ?thesis
        using False check_trailers_rejects [of "dir_empty D" ?v]
        by (cases "check_trailers D ?v (dir_empty D)") (auto simp: on_data check_data_def)
    next
      case rest: False
      with Cons.IH [of ?v] False show ?thesis by (auto simp: on_data check_data_def)
    qed
  qed
qed

lemma message_verdict:
  assumes "steady D"
  shows "\<exists>r. run_frames handle v (message_frames h bs t) = Inr r \<and> rejects (final_statuses D v h bs t) r"
proof -
  let ?v = "onHeaders_of D h v" and ?t = "case t of None \<Rightarrow> dir_empty D | Some tr \<Rightarrow> tr"
  show ?thesis
  proof (cases "mismatch (status_of D ?v)")
    case True
    then show ?thesis
      using mismatch_final [OF assms True, of ?t bs]
      by (simp add: message_frames_def final_statuses_def on_headers check_headers_def reply_def rejects_def)
  next
    case False
    show ?thesis
    proof (cases "bs = [] \<and> t = None")
      case True
      then show ?thesis
        using False check_trailers_rejects [of "dir_empty D" ?v]
        by (cases "check_trailers D ?v (dir_empty D)")
          (auto simp: message_frames_def final_statuses_def on_headers check_headers_def)
    next
      case rest: False
      with body_verdict [OF assms, of bs t ?v] False show ?thesis
        by (auto simp: message_frames_def final_statuses_def on_headers check_headers_def)
    qed
  qed
qed

end

interpretation reqd: assertion_direction "request_direction L M" "on_request L \<lparr>matchers = M # Ms\<rparr>" for L M Ms
  by unfold_locales (simp_all add: decodeHeaders_def decodeData_def decodeTrailers_def rootMatcher_def
      headers_result_def data_result_def trailers_result_def)

interpretation rspd: assertion_direction "response_direction L M" "on_response L \<lparr>matchers = M # Ms\<rparr>" for L M Ms
  by unfold_locales (simp_all add: encodeHeaders_def encodeData_def encodeTrailers_def rootMatcher_def
      headers_result_def data_result_def trailers_result_def)

section \<open>The properties\<close>


text \<open>A matcher of one request header and one of one response header.\<close>

definition decide :: "bool \<Rightarrow> MatchStatusVector \<Rightarrow> MatchStatusVector" where
  "decide b v = (case v of
     [] \<Rightarrow> []
   | ms # rest \<Rightarrow> (if might_change_status ms then \<lparr>matches = b, might_change_status = False\<rparr> else ms) # rest)"

definition head_status :: "MatchStatusVector \<Rightarrow> MatchStatus" where
  "head_status v = (case v of [] \<Rightarrow> \<lparr>matches = False, might_change_status = False\<rparr> | ms # _ \<Rightarrow> ms)"

definition idle_matcher :: "((string \<times> string) list, byte list) matcher" where
  "idle_matcher =
     \<lparr>onNewStream = (\<lambda>v. v), onHttpRequestHeaders = (\<lambda>h v. v), onRequestBody = (\<lambda>b v. v),
      onHttpRequestTrailers = (\<lambda>h v. v), onHttpResponseHeaders = (\<lambda>h v. v), onResponseBody = (\<lambda>b v. v),
      onHttpResponseTrailers = (\<lambda>h v. v), matchStatus = head_status\<rparr>"

definition request_header_matcher :: "string \<times> string \<Rightarrow> ((string \<times> string) list, byte list) matcher" where
  "request_header_matcher kv = idle_matcher\<lparr>onHttpRequestHeaders := (\<lambda>h. decide (kv \<in> set h))\<rparr>"

definition response_header_matcher :: "string \<times> string \<Rightarrow> ((string \<times> string) list, byte list) matcher" where
  "response_header_matcher kv = idle_matcher\<lparr>onHttpResponseHeaders := (\<lambda>h. decide (kv \<in> set h))\<rparr>"

definition sample_matchers :: "((string \<times> string) list, byte list) matcher_api" where
  "sample_matchers = \<lparr>buildMatcher = (\<lambda>_. []), default_status = \<lparr>matches = False, might_change_status = True\<rparr>,
     empty_map = [], matcher_asserts = True\<rparr>"

lemmas sample_matcher_defs =
  decide_def head_status_def idle_matcher_def request_header_matcher_def response_header_matcher_def
  sample_matchers_def request_direction_def response_direction_def

lemma sample_steady:
  "steady (request_direction L (request_header_matcher kv))"
  "steady (response_direction L (request_header_matcher kv))"
  by (auto simp: steady_def sample_matcher_defs split: list.splits)

abbreviation undecided :: MatchStatusVector where
  "undecided \<equiv> [\<lparr>matches = False, might_change_status = True\<rparr>]"


text \<open>C38. Assertions about responses reject every request. The statuses of both directions are one vector
  with one root, and the end of the request already demands that the root matches: when no frame of the
  request moves an undecided status, as for a matcher of response headers, every complete request is
  answered with \<open>BadRequest\<close> and blamed on its body, before there is a response.\<close>

theorem response_assertion_rejects_request:
  assumes "\<forall>x b. onHttpRequestHeaders M x v = v \<and> onRequestBody M b v = v \<and> onHttpRequestTrailers M x v = v"
    and "matchStatus M v = \<lparr>matches = False, might_change_status = True\<rparr>"
  shows "run_frames (on_request L \<lparr>matchers = M # Ms\<rparr>) v (message_frames h bs t) =
    Inr (v, Some \<lparr>reply_code = BadRequest, reply_body = ''Request Body does not match configured expectations''\<rparr>)"
proof -
  let ?D = "request_direction L M"
  have v: "onHeaders_of ?D x v = v" "onBody_of ?D b v = v" "onTrailers_of ?D x v = v"
    "status_of ?D v = \<lparr>matches = False, might_change_status = True\<rparr>" for x b
    using assms by (simp_all add: request_direction_def)
  have t: "check_trailers ?D v x = (v, reply ?D (body_msg ?D))" for x
    by (simp add: check_trailers_def v mismatch_def)
  have "run_frames (on_request L \<lparr>matchers = M # Ms\<rparr>) v (data_frames bs (t = None) @
      (case t of None \<Rightarrow> [] | Some tr \<Rightarrow> [TrailersFrame tr])) = Inr (v, reply ?D (body_msg ?D))"
    if "bs \<noteq> [] \<or> t \<noteq> None"
    using that
    by (induction bs)
      (auto simp: reqd.on_data reqd.on_trailers check_data_def v t mismatch_def reply_def
        simp del: on_request.simps split: option.splits)
  then have "run_frames (on_request L \<lparr>matchers = M # Ms\<rparr>) v (message_frames h bs t) =
      Inr (v, reply ?D (body_msg ?D))"
    by (auto simp: message_frames_def reqd.on_headers check_headers_def v t mismatch_def reply_def
        simp del: on_request.simps)
  then show ?thesis by (simp add: reply_def request_direction_def)
qed

theorem response_assertion_rejects_request_witness:
  "run_frames (on_request sample_matchers \<lparr>matchers = [response_header_matcher (''a'', ''b'')]\<rparr>) undecided
     (message_frames [(''x'', ''y'')] [] None) =
   Inr (undecided, Some \<lparr>reply_code = BadRequest,
     reply_body = ''Request Body does not match configured expectations''\<rparr>)"
  by (rule response_assertion_rejects_request) (simp_all add: sample_matcher_defs)

end
