(* ===== verification/Extensions.thy ===== *)
theory Extensions
  imports ConfigTemplate
begin

text \<open>
  \<open>src/envoy_build_config/extension_registry.cc\<close> and the factory classes of the two filters
  (\<open>src/library/common/extensions/filters/http/assertion/config.h\<close>, \<open>platform_bridge/config.h\<close>).

  A static library does not run the registration of a factory that nothing refers to, so the constructor
  of the engine forces the registration of every extension the configuration needs. A factory is found by
  the protobuf type of its configuration, which the template gives after \<open>"@type"\<close>. The factories of
  Envoy are a parameter; those of the repository are defined here.
\<close>

section \<open>The registry\<close>

datatype extension_factory =
    DynamicForwardProxyCluster
  | GzipDecompressorLibrary
  | AssertionFilterFactory
  | DecompressorFilter
  | BufferFilter
  | DynamicForwardProxyFilter
  | PlatformBridgeFilterFactory
  | RouterFilterConfig
  | HttpConnectionManagerFilterConfig
  | MetricsServiceSink
  | UpstreamSslSocket
  | GenericGenericConnPool
  | LogicalDnsCluster

text \<open>The last statement creates a \<open>SocketInterfaceImpl\<close> and destroys it.\<close>

datatype registration = ForceRegister extension_factory | TouchSocketInterface

definition registerFactories :: "registration list" where
  "registerFactories =
     [ForceRegister DynamicForwardProxyCluster, ForceRegister GzipDecompressorLibrary,
      ForceRegister AssertionFilterFactory, ForceRegister DecompressorFilter, ForceRegister BufferFilter,
      ForceRegister DynamicForwardProxyFilter, ForceRegister PlatformBridgeFilterFactory,
      ForceRegister RouterFilterConfig, ForceRegister HttpConnectionManagerFilterConfig,
      ForceRegister MetricsServiceSink, ForceRegister UpstreamSslSocket, ForceRegister GenericGenericConnPool,
      ForceRegister LogicalDnsCluster, TouchSocketInterface]"

record FactoryBase =
  factory_name :: string
  factory_config_type :: string

definition assertion_factory :: FactoryBase where
  "assertion_factory = \<lparr>factory_name = ''assertion'',
     factory_config_type = ''envoymobile.extensions.filters.http.assertion.Assertion''\<rparr>"

definition platform_bridge_factory :: FactoryBase where
  "platform_bridge_factory = \<lparr>factory_name = ''platform_bridge'',
     factory_config_type = ''envoymobile.extensions.filters.http.platform_bridge.PlatformBridge''\<rparr>"

definition factory_of :: "(extension_factory \<Rightarrow> FactoryBase) \<Rightarrow> extension_factory \<Rightarrow> FactoryBase" where
  "factory_of envoy f = (case f of
     AssertionFilterFactory \<Rightarrow> assertion_factory
   | PlatformBridgeFilterFactory \<Rightarrow> platform_bridge_factory
   | _ \<Rightarrow> envoy f)"

definition registered_types :: "(extension_factory \<Rightarrow> FactoryBase) \<Rightarrow> string list" where
  "registered_types envoy =
     [factory_config_type (factory_of envoy f). ForceRegister f \<leftarrow> registerFactories]"

text \<open>The configuration types that Envoy documents for its factories.\<close>

definition documented_types :: "(extension_factory \<Rightarrow> FactoryBase) \<Rightarrow> bool" where
  "documented_types envoy \<longleftrightarrow>
     factory_config_type (envoy DynamicForwardProxyCluster) =
       ''envoy.extensions.clusters.dynamic_forward_proxy.v3.ClusterConfig'' \<and>
     factory_config_type (envoy GzipDecompressorLibrary) =
       ''envoy.extensions.compression.gzip.decompressor.v3.Gzip'' \<and>
     factory_config_type (envoy DecompressorFilter) =
       ''envoy.extensions.filters.http.decompressor.v3.Decompressor'' \<and>
     factory_config_type (envoy BufferFilter) = ''envoy.extensions.filters.http.buffer.v3.Buffer'' \<and>
     factory_config_type (envoy DynamicForwardProxyFilter) =
       ''envoy.extensions.filters.http.dynamic_forward_proxy.v3.FilterConfig'' \<and>
     factory_config_type (envoy RouterFilterConfig) = ''envoy.extensions.filters.http.router.v3.Router'' \<and>
     factory_config_type (envoy HttpConnectionManagerFilterConfig) =
       ''envoy.extensions.filters.network.http_connection_manager.v3.HttpConnectionManager'' \<and>
     factory_config_type (envoy MetricsServiceSink) = ''envoy.config.metrics.v3.MetricsServiceConfig'' \<and>
     factory_config_type (envoy UpstreamSslSocket) =
       ''envoy.extensions.transport_sockets.tls.v3.UpstreamTlsContext''"

section \<open>The types of the template\<close>

definition type_prefix :: string where
  "type_prefix = [dquote] @ ''@type'' @ [dquote] @ '': type.googleapis.com/''"

definition type_of_line :: "string \<Rightarrow> string list" where
  "type_of_line l = (let t = dropWhile (\<lambda>c. c = CHR '' '') l
     in if take (length type_prefix) t = type_prefix then [drop (length type_prefix) t] else [])"

definition template_types :: "string list \<Rightarrow> string list" where
  "template_types ls = concat (map type_of_line ls)"

lemma template_types_append [simp]: "template_types (xs @ ys) = template_types xs @ template_types ys"
  by (simp add: template_types_def)

lemma listener_types:
  "template_types (listener_lines @ cluster_head_lines) =
     [''envoy.extensions.filters.network.http_connection_manager.v3.HttpConnectionManager'',
      ''envoy.extensions.filters.http.dynamic_forward_proxy.v3.FilterConfig'',
      ''envoy.extensions.filters.http.decompressor.v3.Decompressor'',
      ''envoy.extensions.compression.gzip.decompressor.v3.Gzip'',
      ''envoy.extensions.filters.http.router.v3.Router'',
      ''envoy.extensions.clusters.dynamic_forward_proxy.v3.ClusterConfig'',
      ''envoy.extensions.transport_sockets.tls.v3.UpstreamTlsContext'']"
  by code_simp

lemma cluster_types:
  "template_types (cluster_tail_lines @ stats_lines) =
     replicate 5 ''envoy.extensions.clusters.dynamic_forward_proxy.v3.ClusterConfig'' @
     [''envoy.config.metrics.v3.MetricsServiceConfig'']"
  by code_simp

lemma filter_types:
  "template_types platform_filter_template =
     [''envoymobile.extensions.filters.http.platform_bridge.PlatformBridge'']"
  by code_simp

text \<open>C24. Everything the configuration template refers to is linked in: every extension type of the template,
  and of the block that is inserted for a platform filter, is the configuration type of a factory whose
  registration \<open>registerFactories\<close> forces, whatever certificates are included, as long as they mention
  no type themselves.\<close>

theorem template_extensions_are_registered:
  assumes "documented_types envoy" and "template_types certificates = []"
  shows "set (template_types (config_template certificates @ platform_filter_template)) \<subseteq> set (registered_types envoy)"
proof -
  have split: "config_template certificates =
      (listener_lines @ cluster_head_lines) @ certificates @ (cluster_tail_lines @ stats_lines)"
    by (simp add: config_template_def)
  have "set (template_types (config_template certificates @ platform_filter_template)) =
      set (template_types (listener_lines @ cluster_head_lines)) \<union>
      set (template_types (cluster_tail_lines @ stats_lines)) \<union> set (template_types platform_filter_template)"
    unfolding split using assms(2) by auto
  then show ?thesis
    using assms(1) unfolding listener_types cluster_types filter_types
    by (simp add: registered_types_def registerFactories_def documented_types_def factory_of_def
        platform_bridge_factory_def)
qed

definition sample_factories :: "extension_factory \<Rightarrow> FactoryBase" where
  "sample_factories f = \<lparr>factory_name = [], factory_config_type = (case f of
     DynamicForwardProxyCluster \<Rightarrow> ''envoy.extensions.clusters.dynamic_forward_proxy.v3.ClusterConfig''
   | GzipDecompressorLibrary \<Rightarrow> ''envoy.extensions.compression.gzip.decompressor.v3.Gzip''
   | DecompressorFilter \<Rightarrow> ''envoy.extensions.filters.http.decompressor.v3.Decompressor''
   | BufferFilter \<Rightarrow> ''envoy.extensions.filters.http.buffer.v3.Buffer''
   | DynamicForwardProxyFilter \<Rightarrow> ''envoy.extensions.filters.http.dynamic_forward_proxy.v3.FilterConfig''
   | RouterFilterConfig \<Rightarrow> ''envoy.extensions.filters.http.router.v3.Router''
   | HttpConnectionManagerFilterConfig \<Rightarrow>
       ''envoy.extensions.filters.network.http_connection_manager.v3.HttpConnectionManager''
   | MetricsServiceSink \<Rightarrow> ''envoy.config.metrics.v3.MetricsServiceConfig''
   | UpstreamSslSocket \<Rightarrow> ''envoy.extensions.transport_sockets.tls.v3.UpstreamTlsContext''
   | _ \<Rightarrow> [])\<rparr>"

theorem template_extensions_are_registered_witness:
  "set (template_types (config_template [''                -----BEGIN CERTIFICATE-----''] @ platform_filter_template))
     \<subseteq> set (registered_types sample_factories)"
proof (rule template_extensions_are_registered)
  show "documented_types sample_factories" by (simp add: documented_types_def sample_factories_def)
  show "template_types [''                -----BEGIN CERTIFICATE-----''] = []" by code_simp
qed

end
