(* ===== verification/Support.thy ===== *)
theory Support
  imports Prelude
begin

text \<open>
  Two small classes of the library: \<open>Thread::OptionalReleasableLockGuard\<close>
  (\<open>src/library/common/thread/lock_guard.h\<close>) and \<open>Network::Address::SyntheticAddressImpl\<close>
  (\<open>src/library/common/network/synthetic_address_impl.h\<close>).
\<close>

section \<open>The lock guard\<close>

text \<open>The calls a guard makes on its mutex, in order; a guard holds the mutex it still has to unlock.\<close>

datatype lock_op = Lock nat | Unlock nat

record lock_guard =
  guarded :: "nat option"
  lock_ops :: "lock_op list"

definition new_lock_guard :: "nat option \<Rightarrow> lock_guard" where
  "new_lock_guard lock = \<lparr>guarded = lock, lock_ops = (case lock of None \<Rightarrow> [] | Some l \<Rightarrow> [Lock l])\<rparr>"

definition lock_release :: "lock_guard \<Rightarrow> lock_guard" where
  "lock_release g = (case guarded g of
     None \<Rightarrow> g | Some l \<Rightarrow> g\<lparr>guarded := None, lock_ops := lock_ops g @ [Unlock l]\<rparr>)"

definition destroy_lock_guard :: "lock_guard \<Rightarrow> lock_guard" where
  "destroy_lock_guard g = lock_release g"

lemma lock_release_idem: "(lock_release ^^ Suc n) g = lock_release g"
  by (induction n) (simp_all add: lock_release_def split: option.splits)

text \<open>However often the mutex is released by hand, by its end a guard has locked and unlocked it exactly
  once, in this order; a guard without a mutex does nothing.\<close>

lemma lock_guard_balanced:
  "lock_ops (destroy_lock_guard ((lock_release ^^ n) (new_lock_guard lock))) =
     (case lock of None \<Rightarrow> [] | Some l \<Rightarrow> [Lock l, Unlock l])"
proof -
  have "lock_release ((lock_release ^^ n) (new_lock_guard lock)) = lock_release (new_lock_guard lock)"
    using lock_release_idem [of n "new_lock_guard lock"] by simp
  then show ?thesis
    by (simp add: destroy_lock_guard_def lock_release_def new_lock_guard_def split: option.splits)
qed

section \<open>The synthetic address\<close>

datatype address_type = AddressIp | AddressPipe | AddressEnvoyInternal

record synthetic_address =
  address :: string

definition new_synthetic_address :: synthetic_address where
  "new_synthetic_address = \<lparr>address = ''synthetic''\<rparr>"

definition address_equal :: "synthetic_address \<Rightarrow> 'a \<Rightarrow> bool" where
  "address_equal a other = False"

definition asString :: "synthetic_address \<Rightarrow> string" where
  "asString a = address a"

definition asStringView :: "synthetic_address \<Rightarrow> string" where
  "asStringView a = address a"

definition logicalName :: "synthetic_address \<Rightarrow> string" where
  "logicalName a = address a"

definition address_ip :: "synthetic_address \<Rightarrow> ptr" where
  "address_ip a = NULL"

definition address_pipe :: "synthetic_address \<Rightarrow> ptr" where
  "address_pipe a = NULL"

definition envoyInternalAddress :: "synthetic_address \<Rightarrow> ptr" where
  "envoyInternalAddress a = NULL"

definition sockAddr :: "synthetic_address \<Rightarrow> ptr" where
  "sockAddr a = NULL"

definition sockAddrLen :: "synthetic_address \<Rightarrow> nat" where
  "sockAddrLen a = 0"

definition type_of_address :: "synthetic_address \<Rightarrow> address_type" where
  "type_of_address a = AddressIp"

text \<open>A client that takes the reported type at its word and follows \<open>ip()\<close> follows a null pointer.\<close>

lemma synthetic_ip_is_null:
  "type_of_address a = AddressIp \<and> address_ip a = NULL \<and> \<not> address_equal a a"
  by (simp add: type_of_address_def address_ip_def address_equal_def)

end
