(* ===== verification/StreamInterface.thy ===== *)
theory StreamInterface
  imports Dispatcher Support
begin

text \<open>
  The rest of what the connection manager can call on a stream: the methods of \<open>DirectStreamCallbacks\<close> and
  \<open>DirectStream\<close> that \<open>src/library/common/http/dispatcher.h\<close> defines in the class. Two of them are not
  implemented and stop the process; the others report constants or the details of the response.
\<close>

definition encode100ContinueHeaders ::
  "('h, 'b) http_dispatcher \<Rightarrow> oid \<Rightarrow> 'h \<Rightarrow> abort + ('h, 'b) http_dispatcher" where
  "encode100ContinueHeaders s i headers = Inl NotImplemented"

definition encodeMetadata ::
  "('h, 'b) http_dispatcher \<Rightarrow> oid \<Rightarrow> 'm list \<Rightarrow> abort + ('h, 'b) http_dispatcher" where
  "encodeMetadata s i metadata = Inl NotImplemented"

definition encoder_getStream :: "oid \<Rightarrow> oid" where
  "encoder_getStream direct_stream = direct_stream"

definition http1StreamEncoderOptions :: "'a option" where
  "http1StreamEncoderOptions = None"

definition streamErrorOnInvalidHttpMessage :: bool where
  "streamErrorOnInvalidHttpMessage = False"

text \<open>The address that all streams of a dispatcher share.\<close>

definition connectionLocalAddress :: synthetic_address where
  "connectionLocalAddress = new_synthetic_address"

definition responseDetails :: "('h, 'b) http_dispatcher \<Rightarrow> oid \<Rightarrow> abort + string" where
  "responseDetails s i = with_stream s i (\<lambda>ds. Inr (response_details ds))"

definition readDisable :: "('h, 'b) http_dispatcher \<Rightarrow> oid \<Rightarrow> bool \<Rightarrow> ('h, 'b) http_dispatcher" where
  "readDisable s i disable = s"

definition setFlushTimeout :: "('h, 'b) http_dispatcher \<Rightarrow> oid \<Rightarrow> nat \<Rightarrow> ('h, 'b) http_dispatcher" where
  "setFlushTimeout s i milliseconds = s"

section \<open>The details of a cancelled stream\<close>

lemma removeStream_objects: "removeStream E s h = Inr t \<Longrightarrow> objects t = objects s"
  by (auto simp: removeStream_def emit_def split: if_split_asm option.split_asm)

lemma onCancel_objects: "onCancel E s i = Inr t \<Longrightarrow> objects t = objects s"
  by (auto simp: onCancel_def with_stream_def update_stats_def emit_def split: option.split_asm)

text \<open>After a cancellation by the platform the connection manager, which resets the stream from its reset
  callback, reads the reason; the object is still alive then.\<close>

lemma cancelled_details:
  assumes "run_cancelStream E s h = Inr t" and "getStream s h = Some i"
  shows "responseDetails t i = Inr getCancelDetails"
proof -
  obtain ds s1 s2 where ds: "objects s i = Some ds" and s1: "removeStream E s (stream_handle ds) = Inr s1"
    and s2: "onCancel E s1 i = Inr s2"
    and t: "t = emit (setResponseDetails s2 i getCancelDetails) (RunResetCallbacks i RemoteReset)"
    using assms by (auto simp: run_cancelStream_def with_stream_def split: option.split_asm)
  then have "objects s2 i = Some ds" by (simp add: removeStream_objects onCancel_objects)
  with t show ?thesis by (simp add: responseDetails_def with_stream_def setResponseDetails_def emit_def)
qed

end
