(* ===== verification/Spec2Isabelle.thy ===== *)
theory Spec2Isabelle
  imports EventLoop HeapInvariant JniProps PlatformBridgeBody AssertionFilter Extensions StreamInterface
begin

text \<open>
  \<^bold>\<open>Envoy Mobile\<close>: a verification of the C++ library under \<open>src/library/common\<close>.

  \<^bold>\<open>The program.\<close> Envoy Mobile runs the Envoy proxy inside a mobile application. The application (Java,
  Kotlin, Swift) calls a C interface (\<open>main_interface.cc\<close>); on Android the calls pass through the JNI
  (\<open>jni/\<close>). The C interface owns one \<open>Engine\<close> (\<open>engine.cc\<close>), which runs an Envoy server on a thread of
  its own. The engine holds the \<open>Http::Dispatcher\<close> (\<open>http/dispatcher.cc\<close>), which turns the application's
  calls into requests to Envoy's connection manager (HCM) on the server's event loop, and the responses
  into callbacks to the application. Inside the HCM's filter chain the platform bridge filter
  (\<open>extensions/filters/http/platform_bridge\<close>) hands each request and response to filters that the
  application registered in a process-wide registry (\<open>api/external.cc\<close>). All this traffic crosses the
  language boundary in C structs (\<open>types/c_types.cc\<close>), converted from and to Envoy's types by
  \<open>http/header_utility.cc\<close> and \<open>buffer/utility.cc\<close>. The server is configured from a template
  (\<open>config_template.cc\<close>).

  \<^bold>\<open>How the code is modelled.\<close> A method is a function on an explicit state; a posted lambda is a value
  with its captures; a failed assertion, an uncaught exception and undefined behaviour are values of
  \<open>abort\<close>, so a result \<open>Inr\<close> says that none of them happens. Threads are places in their code whose steps
  interleave. Machine integers are words. Code that the repository does not hold (Envoy, the JVM, the
  platform's callbacks) is an argument of the definitions that use it; what the code relies on is a named
  predicate over the argument, met by a concrete instance in the witnesses.

  \<^bold>\<open>The theories\<close>, in the order of their imports (sources relative to \<open>src/library/common\<close>).

  \<^item> \<open>Prelude\<close>: aborts and their sequencing, bytes and strings, and the locale \<open>transition_system\<close> of
    reachable states and invariants, interpreted for the dispatcher, the engine and the process.
  \<^item> \<open>CTypes\<close> (\<open>types/c_types.h\<close>, \<open>c_types.cc\<close>): the C heap and every function on \<open>envoy_data\<close> and
    \<open>envoy_headers\<close>. Copies have the contents of their source, and releasing one restores the heap: no
    leak, no double free, and an explicit bound on the memory that suffices. The locale \<open>headers_copier\<close>
    is the contract of everything that builds fresh headers (here, in \<open>HeaderUtility\<close> and in
    \<open>JniUtility\<close>).
  \<^item> \<open>EnvoyLib\<close>: Envoy's header maps, buffers and utilities, as parameters with their laws.
  \<^item> \<open>HeaderUtility\<close> (\<open>http/header_utility.cc\<close>) and \<open>BufferUtility\<close> (\<open>buffer/utility.cc\<close>,
    \<open>bridge_fragment.h\<close>): the conversions, with their round trips. The locale \<open>data_copier\<close> is the
    contract of everything that builds fresh data.
  \<^item> \<open>Dispatcher\<close> (\<open>http/dispatcher.h\<close>, \<open>dispatcher.cc\<close>, \<open>http/headers.h\<close>): the streams, the queue of
    calls, both directions of a stream, the destruction of streams, and \<open>dispatcher_step\<close>, the composition
    of all of them. \<open>DispatcherStreams\<close>: the contract \<open>env_ok\<close> of the surroundings, the invariant, and
    that a stream has exactly one terminal callback. \<open>DispatcherOps\<close>: what the platform sees of each
    response event, cancellation, and the aborts that remain. \<open>DispatcherRequests\<close>: calls are executed in
    order across the start of the engine (locale \<open>fifo\<close>), the destination cluster, the requests that reach
    Envoy.
  \<^item> \<open>StreamInterface\<close> (\<open>http/dispatcher.h\<close>): the methods of a stream that are defined in the class.
  \<^item> \<open>Engine\<close> (\<open>engine.h\<close>, \<open>engine.cc\<close>, \<open>envoy_mobile_main_common.cc\<close>): construction, \<open>run\<close>,
    the post-init callback, metrics and the destructor, as steps of two threads. \<open>EngineProps\<close>: pointer
    safety, the order of the callbacks, completion of the destructor. \<open>EventLoop\<close>: the loop gets through
    the dispatcher's queue. \<open>EngineMetrics\<close>: metrics are
    executed in order. \<open>EngineFaults\<close>: a server that fails to start or ends unasked leaves a destructor
    that never returns.
  \<^item> \<open>ExternalApi\<close> (\<open>api/external.cc\<close>): the registry; locale \<open>api_registry\<close>.
  \<^item> \<open>MainInterface\<close> (\<open>main_interface.cc\<close>): the statics, every function, and \<open>process_step\<close>, the
    composition with all the engines a process creates. \<open>MainInterfaceProps\<close>: handles are unique, so the
    platform keeps its part of \<open>env_ok\<close>, and the dispatcher's guarantee holds for every engine.
  \<^item> \<open>HeapInvariant\<close>: the heap as a type. Every operation keeps it well-formed and accounts for every byte,
    whatever it is given; so do all engines of a process, which therefore abort in the dispatcher's control
    flow only for lack of memory.
  \<^item> \<open>PlatformBridge\<close> (\<open>extensions/filters/http/platform_bridge\<close>): the configuration, the six handlers,
    the asynchronous resumption and the life of an instance. \<open>PlatformBridgeProps\<close> and
    \<open>PlatformBridgeLife\<close>: no byte is lost, answers replace what is pending, statuses agree with the
    iteration state; the two directions share the locales \<open>bridge_direction\<close> and \<open>headers_direction\<close>.
    \<open>PlatformBridgeBody\<close>: a buffered body of any number of frames, by rule induction over the frames, in the
    locale \<open>buffering_direction\<close> that extends \<open>bridge_direction\<close>.
  \<^item> \<open>AssertionFilter\<close> (\<open>extensions/filters/http/assertion\<close>): the six handlers and the verdict they
    give; locale \<open>assertion_direction\<close>.
  \<^item> \<open>JniUtility\<close>, \<open>JniInterface\<close> (\<open>jni/\<close>): loading, references, conversions, callbacks into Java and
    the calls from it. \<open>JniProps\<close>: the Java context of a stream lives exactly as long as the stream, headers reach a
    Java filter in order, and the local references left behind are counted.
  \<^item> \<open>ConfigTemplate\<close> (\<open>config_template.cc\<close>): the text of the templates; every cluster the dispatcher
    chooses exists in it.
  \<^item> \<open>Extensions\<close> (\<open>src/envoy_build_config/extension_registry.cc\<close>, the filters' \<open>config.h\<close>): the forced
    registrations; every extension type of the template has one.
  \<^item> \<open>Support\<close> (\<open>thread/lock_guard.h\<close>, \<open>network/synthetic_address_impl.h\<close>).

  \<^bold>\<open>What the theorems assume of the surroundings.\<close>

  \<^item> \<open>env_ok\<close> (\<open>DispatcherStreams\<close>): the HCM encodes only on an open stream, and ends a local reply with
    its one data frame; it sends neither 100-Continue headers nor metadata, which \<open>StreamInterface\<close> shows
    to stop the process; \<open>ready\<close> is called once; a handle starts one stream. \<open>MainInterfaceProps\<close> discharges
    the parts about \<open>ready\<close> and handles from the code of the engine and of the C interface, while fewer
    than \<open>2 ^ 64\<close> handles have been taken; the bound is sharp, since the counter then wraps.
  \<^item> The engine's theorems assume a server that starts (\<open>server_starts\<close>) and, by parameters of the step
    relation, a loop that ends only on request and a wait that wakes only on notification.
    \<open>EngineFaults\<close> says what happens otherwise. The destructor needs at most eight further steps of the
    two threads once it has begun.
  \<^item> \<open>header_map_laws\<close>, \<open>buffer_laws\<close> (\<open>EnvoyLib\<close>): the documented behaviour of Envoy's containers.
  \<^item> \<open>documented_types\<close> (\<open>Extensions\<close>): the configuration types of Envoy's own factories.
  \<^item> \<open>body_run\<close> (\<open>PlatformBridgeBody\<close>): the filter manager appends to its buffer what it is told to buffer.
  \<^item> \<open>steady\<close> (\<open>AssertionFilter\<close>): a matcher's decision is final, as Envoy documents.

  \<^bold>\<open>Simplifications.\<close> A call to the platform or to Envoy is an event of a trace, and the reaction a later
  step; \<open>Dispatcher\<close> says why no state change is missed. Each engine works on a heap of its own, and the
  JNI layer on another. Logging and testing hooks have no effect. No loop in the code needs fuel: every
  definition is total.

  \<^bold>\<open>Not modelled.\<close> The bodies of Envoy's server, connection manager, filter manager and matchers (not in
  the repository; parameters); the effect of a forced registration, which only links a factory in;
  \<open>certificates.inc\<close> (data); the Objective-C, Java, Kotlin and Swift sources (clients of the C interface,
  in other languages; of the Objective-C sources the headers declare interfaces without behaviour).
\<close>

end
